(* ===== verification/Prelude.thy ===== *)
theory Prelude
  imports Main "HOL-Library.Word" "HOL-Library.Sublist"
begin

text \<open>
  Shared vocabulary of the development: the byte and machine-word types of the Go code,
  errors as their Go message text, the little- and big-endian readers and writers of
  \<^verbatim>\<open>encoding/binary\<close>, the string operations of the package \<^verbatim>\<open>strings\<close> that the code
  calls, and the generic transition-system interface the concurrent components are
  proved against.
\<close>

unbundle bit_operations_syntax

section \<open>Types\<close>

type_synonym byte = "8 word"
type_synonym bytes = "byte list"
type_synonym u16 = "16 word"
type_synonym u32 = "32 word"
type_synonym u64 = "64 word"

text \<open>
  A Go \<^verbatim>\<open>error\<close> is its message: the code inspects error texts (\<^verbatim>\<open>isConnError\<close>,
  \<^verbatim>\<open>isSetupEndpointsWedge\<close>), so the model keeps them. \<^verbatim>\<open>fmt.Errorf("p: %w", err)\<close> is the
  message of \<^verbatim>\<open>err\<close> with the prefix in front.
\<close>

type_synonym go_error = string
type_synonym 'a result = "go_error + 'a"

named_theorems wire_simps \<open>evaluation of the byte-level readers and writers\<close>
named_theorems step_defs \<open>definitions of the atomic sections of a component\<close>

text \<open>
  \<^verbatim>\<open>x, err := f(); if err != nil { return err }\<close> is \<open>bindR\<close>; a check that returns an error is \<open>failIf\<close>;
  \<open>wrapR\<close> puts a prefix in front of an error.
\<close>

definition bindR :: "'a result \<Rightarrow> ('a \<Rightarrow> 'b result) \<Rightarrow> 'b result" where
  "bindR r f = (case r of Inl e \<Rightarrow> Inl e | Inr x \<Rightarrow> f x)"

definition failIf :: "bool \<Rightarrow> go_error \<Rightarrow> unit result" where
  "failIf c e = (if c then Inl e else Inr ())"

definition wrapR :: "string \<Rightarrow> 'a result \<Rightarrow> 'a result" where
  "wrapR s r = (case r of Inl e \<Rightarrow> Inl (s @ e) | Inr x \<Rightarrow> Inr x)"

lemma result_simps [simp]:
  "bindR (Inr x) f = f x" "bindR (Inl e) f = Inl e" "wrapR s (Inr x) = Inr x" "wrapR s (Inl e) = Inl (s @ e)"
  "failIf False e = Inr ()" "failIf True e = Inl e"
  by (simp_all add: bindR_def wrapR_def failIf_def)

lemma result_Inr_iff [simp]:
  "bindR r f = Inr y \<longleftrightarrow> (\<exists>x. r = Inr x \<and> f x = Inr y)" "wrapR s r = Inr x \<longleftrightarrow> r = Inr x" "failIf c e = Inr u \<longleftrightarrow> \<not> c"
  by (auto simp: bindR_def wrapR_def failIf_def split: sum.splits)

text \<open>The same for code that also updates a state \<open>'s\<close>: the state of the failing step is kept.\<close>

definition bindS :: "('s \<Rightarrow> 'a result \<times> 's) \<Rightarrow> ('a \<Rightarrow> 's \<Rightarrow> 'b result \<times> 's) \<Rightarrow> 's \<Rightarrow> 'b result \<times> 's" where
  "bindS m f s = (case m s of (Inl e, s') \<Rightarrow> (Inl e, s') | (Inr x, s') \<Rightarrow> f x s')"

definition liftR :: "'a result \<Rightarrow> 's \<Rightarrow> 'a result \<times> 's" where
  "liftR r s = (r, s)"

definition wrapS :: "string \<Rightarrow> ('s \<Rightarrow> 'a result \<times> 's) \<Rightarrow> 's \<Rightarrow> 'a result \<times> 's" where
  "wrapS p m s = (case m s of (r, s') \<Rightarrow> (wrapR p r, s'))"

lemma bindS_Inr_iff [simp]: "bindS m f s = (Inr y, t) \<longleftrightarrow> (\<exists>x s'. m s = (Inr x, s') \<and> f x s' = (Inr y, t))"
  by (auto simp: bindS_def split: prod.splits sum.splits)

lemma liftR_iff [simp]: "liftR r s = (x, t) \<longleftrightarrow> r = x \<and> s = t"
  by (simp add: liftR_def)

lemma wrapS_Inr_iff [simp]: "wrapS p m s = (Inr x, t) \<longleftrightarrow> m s = (Inr x, t)"
  by (auto simp: wrapS_def wrapR_def split: prod.splits sum.splits)

section \<open>Lists\<close>

lemma fold_concat_map:
  "fold (\<lambda>x acc. acc @ f x) xs acc = acc @ concat (map f xs)"
  by (induction xs arbitrary: acc) simp_all

section \<open>Words\<close>

lemma unat_of_nat_small [simp]:
  "n < 2 ^ LENGTH('a) \<Longrightarrow> unat (of_nat n :: 'a::len word) = n"
  by (simp add: unat_of_nat take_bit_nat_eq_self)

lemma unat_byte_less [simp]: "unat (b :: byte) < 256"
  using unsigned_less [of b, where ?'a = nat] by simp

section \<open>Binary encodings (encoding/binary)\<close>

definition le_bytes :: "nat \<Rightarrow> 'a::len word \<Rightarrow> bytes" where
  "le_bytes n w = map (\<lambda>i. ucast (drop_bit (8 * i) w)) [0..<n]"

fun of_le_bytes :: "bytes \<Rightarrow> 'a::len word" where
  "of_le_bytes [] = 0"
| "of_le_bytes (b # bs) = ucast b OR push_bit 8 (of_le_bytes bs)"

definition PutUint16LE :: "u16 \<Rightarrow> bytes" where "PutUint16LE = le_bytes 2"
definition PutUint32LE :: "u32 \<Rightarrow> bytes" where "PutUint32LE = le_bytes 4"
definition PutUint64LE :: "u64 \<Rightarrow> bytes" where "PutUint64LE = le_bytes 8"
definition Uint16LE :: "bytes \<Rightarrow> u16" where "Uint16LE = of_le_bytes"
definition Uint32LE :: "bytes \<Rightarrow> u32" where "Uint32LE = of_le_bytes"

definition PutUint16BE :: "u16 \<Rightarrow> bytes" where "PutUint16BE w = rev (le_bytes 2 w)"
definition Uint16BE :: "bytes \<Rightarrow> u16" where "Uint16BE bs = of_le_bytes (rev bs)"

lemma length_le_bytes [simp]: "length (le_bytes n w) = n"
  by (simp add: le_bytes_def)

lemma length_PutUint [simp]:
  "length (PutUint16LE w) = 2" "length (PutUint32LE x) = 4"
  "length (PutUint64LE y) = 8" "length (PutUint16BE w) = 2"
  by (simp_all add: PutUint16LE_def PutUint32LE_def PutUint64LE_def PutUint16BE_def)

lemma le_bytes_Suc: "le_bytes (Suc n) w = ucast w # le_bytes n (drop_bit 8 w)"
  by (simp add: le_bytes_def upt_conv_Cons map_Suc_upt [symmetric] del: upt_Suc)
     (simp add: add.commute)

lemma bit_of_le_bytes:
  "bit (of_le_bytes (le_bytes n (w :: 'a::len word)) :: 'a word) i \<longleftrightarrow> i < 8 * n \<and> bit w i"
proof (induction n arbitrary: w i)
  case 0
  then show ?case by (simp add: le_bytes_def)
next
  case (Suc n)
  show ?case
    by (cases "i < LENGTH('a)")
       (auto simp: le_bytes_Suc Suc bit_or_iff bit_push_bit_iff bit_unsigned_iff bit_drop_bit_eq
         dest: bit_imp_le_length)
qed

lemma of_le_bytes_le_bytes [simp]:
  fixes w :: "'a::len word"
  assumes "LENGTH('a) \<le> 8 * n"
  shows "of_le_bytes (le_bytes n w) = w"
  using assms
  by (intro bit_eqI) (auto simp: bit_of_le_bytes dest: bit_imp_le_length)

lemma Uint_PutUint [simp]:
  "Uint16LE (PutUint16LE w) = w" "Uint32LE (PutUint32LE x) = x" "Uint16BE (PutUint16BE w) = w"
  by (simp_all add: Uint16LE_def PutUint16LE_def Uint32LE_def PutUint32LE_def
      Uint16BE_def PutUint16BE_def)

lemma le_bytes_inj:
  fixes v w :: "'a::len word"
  assumes "LENGTH('a) \<le> 8 * n" "le_bytes n v = le_bytes n w"
  shows "v = w"
  using assms of_le_bytes_le_bytes by metis

section \<open>Strings (package strings)\<close>

definition Contains :: "string \<Rightarrow> string \<Rightarrow> bool" where
  "Contains s sub = sublist sub s"

definition HasPrefix :: "string \<Rightarrow> string \<Rightarrow> bool" where
  "HasPrefix s p = prefix p s"

definition TrimPrefix :: "string \<Rightarrow> string \<Rightarrow> string" where
  "TrimPrefix s p = (if prefix p s then drop (length p) s else s)"

lemma Contains_infix [intro, simp]: "Contains (xs @ sub @ ys) sub"
  by (auto simp: Contains_def sublist_def)

lemma Contains_append1: "Contains ys sub \<Longrightarrow> Contains (xs @ ys) sub"
  by (auto simp: Contains_def sublist_def) (metis append_assoc)

text \<open>The conversions \<^verbatim>\<open>[]byte(s)\<close> and \<^verbatim>\<open>string(b)\<close>.\<close>

definition stringBytes :: "string \<Rightarrow> bytes" where
  "stringBytes s = map (of_nat \<circ> of_char) s"

definition bytesString :: "bytes \<Rightarrow> string" where
  "bytesString bs = map (char_of \<circ> unat) bs"

lemma bytesString_stringBytes [simp]: "bytesString (stringBytes s) = s"
proof -
  have "of_char c < (256 :: nat)" for c :: char
    using nat_of_char_less_256 [of c] .
  then show ?thesis by (induction s) (simp_all add: bytesString_def stringBytes_def)
qed

text \<open>Decimal rendering, as \<^verbatim>\<open>%d\<close> of a non-negative integer.\<close>

fun show_nat :: "nat \<Rightarrow> string" where
  "show_nat n = (if n < 10 then [char_of (48 + n)] else show_nat (n div 10) @ [char_of (48 + n mod 10)])"

declare show_nat.simps [simp del]

definition showInt :: "int \<Rightarrow> string" where
  "showInt i = (if i < 0 then CHR ''-'' # show_nat (nat (- i)) else show_nat (nat i))"

definition crlf :: string where
  "crlf = [CHR 0x0D, CHR 0x0A]"

section \<open>Transition systems\<close>

text \<open>
  The interface of every concurrent component: initial states, a step relation between
  states (one step is one critical section of the code), and an invariant that the
  initial states have and that each step keeps.
\<close>

inductive reachable :: "('s \<Rightarrow> bool) \<Rightarrow> ('s \<Rightarrow> 's \<Rightarrow> bool) \<Rightarrow> 's \<Rightarrow> bool"
  for init :: "'s \<Rightarrow> bool" and step :: "'s \<Rightarrow> 's \<Rightarrow> bool" where
  reachable_init: "init s \<Longrightarrow> reachable init step s"
| reachable_step: "reachable init step s \<Longrightarrow> step s t \<Longrightarrow> reachable init step t"

locale transition_system =
  fixes init :: "'s \<Rightarrow> bool"
    and step :: "'s \<Rightarrow> 's \<Rightarrow> bool"
    and inv :: "'s \<Rightarrow> bool"
  assumes init_inv: "init s \<Longrightarrow> inv s"
    and step_inv: "inv s \<Longrightarrow> step s t \<Longrightarrow> inv t"
begin

lemma reachable_inv: "reachable init step s \<Longrightarrow> inv s"
  by (induction rule: reachable.induct) (auto intro: init_inv step_inv)

lemma inv_steps: "step\<^sup>*\<^sup>* s t \<Longrightarrow> inv s \<Longrightarrow> inv t"
  by (induction rule: rtranclp_induct) (auto intro: step_inv)

lemma reachable_steps: "reachable init step s \<Longrightarrow> step\<^sup>*\<^sup>* s t \<Longrightarrow> reachable init step t"
  by (rotate_tac 1, induction rule: rtranclp_induct) (auto intro: reachable_step)

end

end
