(* ===== verification/Session.thy ===== *)
theory Session
  imports Prelude "HOL-Library.Multiset"
begin

text \<open>
  The on-demand stream lifecycle of \<^verbatim>\<open>internal/stream/session.go\<close>. Every method of
  \<^verbatim>\<open>Session\<close> is split where it releases \<^verbatim>\<open>s.mu\<close>: one definition per critical section,
  named after the method and the section. The concurrent system interleaves those
  sections: goroutines that are inside the \<^verbatim>\<open>onStart\<close> or \<^verbatim>\<open>onStop\<close> callback are kept in
  \<open>inflight\<close>, goroutines that wait on a \<^verbatim>\<open>stopDone\<close> channel in \<open>waiting\<close>, timers that were
  created by \<^verbatim>\<open>time.AfterFunc\<close> in \<open>armed\<close> until they expire and in \<open>fired\<close> from then until
  their callback gets the lock. The callbacks themselves are main.go's closures; here
  they return any error or none.
\<close>

section \<open>State\<close>

datatype SessionState = StateIdle | StateStarting | StateStreaming | StateStopping

fun SessionState_String :: "SessionState \<Rightarrow> string" where
  "SessionState_String StateIdle = ''idle''"
| "SessionState_String StateStarting = ''starting''"
| "SessionState_String StateStreaming = ''streaming''"
| "SessionState_String StateStopping = ''stopping''"

record Session =
  state :: SessionState
  clientCount :: int
  cameraName :: string
  sessionID :: bytes
  idleTimeout :: int
  stopTimer :: "nat option"
  stopDone :: "nat option"

definition NewSession :: "string \<Rightarrow> int \<Rightarrow> Session" where
  "NewSession name timeout =
     \<lparr>state = StateIdle, clientCount = 0, cameraName = name, sessionID = replicate 16 0,
      idleTimeout = timeout, stopTimer = None, stopDone = None\<rparr>"

section \<open>Critical sections\<close>

text \<open>\<^verbatim>\<open>ClientConnected\<close>, from taking the lock to the first return, wait or start.\<close>

datatype connectStep = Attached | AwaitStop "nat option" | RunStart

definition ClientConnected_enter :: "Session \<Rightarrow> Session \<times> connectStep" where
  "ClientConnected_enter s0 =
     (let s = s0\<lparr>stopTimer := None\<rparr> in
      case state s of
        StateStreaming \<Rightarrow> (s\<lparr>clientCount := clientCount s + 1\<rparr>, Attached)
      | StateStarting \<Rightarrow> (s\<lparr>clientCount := clientCount s + 1\<rparr>, Attached)
      | StateStopping \<Rightarrow> (s, AwaitStop (stopDone s))
      | StateIdle \<Rightarrow>
          (s\<lparr>clientCount := clientCount s + 1, state := StateStarting\<rparr>, RunStart))"

text \<open>The section after \<^verbatim>\<open>onStart\<close> returned; the result is (freshStart, error).\<close>

definition ClientConnected_started :: "go_error option \<Rightarrow> Session \<Rightarrow> Session \<times> bool result" where
  "ClientConnected_started err s =
     (case err of
        Some e \<Rightarrow> (s\<lparr>state := StateIdle, clientCount := clientCount s - 1\<rparr>, Inl (''start stream: '' @ e))
      | None \<Rightarrow> (s\<lparr>state := StateStreaming\<rparr>, Inr True))"

text \<open>\<^verbatim>\<open>stopLocked\<close> before and after the \<^verbatim>\<open>onStop\<close> callback; \<open>ch\<close> is the channel it makes.\<close>

definition stopLocked_begin :: "nat \<Rightarrow> Session \<Rightarrow> Session" where
  "stopLocked_begin ch s = s\<lparr>state := StateStopping, stopDone := Some ch\<rparr>"

definition stopLocked_end :: "go_error option \<Rightarrow> Session \<Rightarrow> Session \<times> unit result" where
  "stopLocked_end err s =
     (s\<lparr>state := StateIdle, stopDone := None\<rparr>,
      case err of Some e \<Rightarrow> Inl (''stop stream: '' @ e) | None \<Rightarrow> Inr ())"

text \<open>
  \<^verbatim>\<open>ClientDisconnected\<close> up to its return or to the callback; \<open>i\<close> identifies the timer or
  the channel it makes.
\<close>

datatype disconnectStep = Done | ArmTimer | RunStop

definition ClientDisconnected_enter :: "nat \<Rightarrow> Session \<Rightarrow> Session \<times> disconnectStep" where
  "ClientDisconnected_enter i s0 =
     (if clientCount s0 \<le> 0 then (s0, Done)
      else
        let s = s0\<lparr>clientCount := clientCount s0 - 1\<rparr> in
        if clientCount s > 0 then (s, Done)
        else if state s \<noteq> StateStreaming then (s, Done)
        else if idleTimeout s > 0 then (s\<lparr>stopTimer := Some i\<rparr>, ArmTimer)
        else (stopLocked_begin i s, RunStop))"

definition idleTimerFired_enter :: "nat \<Rightarrow> Session \<Rightarrow> Session \<times> disconnectStep" where
  "idleTimerFired_enter i s =
     (if clientCount s > 0 \<or> state s \<noteq> StateStreaming then (s\<lparr>stopTimer := None\<rparr>, Done)
      else (stopLocked_begin i (s\<lparr>stopTimer := None\<rparr>), RunStop))"

text \<open>\<^verbatim>\<open>Restart\<close>: before \<^verbatim>\<open>onStop\<close>, between the two callbacks, after \<^verbatim>\<open>onStart\<close>.\<close>

definition Restart_enter :: "nat \<Rightarrow> Session \<Rightarrow> Session \<times> disconnectStep" where
  "Restart_enter i s =
     (if state s \<noteq> StateStreaming then (s, Done)
      else (s\<lparr>stopTimer := None, state := StateStopping, stopDone := Some i\<rparr>, RunStop))"

definition Restart_stopped :: "Session \<Rightarrow> Session" where
  "Restart_stopped s = s\<lparr>stopDone := None, state := StateStarting\<rparr>"

definition Restart_started :: "int \<Rightarrow> go_error option \<Rightarrow> Session \<Rightarrow> Session \<times> unit result" where
  "Restart_started clients err s =
     (case err of
        Some e \<Rightarrow> (s\<lparr>state := StateIdle, clientCount := 0\<rparr>, Inl (''onStart during restart: '' @ e))
      | None \<Rightarrow> (s\<lparr>state := StateStreaming, clientCount := clients\<rparr>, Inr ()))"

definition Shutdown_enter :: "nat \<Rightarrow> Session \<Rightarrow> Session \<times> disconnectStep" where
  "Shutdown_enter i s0 =
     (let s = s0\<lparr>stopTimer := None\<rparr> in
      if state s \<noteq> StateStreaming then (s, Done)
      else (stopLocked_begin i (s\<lparr>clientCount := 0\<rparr>), RunStop))"

definition State :: "Session \<Rightarrow> SessionState" where "State s = state s"
definition SetSessionID :: "bytes \<Rightarrow> Session \<Rightarrow> Session" where "SetSessionID i s = s\<lparr>sessionID := i\<rparr>"
definition GetSessionID :: "Session \<Rightarrow> bytes" where "GetSessionID s = sessionID s"

lemmas [step_defs] =
  ClientConnected_enter_def ClientConnected_started_def stopLocked_begin_def stopLocked_end_def
  ClientDisconnected_enter_def idleTimerFired_enter_def Restart_enter_def Restart_stopped_def
  Restart_started_def Shutdown_enter_def SetSessionID_def

section \<open>The concurrent system\<close>

datatype callback =
    InStart                       \<comment> \<open>onStart called by ClientConnected\<close>
  | InStop nat                    \<comment> \<open>onStop called by stopLocked with its channel\<close>
  | InRestartStop int nat         \<comment> \<open>onStop called by Restart: saved clients, channel\<close>
  | InRestartStart int            \<comment> \<open>onStart called by Restart: saved clients\<close>

record world =
  ses :: Session
  inflight :: "callback multiset"
  waiting :: "nat option multiset"
  closed :: "nat set"
  armed :: "nat set"
  fired :: "nat set"
  fresh :: nat

definition world_init :: "world \<Rightarrow> bool" where
  "world_init w \<longleftrightarrow> (\<exists>name timeout.
     w = \<lparr>ses = NewSession name timeout, inflight = {#}, waiting = {#},
          closed = {}, armed = {}, fired = {}, fresh = 0\<rparr>)"

text \<open>\<^verbatim>\<open>stopTimer.Stop()\<close>: an expired timer is not affected, its callback still runs.\<close>

definition cancelTimer :: "world \<Rightarrow> world" where
  "cancelTimer w = w\<lparr>armed := armed w - set_option (stopTimer (ses w))\<rparr>"

definition w_connect :: "world \<Rightarrow> world" where
  "w_connect w =
     (let (s, r) = ClientConnected_enter (ses w); w1 = (cancelTimer w)\<lparr>ses := s\<rparr> in
      case r of
        Attached \<Rightarrow> w1
      | AwaitStop c \<Rightarrow> w1\<lparr>waiting := add_mset c (waiting w1)\<rparr>
      | RunStart \<Rightarrow> w1\<lparr>inflight := add_mset InStart (inflight w1)\<rparr>)"

definition w_started :: "go_error option \<Rightarrow> world \<Rightarrow> world" where
  "w_started err w = w\<lparr>ses := fst (ClientConnected_started err (ses w)),
     inflight := inflight w - {#InStart#}\<rparr>"

text \<open>The outcome of a section that may have armed a timer or entered \<^verbatim>\<open>onStop\<close>.\<close>

definition w_after :: "callback \<Rightarrow> Session \<times> disconnectStep \<Rightarrow> world \<Rightarrow> world" where
  "w_after cb sr w =
     (case snd sr of
        Done \<Rightarrow> w\<lparr>ses := fst sr\<rparr>
      | ArmTimer \<Rightarrow> w\<lparr>ses := fst sr, armed := insert (fresh w) (armed w), fresh := Suc (fresh w)\<rparr>
      | RunStop \<Rightarrow> w\<lparr>ses := fst sr, inflight := add_mset cb (inflight w), fresh := Suc (fresh w)\<rparr>)"

definition w_disconnect :: "world \<Rightarrow> world" where
  "w_disconnect w = w_after (InStop (fresh w)) (ClientDisconnected_enter (fresh w) (ses w)) w"

definition w_idle :: "nat \<Rightarrow> world \<Rightarrow> world" where
  "w_idle k w = w_after (InStop (fresh w)) (idleTimerFired_enter (fresh w) (ses w))
     (w\<lparr>fired := fired w - {k}\<rparr>)"

definition w_stopped :: "nat \<Rightarrow> go_error option \<Rightarrow> world \<Rightarrow> world" where
  "w_stopped ch err w = w\<lparr>ses := fst (stopLocked_end err (ses w)),
     inflight := inflight w - {#InStop ch#}, closed := insert ch (closed w)\<rparr>"

definition w_restart :: "world \<Rightarrow> world" where
  "w_restart w =
     w_after (InRestartStop (clientCount (ses w)) (fresh w)) (Restart_enter (fresh w) (ses w))
       (if state (ses w) = StateStreaming then cancelTimer w else w)"

definition w_restart_stopped :: "int \<Rightarrow> nat \<Rightarrow> world \<Rightarrow> world" where
  "w_restart_stopped n ch w = w\<lparr>ses := Restart_stopped (ses w),
     inflight := add_mset (InRestartStart n) (inflight w - {#InRestartStop n ch#}),
     closed := insert ch (closed w)\<rparr>"

definition w_restart_started :: "int \<Rightarrow> go_error option \<Rightarrow> world \<Rightarrow> world" where
  "w_restart_started n err w = w\<lparr>ses := fst (Restart_started n err (ses w)),
     inflight := inflight w - {#InRestartStart n#}\<rparr>"

definition w_shutdown :: "world \<Rightarrow> world" where
  "w_shutdown w = w_after (InStop (fresh w)) (Shutdown_enter (fresh w) (ses w)) (cancelTimer w)"

inductive sess_step :: "world \<Rightarrow> world \<Rightarrow> bool" where
  connect: "sess_step w (w_connect w)"
| retry: "c \<in># waiting w \<Longrightarrow> set_option c \<inter> closed w \<noteq> {} \<Longrightarrow>
    sess_step w (w_connect (w\<lparr>waiting := waiting w - {#c#}\<rparr>))"
| give_up: "c \<in># waiting w \<Longrightarrow> sess_step w (w\<lparr>waiting := waiting w - {#c#}\<rparr>)"
| started: "InStart \<in># inflight w \<Longrightarrow> sess_step w (w_started err w)"
| disconnect: "sess_step w (w_disconnect w)"
| stopped: "InStop ch \<in># inflight w \<Longrightarrow> sess_step w (w_stopped ch err w)"
| expire: "k \<in> armed w \<Longrightarrow> sess_step w (w\<lparr>armed := armed w - {k}, fired := insert k (fired w)\<rparr>)"
| idle: "k \<in> fired w \<Longrightarrow> sess_step w (w_idle k w)"
| restart: "sess_step w (w_restart w)"
| restart_stopped: "InRestartStop n ch \<in># inflight w \<Longrightarrow> sess_step w (w_restart_stopped n ch w)"
| restart_started: "InRestartStart n \<in># inflight w \<Longrightarrow> sess_step w (w_restart_started n err w)"
| shutdown: "sess_step w (w_shutdown w)"
| set_id: "sess_step w (w\<lparr>ses := SetSessionID i (ses w)\<rparr>)"

inductive_cases from_world: "sess_step w w'"

section \<open>Invariant\<close>

fun starts :: "callback \<Rightarrow> bool" where
  "starts InStart = True"
| "starts (InRestartStart n) = True"
| "starts (InStop ch) = False"
| "starts (InRestartStop n ch) = False"

fun stopsOn :: "callback \<Rightarrow> nat option" where
  "stopsOn (InStop ch) = Some ch"
| "stopsOn (InRestartStop n ch) = Some ch"
| "stopsOn InStart = None"
| "stopsOn (InRestartStart n) = None"

text \<open>The state names the one callback in flight, if there is one.\<close>

definition owner_ok :: "world \<Rightarrow> bool" where
  "owner_ok w \<longleftrightarrow>
     (case state (ses w) of
        StateIdle \<Rightarrow> inflight w = {#}
      | StateStreaming \<Rightarrow> inflight w = {#}
      | StateStarting \<Rightarrow> (\<exists>a. inflight w = {#a#} \<and> starts a)
      | StateStopping \<Rightarrow> (\<exists>a ch. inflight w = {#a#} \<and> stopsOn a = Some ch
          \<and> stopDone (ses w) = Some ch \<and> ch \<notin> closed w \<and> ch < fresh w))"

definition chan_ok :: "world \<Rightarrow> bool" where
  "chan_ok w \<longleftrightarrow> (state (ses w) \<noteq> StateStopping \<longrightarrow> stopDone (ses w) = None)
     \<and> (\<forall>k \<in> closed w. k < fresh w)"

text \<open>No waiter is lost: its channel is closed, or the stop in flight will close it.\<close>

definition wait_ok :: "world \<Rightarrow> bool" where
  "wait_ok w \<longleftrightarrow> (\<forall>c \<in># waiting w. \<exists>k. c = Some k \<and> (k \<in> closed w \<or> stopDone (ses w) = Some k))"

text \<open>A timer is only registered while the stream runs without a client.\<close>

definition timer_ok :: "world \<Rightarrow> bool" where
  "timer_ok w \<longleftrightarrow> (stopTimer (ses w) \<noteq> None \<longrightarrow> state (ses w) = StateStreaming \<and> clientCount (ses w) = 0)"

definition session_inv :: "world \<Rightarrow> bool" where
  "session_inv w \<longleftrightarrow> owner_ok w \<and> chan_ok w \<and> wait_ok w \<and> timer_ok w"

lemmas session_inv_defs = session_inv_def owner_ok_def chan_ok_def wait_ok_def timer_ok_def

lemmas world_defs =
  w_connect_def w_started_def w_after_def w_disconnect_def w_idle_def w_stopped_def w_restart_def
  w_restart_stopped_def w_restart_started_def w_shutdown_def cancelTimer_def

lemma starts_iff: "starts a \<longleftrightarrow> a = InStart \<or> (\<exists>n. a = InRestartStart n)"
  by (cases a) auto

lemma stopsOn_iff: "stopsOn a = Some ch \<longleftrightarrow> a = InStop ch \<or> (\<exists>n. a = InRestartStop n ch)"
  by (cases a) auto

lemma inv_init: "world_init w \<Longrightarrow> session_inv w"
  by (auto simp: world_init_def session_inv_defs NewSession_def)

lemma inv_connect: "session_inv w \<Longrightarrow> session_inv (w_connect w)"
  by (cases "state (ses w)")
     (auto simp: session_inv_defs world_defs step_defs stopsOn_iff Let_def)

lemma inv_unwait: "session_inv w \<Longrightarrow> session_inv (w\<lparr>waiting := waiting w - {#c#}\<rparr>)"
  by (auto simp: session_inv_defs dest: in_diffD split: SessionState.splits)

lemma inv_started: "session_inv w \<Longrightarrow> InStart \<in># inflight w \<Longrightarrow> session_inv (w_started err w)"
  by (cases "state (ses w)"; cases err)
     (auto simp: session_inv_defs world_defs step_defs starts_iff stopsOn_iff)

lemma inv_disconnect: "session_inv w \<Longrightarrow> session_inv (w_disconnect w)"
  by (cases "state (ses w)")
     (auto simp: session_inv_defs world_defs step_defs Let_def less_Suc_eq)

lemma inv_idle: "session_inv w \<Longrightarrow> session_inv (w_idle k w)"
  by (cases "state (ses w)")
     (auto simp: session_inv_defs world_defs step_defs less_Suc_eq)

lemma inv_stopped: "session_inv w \<Longrightarrow> InStop ch \<in># inflight w \<Longrightarrow> session_inv (w_stopped ch err w)"
  by (cases "state (ses w)"; cases err)
     (auto simp: session_inv_defs world_defs step_defs starts_iff stopsOn_iff)

lemma inv_restart: "session_inv w \<Longrightarrow> session_inv (w_restart w)"
  by (cases "state (ses w)")
     (auto simp: session_inv_defs world_defs step_defs less_Suc_eq)

lemma inv_restart_stopped:
  "session_inv w \<Longrightarrow> InRestartStop n ch \<in># inflight w \<Longrightarrow> session_inv (w_restart_stopped n ch w)"
  by (cases "state (ses w)")
     (auto simp: session_inv_defs world_defs step_defs starts_iff stopsOn_iff)

lemma inv_restart_started:
  "session_inv w \<Longrightarrow> InRestartStart n \<in># inflight w \<Longrightarrow> session_inv (w_restart_started n err w)"
  by (cases "state (ses w)"; cases err)
     (auto simp: session_inv_defs world_defs step_defs starts_iff stopsOn_iff)

lemma inv_shutdown: "session_inv w \<Longrightarrow> session_inv (w_shutdown w)"
  by (cases "state (ses w)")
     (auto simp: session_inv_defs world_defs step_defs Let_def less_Suc_eq)

lemma inv_frame:
  "session_inv w \<Longrightarrow> session_inv (w\<lparr>armed := A, fired := F\<rparr>)"
  "session_inv w \<Longrightarrow> session_inv (w\<lparr>ses := SetSessionID i (ses w)\<rparr>)"
  by (auto simp: session_inv_defs step_defs split: SessionState.splits)

interpretation session: transition_system world_init sess_step session_inv
proof unfold_locales
  show "session_inv w" if "world_init w" for w
    using that by (rule inv_init)
  show "session_inv w'" if "session_inv w" "sess_step w w'" for w w'
    using that(2,1)
    by cases (auto intro: inv_connect inv_unwait inv_started inv_disconnect inv_stopped inv_idle
        inv_restart inv_restart_stopped inv_restart_started inv_shutdown inv_frame)
qed

section \<open>Whole calls, one after the other\<close>

text \<open>
  When no two calls overlap, a method runs all its sections in a row. \<open>i\<close> is the identity
  of the timer or channel the call may make, the options are what the callbacks return.
\<close>

datatype call =
    Connect "go_error option"
  | Disconnect nat "go_error option"
  | TimerFires nat "go_error option"
  | RestartCall nat "go_error option" "go_error option"
  | ShutdownCall nat "go_error option"

definition finishStop :: "go_error option \<Rightarrow> Session \<times> disconnectStep \<Rightarrow> Session" where
  "finishStop err sr = (case snd sr of RunStop \<Rightarrow> fst (stopLocked_end err (fst sr)) | _ \<Rightarrow> fst sr)"

fun runCall :: "call \<Rightarrow> Session \<Rightarrow> Session" where
  "runCall (Connect err) s =
     (case ClientConnected_enter s of
        (s', RunStart) \<Rightarrow> fst (ClientConnected_started err s')
      | (s', _) \<Rightarrow> s')"
| "runCall (Disconnect i err) s = finishStop err (ClientDisconnected_enter i s)"
| "runCall (TimerFires i err) s = finishStop err (idleTimerFired_enter i s)"
| "runCall (RestartCall i stopErr startErr) s =
     (case Restart_enter i s of
        (s', RunStop) \<Rightarrow> fst (Restart_started (clientCount s) startErr (Restart_stopped s'))
      | (s', _) \<Rightarrow> s')"
| "runCall (ShutdownCall i err) s = finishStop err (Shutdown_enter i s)"

definition runCalls :: "call list \<Rightarrow> Session \<Rightarrow> Session" where
  "runCalls cs s = fold runCall cs s"

text \<open>A restart while the stream is kept warm for no client.\<close>

fun warmRestart :: "call \<Rightarrow> Session \<Rightarrow> bool" where
  "warmRestart (RestartCall i a b) s = (state s = StateStreaming \<and> clientCount s = 0)"
| "warmRestart _ s = False"

fun noWarmRestart :: "call list \<Rightarrow> Session \<Rightarrow> bool" where
  "noWarmRestart [] s = True"
| "noWarmRestart (c # cs) s = (\<not> warmRestart c s \<and> noWarmRestart cs (runCall c s))"

text \<open>Between calls the stream runs exactly while there is a client or a pending stop.\<close>

definition settled :: "Session \<Rightarrow> bool" where
  "settled s \<longleftrightarrow>
     clientCount s \<ge> 0 \<and> stopDone s = None
     \<and> (state s = StateIdle \<and> clientCount s = 0 \<and> stopTimer s = None
        \<or> state s = StateStreaming \<and> (clientCount s > 0 \<longleftrightarrow> stopTimer s = None))"

lemma settled_runCall:
  assumes "settled s" "\<not> warmRestart c s"
  shows "settled (runCall c s)"
  using assms
  by (cases c; cases "state s")
     (auto simp: settled_def step_defs finishStop_def Let_def split: option.splits)

lemma settled_runCalls:
  "settled s \<Longrightarrow> noWarmRestart cs s \<Longrightarrow> settled (runCalls cs s)"
  unfolding runCalls_def
  by (induction cs arbitrary: s) (auto intro: settled_runCall)

lemma settled_NewSession: "settled (NewSession name timeout)"
  by (simp add: settled_def NewSession_def)

section \<open>Properties\<close>

definition world0 :: "int \<Rightarrow> world" where
  "world0 timeout = \<lparr>ses = NewSession ''cam'' timeout, inflight = {#}, waiting = {#},
     closed = {}, armed = {}, fired = {}, fresh = 0\<rparr>"

lemma reachable_world0 [intro]: "reachable world_init sess_step (world0 timeout)"
  by (rule reachable_init) (auto simp: world_init_def world0_def)

lemmas run_step = reachable_step [of world_init sess_step, OF _ sess_step.connect]
  reachable_step [of world_init sess_step, OF _ sess_step.disconnect]
  reachable_step [of world_init sess_step, OF _ sess_step.started]

lemmas run_simps = world0_def NewSession_def world_defs step_defs

text \<open>
  C5. In every interleaving of the session's critical sections at most one lifecycle
  callback is running, and the state tells which: none in \<^verbatim>\<open>StateIdle\<close> and
  \<^verbatim>\<open>StateStreaming\<close>, an \<^verbatim>\<open>onStart\<close> in \<^verbatim>\<open>StateStarting\<close>, an \<^verbatim>\<open>onStop\<close> in \<^verbatim>\<open>StateStopping\<close>. So
  the camera is never started twice, nor started while it is being stopped.
\<close>

theorem session_callbacks_exclusive:
  assumes "reachable world_init sess_step w"
  shows "size (inflight w) \<le> 1
     \<and> (state (ses w) \<in> {StateIdle, StateStreaming} \<longleftrightarrow> inflight w = {#})
     \<and> (state (ses w) = StateStarting \<longleftrightarrow> (\<exists>a. inflight w = {#a#} \<and> starts a))
     \<and> (state (ses w) = StateStopping \<longleftrightarrow> (\<exists>a ch. inflight w = {#a#} \<and> stopsOn a = Some ch))"
  using session.reachable_inv [OF assms]
  by (cases "state (ses w)") (auto simp: session_inv_defs starts_iff stopsOn_iff)

theorem session_callbacks_exclusive_witness:
  "reachable world_init sess_step (w_connect (world0 0))
   \<and> state (ses (w_connect (world0 0))) = StateStarting
   \<and> size (inflight (w_connect (world0 0))) \<le> 1"
proof -
  have r: "reachable world_init sess_step (w_connect (world0 0))"
    by (rule run_step(1)) (rule reachable_world0)
  then show ?thesis
    using session_callbacks_exclusive [OF r] by (simp add: run_simps)
qed

text \<open>
  C24. No client that waits for a stop is forgotten and no channel is closed twice: the
  channel of every waiting goroutine is closed or belongs to the stop in flight, and the
  channel of a stop in flight is still open, so the \<^verbatim>\<open>close\<close> at its end cannot panic.
\<close>

theorem session_no_lost_wakeup:
  assumes "reachable world_init sess_step w"
  shows "(\<forall>c \<in># waiting w. \<exists>k. c = Some k \<and> (k \<in> closed w \<or> (\<exists>a \<in># inflight w. stopsOn a = Some k)))
     \<and> (\<forall>a \<in># inflight w. \<forall>ch. stopsOn a = Some ch \<longrightarrow> ch \<notin> closed w)"
proof -
  have inv: "session_inv w" by (rule session.reachable_inv [OF assms])
  show ?thesis
  proof (cases "state (ses w)")
    case StateStopping
    then show ?thesis using inv by (fastforce simp: session_inv_defs)
  qed (use inv in \<open>auto simp: session_inv_defs starts_iff\<close>)
qed

lemma reachable_stopping:
  "reachable world_init sess_step
     (w_connect (w_disconnect (w_started None (w_connect (world0 0)))))"
  by (intro run_step reachable_world0)
     (simp add: run_simps)

theorem session_no_lost_wakeup_witness:
  "\<exists>c \<in># waiting (w_connect (w_disconnect (w_started None (w_connect (world0 0))))).
     \<exists>k. c = Some k \<and> (\<exists>a \<in># inflight (w_connect (w_disconnect (w_started None (w_connect (world0 0))))).
       stopsOn a = Some k)"
  using session_no_lost_wakeup [OF reachable_stopping] by (simp add: run_simps)

text \<open>
  A stop always gets finished: in every reachable state that is stopping there is a
  next step (the return of the one callback in flight, whatever it returns) after which
  the session is idle or starting again and the channel of every waiting client is closed,
  so each of them can retry.
\<close>

lemma session_stop_completes:
  assumes "reachable world_init sess_step w" "state (ses w) = StateStopping"
  shows "\<exists>w'. sess_step w w' \<and> state (ses w') \<in> {StateIdle, StateStarting}
     \<and> (\<forall>c \<in># waiting w'. set_option c \<inter> closed w' \<noteq> {})"
proof -
  have inv: "session_inv w" by (rule session.reachable_inv [OF assms(1)])
  then obtain a ch where a: "inflight w = {#a#}" "stopsOn a = Some ch" "stopDone (ses w) = Some ch"
    using assms(2) by (auto simp: session_inv_defs)
  have wait: "\<forall>c \<in># waiting w. set_option c \<inter> insert ch (closed w) \<noteq> {}"
    using inv a(3) by (fastforce simp: session_inv_defs)
  from a(2) consider "a = InStop ch" | n where "a = InRestartStop n ch"
    by (auto simp: stopsOn_iff)
  then show ?thesis
  proof cases
    case 1
    then show ?thesis
      using a wait sess_step.stopped [of ch w None]
      by (intro exI [of _ "w_stopped ch None w"]) (simp add: world_defs step_defs)
  next
    case 2
    then show ?thesis
      using a wait sess_step.restart_stopped [of n ch w]
      by (intro exI [of _ "w_restart_stopped n ch w"]) (simp add: world_defs step_defs)
  qed
qed

lemma session_stop_completes_witness:
  "\<exists>w'. sess_step (w_connect (w_disconnect (w_started None (w_connect (world0 0))))) w'
     \<and> state (ses w') \<in> {StateIdle, StateStarting}
     \<and> (\<forall>c \<in># waiting w'. set_option c \<inter> closed w' \<noteq> {})"
  by (rule session_stop_completes [OF reachable_stopping]) (simp add: run_simps)

text \<open>
  A client that returns during the warm window keeps the stream: it attaches without
  starting the camera, the pending stop is cancelled, and a timer callback that had already
  expired finds the client and leaves the stream running.
\<close>

lemma session_warm_reconnect:
  assumes "reachable world_init sess_step w" "stopTimer (ses w) = Some k"
  shows "state (ses (w_connect w)) = StateStreaming \<and> inflight (w_connect w) = {#}
     \<and> clientCount (ses (w_connect w)) = 1 \<and> k \<notin> armed (w_connect w)
     \<and> (\<forall>j. state (ses (w_idle j (w_connect w))) = StateStreaming
          \<and> inflight (w_idle j (w_connect w)) = {#})"
proof -
  have "session_inv w" by (rule session.reachable_inv [OF assms(1)])
  then have "state (ses w) = StateStreaming" "clientCount (ses w) = 0" "inflight w = {#}"
    using assms(2) by (auto simp: session_inv_defs)
  then show ?thesis using assms(2) by (simp add: world_defs step_defs)
qed

lemma reachable_warm:
  "reachable world_init sess_step (w_disconnect (w_started None (w_connect (world0 5))))"
  by (intro run_step reachable_world0)
     (simp add: run_simps)

lemma session_warm_reconnect_witness:
  "stopTimer (ses (w_disconnect (w_started None (w_connect (world0 5))))) = Some 0
   \<and> state (ses (w_connect (w_disconnect (w_started None (w_connect (world0 5)))))) = StateStreaming"
proof -
  have t: "stopTimer (ses (w_disconnect (w_started None (w_connect (world0 5))))) = Some 0"
    by (simp add: run_simps)
  then show ?thesis using session_warm_reconnect [OF reachable_warm t] by blast
qed



text \<open>
  The proviso of the previous property is needed: a restart in the warm window (a
  recovered camera, a stalled stream) cancels the pending stop and does not schedule it
  again, so the stream is left running with no client and nothing that would stop it.
\<close>

lemma session_warm_restart_leaks:
  "let s = runCalls [Connect None, Disconnect 0 None, RestartCall 1 None None] (NewSession name 5) in
   state s = StateStreaming \<and> clientCount s = 0 \<and> stopTimer s = None"
  by (simp add: Let_def runCalls_def NewSession_def step_defs finishStop_def)

text \<open>
  Overlapping calls can lose a client: a client that leaves while \<^verbatim>\<open>onStart\<close> is running
  is subtracted when it leaves and again when the start fails, so the count reaches \<open>-1\<close>.
  The next client then streams at count 0, and when it disconnects the stream is not
  stopped.
\<close>

lemma session_count_underflow:
  "\<exists>w. reachable world_init sess_step w \<and> clientCount (ses w) = -1 \<and> state (ses w) = StateIdle
     \<and> (let w' = w_disconnect (w_started None (w_connect w)) in
        state (ses w') = StateStreaming \<and> clientCount (ses w') = 0
        \<and> stopTimer (ses w') = None \<and> inflight w' = {#})"
proof (intro exI conjI)
  let ?w = "w_started (Some ''no route'') (w_disconnect (w_connect (world0 5)))"
  show "reachable world_init sess_step ?w"
    by (intro run_step reachable_world0)
       (simp add: run_simps)
  show "clientCount (ses ?w) = -1" "state (ses ?w) = StateIdle"
    by (simp_all add: run_simps)
  show "let w' = w_disconnect (w_started None (w_connect ?w)) in
        state (ses w') = StateStreaming \<and> clientCount (ses w') = 0
        \<and> stopTimer (ses w') = None \<and> inflight w' = {#}"
    by (simp add: run_simps Let_def)
qed

end
