(* ===== verification/Rtp.thy ===== *)
theory Rtp
  imports Prelude
begin

text \<open>
  RTP packets as the media path sees them (the fields of pion's \<^verbatim>\<open>rtp.Header\<close> that the
  code reads or writes, and the payload), and the H.264 payload classification of
  \<^verbatim>\<open>internal/stream/proxy.go\<close>. Packets are values, so the deep copy of \<^verbatim>\<open>clonePacket\<close> and the
  recycling of \<^verbatim>\<open>packetPool\<close> are invisible: the code copies every packet it keeps.
\<close>

record packet =
  marker :: bool
  payloadType :: byte
  seqNum :: u16
  timestamp :: u32
  ssrc :: u32
  payload :: bytes

definition clonePacket :: "packet \<Rightarrow> packet" where
  "clonePacket pkt = pkt"

definition naluType :: "byte \<Rightarrow> byte" where
  "naluType b = b AND 0x1F"

definition isIDRFrame :: "packet list \<Rightarrow> bool" where
  "isIDRFrame frameBuf =
     (case frameBuf of
        [] \<Rightarrow> False
      | p # _ \<Rightarrow> (case payload p of [] \<Rightarrow> False | b # _ \<Rightarrow> naluType b = 24))"

definition isFrameStart :: "bytes \<Rightarrow> bool" where
  "isFrameStart bs =
     (case bs of
        [] \<Rightarrow> False
      | b # rest \<Rightarrow>
          (if 1 \<le> naluType b \<and> naluType b \<le> 24 then True
           else if naluType b = 28 then (case rest of [] \<Rightarrow> False | c # _ \<Rightarrow> c AND 0x80 \<noteq> 0)
           else False))"

section \<open>Runs of sequence numbers\<close>

fun consecutive :: "u16 \<Rightarrow> packet list \<Rightarrow> bool" where
  "consecutive n [] = True"
| "consecutive n (p # ps) = (seqNum p = n \<and> consecutive (n + 1) ps)"

lemma consecutive_append [simp]:
  "consecutive n (xs @ ys) \<longleftrightarrow> consecutive n xs \<and> consecutive (n + of_nat (length xs)) ys"
  by (induction xs arbitrary: n) (auto simp: algebra_simps)

lemma consecutive_nth:
  "consecutive n ps \<longleftrightarrow> (\<forall>i < length ps. seqNum (ps ! i) = n + of_nat i)"
proof (induction ps arbitrary: n)
  case (Cons p ps)
  have "(\<forall>i < length (p # ps). seqNum ((p # ps) ! i) = n + of_nat i)
      \<longleftrightarrow> seqNum p = n \<and> (\<forall>i < length ps. seqNum (ps ! i) = (n + 1) + of_nat i)"
    by (auto simp: less_Suc_eq_0_disj algebra_simps)
  then show ?case using Cons.IH by simp
qed simp

text \<open>A run that starts wherever its first packet starts.\<close>

definition seqRun :: "packet list \<Rightarrow> bool" where
  "seqRun ps \<longleftrightarrow> ps = [] \<or> consecutive (seqNum (hd ps)) ps"

lemma seqRun_Nil [simp]: "seqRun []" and seqRun_single [simp]: "seqRun [p]"
  by (simp_all add: seqRun_def)

lemma consecutive_last:
  "consecutive n ps \<Longrightarrow> ps \<noteq> [] \<Longrightarrow> n + of_nat (length ps) = seqNum (last ps) + 1"
  by (cases ps rule: rev_cases) auto

lemma seqRun_snoc:
  assumes "seqRun ps" "ps \<noteq> [] \<Longrightarrow> seqNum p = seqNum (last ps) + 1"
  shows "seqRun (ps @ [p])"
  using assms consecutive_last [of "seqNum (hd ps)" ps] by (cases "ps = []") (auto simp: seqRun_def)

text \<open>Packets of one timestamp.\<close>

definition sameTS :: "u32 \<Rightarrow> packet list \<Rightarrow> bool" where
  "sameTS t ps \<longleftrightarrow> (\<forall>q\<in>set ps. timestamp q = t)"

lemma sameTS_simps [simp]:
  "sameTS t []" "sameTS t (p # ps) \<longleftrightarrow> timestamp p = t \<and> sameTS t ps"
  "sameTS t (ps @ qs) \<longleftrightarrow> sameTS t ps \<and> sameTS t qs"
  by (auto simp: sameTS_def)

lemma sameTS_hd: "sameTS t ps \<Longrightarrow> ps \<noteq> [] \<Longrightarrow> timestamp (hd ps) = t"
  by (cases ps) auto

section \<open>Components that number packets\<close>

text \<open>A run of a component that consumes events and emits a list at each.\<close>

fun runAll :: "('e \<Rightarrow> 's \<Rightarrow> 's \<times> 'a list) \<Rightarrow> 'e list \<Rightarrow> 's \<Rightarrow> 's \<times> 'a list" where
  "runAll act [] s = (s, [])"
| "runAll act (e # es) s = (let (s1, o1) = act e s; (s2, o2) = runAll act es s1 in (s2, o1 @ o2))"

lemma runAll_append:
  "runAll act (es @ fs) s = (let (s1, o1) = runAll act es s; (s2, o2) = runAll act fs s1 in (s2, o1 @ o2))"
  by (induction es arbitrary: s) (auto simp: Let_def split: prod.splits)

lemma runAll_inv:
  assumes "runAll act es s = (s', out)" "P s" "\<And>e s s' out. P s \<Longrightarrow> act e s = (s', out) \<Longrightarrow> P s'"
  shows "P s'"
  using assms(1,2) by (induction es arbitrary: s out) (auto simp: Let_def split: prod.splits dest: assms(3))

lemma distinct_consecutive:
  assumes "consecutive n ps" "length ps \<le> 65536"
  shows "distinct (map seqNum ps)"
proof -
  have "i = j" if "i < length ps" "j < length ps" "seqNum (ps ! i) = seqNum (ps ! j)" for i j
  proof -
    have "(of_nat i :: u16) = of_nat j" using that assms(1) by (simp add: consecutive_nth)
    moreover have "i < 2 ^ LENGTH(16)" "j < 2 ^ LENGTH(16)" using that assms(2) by simp_all
    ultimately show ?thesis by (metis unat_of_nat_small)
  qed
  then show ?thesis by (auto simp: distinct_conv_nth)
qed

text \<open>
  The contract of everything that stamps a sequence number from a counter: each step emits a
  consecutive run from the counter and moves the counter past it. Then the whole output,
  whatever the order of the steps, is one consecutive run.
\<close>

locale sequencer =
  fixes nextSeq :: "'s \<Rightarrow> u16"
    and act :: "'e \<Rightarrow> 's \<Rightarrow> 's \<times> packet list"
  assumes act_numbers:
    "act e s = (s', out) \<Longrightarrow> consecutive (nextSeq s) out \<and> nextSeq s' = nextSeq s + of_nat (length out)"
begin

lemma run_numbers:
  "runAll act es s = (s', out) \<Longrightarrow> consecutive (nextSeq s) out \<and> nextSeq s' = nextSeq s + of_nat (length out)"
proof (induction es arbitrary: s out)
  case (Cons e es)
  obtain s1 o1 where a: "act e s = (s1, o1)" by fastforce
  obtain o2 where r: "runAll act es s1 = (s', o2)" "out = o1 @ o2"
    using Cons.prems a by (auto simp: Let_def split: prod.splits)
  show ?case using act_numbers [OF a] Cons.IH [OF r(1)] r(2) by simp
qed simp

lemma run_distinct:
  assumes "runAll act es s = (s', out)"
  shows "distinct (map seqNum (take 65536 out))"
proof -
  have "consecutive (nextSeq s) (take 65536 out @ drop 65536 out)" using run_numbers [OF assms] by simp
  then have "consecutive (nextSeq s) (take 65536 out)" unfolding consecutive_append by blast
  then show ?thesis using distinct_consecutive by force
qed

end

end
