(* ===== verification/Net_IP.thy ===== *)
theory Net_IP
  imports Prelude
begin

text \<open>
  The part of Go's \<^verbatim>\<open>net\<close> package the code uses on addresses: an IP is its byte slice (empty
  for \<^verbatim>\<open>nil\<close>), \<^verbatim>\<open>To4\<close>, \<^verbatim>\<open>Equal\<close>, \<^verbatim>\<open>String\<close> and \<^verbatim>\<open>ParseIP\<close>. The media path only opens
  \<^verbatim>\<open>udp4\<close> sockets, so the dotted-decimal form is spelled out; the text form of a genuine IPv6
  address is an argument of \<^verbatim>\<open>String\<close> and \<^verbatim>\<open>ParseIP\<close>.
\<close>

type_synonym ip = bytes

definition v4InV6Prefix :: bytes where
  "v4InV6Prefix = replicate 10 0 @ [0xFF, 0xFF]"

definition To4 :: "ip \<Rightarrow> ip option" where
  "To4 a =
     (if length a = 4 then Some a
      else if length a = 16 \<and> take 12 a = v4InV6Prefix then Some (drop 12 a)
      else None)"

definition IP_Equal :: "ip \<Rightarrow> ip \<Rightarrow> bool" where
  "IP_Equal a x =
     (if length a = length x then a = x
      else if length a = 4 \<and> length x = 16 then take 12 x = v4InV6Prefix \<and> a = drop 12 x
      else if length a = 16 \<and> length x = 4 then take 12 a = v4InV6Prefix \<and> drop 12 a = x
      else False)"

definition hexDigit :: "nat \<Rightarrow> char" where
  "hexDigit n = (if n < 10 then char_of (48 + n) else char_of (87 + n))"

definition hexString :: "bytes \<Rightarrow> string" where
  "hexString bs = concat (map (\<lambda>b. [hexDigit (unat b div 16), hexDigit (unat b mod 16)]) bs)"

definition showIPv4 :: "ip \<Rightarrow> string" where
  "showIPv4 a = show_nat (unat (a ! 0)) @ ''.'' @ show_nat (unat (a ! 1)) @ ''.''
     @ show_nat (unat (a ! 2)) @ ''.'' @ show_nat (unat (a ! 3))"

definition IP_String :: "(ip \<Rightarrow> string) \<Rightarrow> ip \<Rightarrow> string" where
  "IP_String showIPv6 a =
     (if a = [] then ''<nil>''
      else if length a \<noteq> 4 \<and> length a \<noteq> 16 then ''?'' @ hexString a
      else case To4 a of Some p4 \<Rightarrow> showIPv4 p4 | None \<Rightarrow> showIPv6 a)"

definition digitVal :: "char \<Rightarrow> nat option" where
  "digitVal c = (let n = of_char c :: nat in if 48 \<le> n \<and> n \<le> 57 then Some (n - 48) else None)"

text \<open>Fields so far, value and digit count of the field being read.\<close>

fun parseIPv4 :: "string \<Rightarrow> nat \<Rightarrow> nat \<Rightarrow> bytes \<Rightarrow> ip option" where
  "parseIPv4 [] v d acc = (if length acc = 3 \<and> d > 0 then Some (acc @ [of_nat v]) else None)"
| "parseIPv4 (c # cs) v d acc =
     (case digitVal c of
        Some n \<Rightarrow>
          (if d = 1 \<and> v = 0 then None
           else if v * 10 + n > 255 then None
           else parseIPv4 cs (v * 10 + n) (Suc d) acc)
      | None \<Rightarrow>
          (if c = CHR ''.'' then
             (if d = 0 \<or> cs = [] \<or> length acc = 3 then None else parseIPv4 cs 0 0 (acc @ [of_nat v]))
           else None))"

definition ParseIP :: "(string \<Rightarrow> ip option) \<Rightarrow> string \<Rightarrow> ip option" where
  "ParseIP parseIPv6 s =
     (case dropWhile (\<lambda>c. c \<notin> {CHR ''.'', CHR '':'', CHR ''%''}) s of
        c # _ \<Rightarrow>
          (if c = CHR ''.'' then map_option ((@) v4InV6Prefix) (parseIPv4 s 0 0 [])
           else if c = CHR '':'' then parseIPv6 s
           else None)
      | [] \<Rightarrow> None)"

section \<open>Parsing what was printed\<close>

lemma length_v4InV6Prefix [simp]: "length v4InV6Prefix = 12"
  by (simp add: v4InV6Prefix_def)

lemma digitVal_digit [simp]: "n < 10 \<Longrightarrow> digitVal (char_of (48 + n)) = Some n"
  by (simp add: digitVal_def)

lemma digitVal_dot [simp]: "digitVal CHR ''.'' = None"
  by (simp add: digitVal_def)

lemma parse_digit:
  assumes "n < 10" "\<not> (d = 1 \<and> v = 0)" "v * 10 + n \<le> 255"
  shows "parseIPv4 (char_of (48 + n) # cs) v d acc = parseIPv4 cs (v * 10 + n) (Suc d) acc"
  using assms by auto

lemma parse_field:
  assumes "n < 256"
  shows "\<exists>d > 0. parseIPv4 (show_nat n @ cs) 0 0 acc = parseIPv4 cs n d acc"
proof -
  have small: "show_nat k = [char_of (48 + k)]" if "k < 10" for k
    using that by (simp add: show_nat.simps)
  consider "n < 10" | "10 \<le> n" "n < 100" | "100 \<le> n" by linarith
  then show ?thesis
  proof cases
    case 1
    then show ?thesis
      using parse_digit [of n 0 0 cs acc] by (intro exI [of _ 1]) (simp add: small)
  next
    case 2
    then have "show_nat n = [char_of (48 + n div 10), char_of (48 + n mod 10)]"
      by (subst show_nat.simps) (simp add: small)
    then show ?thesis
      using 2 parse_digit [of "n div 10" 0 0 "char_of (48 + n mod 10) # cs" acc]
        parse_digit [of "n mod 10" 1 "n div 10" cs acc]
      by (intro exI [of _ 2]) (auto simp: numeral_2_eq_2)
  next
    case 3
    have mid: "show_nat (n div 10) = [char_of (48 + n div 10 div 10), char_of (48 + n div 10 mod 10)]"
      using 3 assms by (subst show_nat.simps) (simp add: small)
    have "show_nat n = [char_of (48 + n div 10 div 10), char_of (48 + n div 10 mod 10), char_of (48 + n mod 10)]"
      using 3 by (subst show_nat.simps) (simp add: mid)
    then show ?thesis
      using 3 assms
        parse_digit [of "n div 10 div 10" 0 0 "char_of (48 + n div 10 mod 10) # char_of (48 + n mod 10) # cs" acc]
        parse_digit [of "n div 10 mod 10" 1 "n div 10 div 10" "char_of (48 + n mod 10) # cs" acc]
        parse_digit [of "n mod 10" 2 "n div 10" cs acc]
      by (intro exI [of _ 3]) (auto simp: numeral_2_eq_2 numeral_3_eq_3)
  qed
qed

lemma parse_dot:
  assumes "d > 0" "cs \<noteq> []" "length acc < 3"
  shows "parseIPv4 (CHR ''.'' # cs) v d acc = parseIPv4 cs 0 0 (acc @ [of_nat v])"
  using assms by simp

lemma show_nat_ne [simp]: "show_nat n \<noteq> []"
  by (subst show_nat.simps) simp

lemma parse_field_dot:
  assumes "cs \<noteq> []" "length acc < 3"
  shows "parseIPv4 (show_nat (unat b) @ CHR ''.'' # cs) 0 0 acc = parseIPv4 cs 0 0 (acc @ [b :: byte])"
proof -
  obtain d where "d > 0"
    "parseIPv4 (show_nat (unat b) @ CHR ''.'' # cs) 0 0 acc = parseIPv4 (CHR ''.'' # cs) (unat b) d acc"
    using parse_field [OF unat_byte_less] by blast
  then show ?thesis using assms by (simp add: parse_dot)
qed

lemma parse_last_field: "length acc = 3 \<Longrightarrow> parseIPv4 (show_nat (unat (b :: byte))) 0 0 acc = Some (acc @ [b])"
  using parse_field [of "unat b" "[]" acc] by auto

lemma parse_showIPv4:
  assumes "length a = 4"
  shows "parseIPv4 (showIPv4 a) 0 0 [] = Some a"
proof -
  obtain w x y z where a: "a = [w, x, y, z]"
    using assms by (auto simp: length_Suc_conv numeral_eq_Suc)
  show ?thesis
    by (simp add: a showIPv4_def parse_field_dot parse_last_field)
qed

lemma char_in_show_nat: "c \<in> set (show_nat n) \<Longrightarrow> digitVal c \<noteq> None"
proof (induction n rule: show_nat.induct)
  case (1 n)
  show ?case
  proof (cases "n < 10")
    case True
    with "1.prems" show ?thesis by (simp add: show_nat.simps [of n])
  next
    case False
    with "1.prems" have "c \<in> set (show_nat (n div 10)) \<or> c = char_of (48 + n mod 10)"
      by (auto simp: show_nat.simps [of n])
    then show ?thesis using "1.IH" [OF False] by auto
  qed
qed

lemma digit_not_sep: "digitVal c \<noteq> None \<Longrightarrow> c \<notin> {CHR ''.'', CHR '':'', CHR ''%''}"
  by (auto simp: digitVal_def)

lemma ParseIP_String:
  assumes "length a = 4"
  shows "ParseIP p6 (IP_String s6 a) = Some (v4InV6Prefix @ a)"
proof -
  have str: "IP_String s6 a = showIPv4 a"
    using assms by (auto simp: IP_String_def To4_def)
  have "\<forall>c \<in> set (show_nat (unat (a ! 0))). c \<notin> {CHR ''.'', CHR '':'', CHR ''%''}"
    using char_in_show_nat digit_not_sep by blast
  then have "\<exists>r. dropWhile (\<lambda>c. c \<notin> {CHR ''.'', CHR '':'', CHR ''%''}) (showIPv4 a) = CHR ''.'' # r"
    unfolding showIPv4_def by (subst dropWhile_append2) auto
  then show ?thesis
    by (auto simp: ParseIP_def str parse_showIPv4 [OF assms])
qed

lemma To4_mapped [simp]: "length a = 4 \<Longrightarrow> To4 (v4InV6Prefix @ a) = Some a"
  by (simp add: To4_def)

lemma IP_Equal_mapped [simp]: "length a = 4 \<Longrightarrow> IP_Equal a (v4InV6Prefix @ a)"
  by (simp add: IP_Equal_def)

end
