(* ===== verification/Srtp_Proxy.thy ===== *)
theory Srtp_Proxy
  imports Rtp Net_IP
begin

text \<open>
  The SRTP side of \<^verbatim>\<open>internal/stream/proxy.go\<close>: opening and closing the sockets, the video
  read loop with its frame assembly, the audio read loop, the RTCP keepalive with the stall
  watchdog, and the audio return. One iteration of a loop is one function of what the
  iteration reads (a datagram and its source, a clock reading, a tick). Everything the
  loop does to the outside is listed as actions in order.

  The pion libraries (SRTP contexts, RTP and RTCP marshalling) are the record \<open>pion\<close> of
  functions; a context is a value that every call returns updated. Log output and its
  rate limiting are left out.
\<close>

record 'c pion =
  createContext :: "bytes \<Rightarrow> bytes \<Rightarrow> 'c result"
  decryptRTP :: "'c \<Rightarrow> bytes \<Rightarrow> bytes result \<times> 'c"
  decryptRTCP :: "'c \<Rightarrow> bytes \<Rightarrow> (byte \<times> bytes) result \<times> 'c"
  encryptRTP :: "'c \<Rightarrow> bytes \<Rightarrow> bytes result \<times> 'c"
  encryptRTCP :: "'c \<Rightarrow> bytes \<Rightarrow> bytes result \<times> 'c"
  unmarshalRTP :: "bytes \<Rightarrow> packet result"
  marshalRTP :: "packet \<Rightarrow> bytes result"
  marshalRR :: "u32 \<Rightarrow> u32 \<Rightarrow> u32 \<Rightarrow> bytes result"

type_synonym udp_addr = "ip \<times> int"

record VideoStats =
  Packets :: u64
  Drops :: u64
  DroppedFrames :: u64
  Interval :: int

datatype action =
    Decrypted packet            \<comment> \<open>a packet entered frame assembly\<close>
  | ForwardFrame "packet list"  \<comment> \<open>onVideoRTP called for each packet in order\<close>
  | CacheFrame "packet list"    \<comment> \<open>onIDRRTP called for each packet in order\<close>
  | ForwardAudio packet         \<comment> \<open>onAudioRTP\<close>
  | EmitStats VideoStats        \<comment> \<open>onVideoStats\<close>
  | SendVideo bytes             \<comment> \<open>videoConn.WriteToUDP to the camera\<close>
  | SendAudio bytes             \<comment> \<open>audioConn.WriteToUDP to the camera\<close>
  | VideoStall                  \<comment> \<open>go onVideoStall()\<close>

record 'c SRTPProxy =
  videoConn :: "int option"
  audioConn :: "int option"
  videoDecryptCtx :: "'c option"
  audioDecryptCtx :: "'c option"
  srtcpEncryptCtx :: "'c option"
  audioReturnCtx :: "'c option"
  cameraAddr :: "udp_addr option"
  cameraAudioAddr :: "udp_addr option"
  controllerSSRC :: u32
  cameraVideoSSRC :: u32
  audioReturnSSRC :: u32
  audioReturnSeq :: u16
  audioReturnTS :: u32
  highestVideoSeq :: u32
  onVideoRTP :: bool
  onAudioRTP :: bool
  onIDRRTP :: bool
  onVideoStats :: bool
  onVideoStall :: bool
  videoStallTimeout :: int
  lastVideoNanos :: int
  stopChClosed :: bool
  loopsRunning :: nat

record SRTPConfig =
  VideoKey :: bytes
  VideoSalt :: bytes
  AudioKey :: bytes
  AudioSalt :: bytes
  CfgVideoSSRC :: u32
  CfgAudioSSRC :: u32
  CameraAddr :: "udp_addr option"
  CameraAudioAddr :: "udp_addr option"
  CtlVideoKey :: bytes
  CtlVideoSalt :: bytes
  CtlVideoSSRC :: u32
  CtlAudioKey :: bytes
  CtlAudioSalt :: bytes
  CtlAudioSSRC :: u32

section \<open>Set-up and tear-down\<close>

definition NewSRTPProxy :: "'c SRTPProxy" where
  "NewSRTPProxy =
     \<lparr>videoConn = None, audioConn = None, videoDecryptCtx = None, audioDecryptCtx = None,
      srtcpEncryptCtx = None, audioReturnCtx = None, cameraAddr = None, cameraAudioAddr = None,
      controllerSSRC = 0, cameraVideoSSRC = 0, audioReturnSSRC = 0, audioReturnSeq = 0,
      audioReturnTS = 0, highestVideoSeq = 0, onVideoRTP = False, onAudioRTP = False,
      onIDRRTP = False, onVideoStats = False, onVideoStall = False, videoStallTimeout = 0,
      lastVideoNanos = 0, stopChClosed = False, loopsRunning = 0\<rparr>"

definition SetCallbacks :: "'c SRTPProxy \<Rightarrow> 'c SRTPProxy" where
  "SetCallbacks p = p\<lparr>onVideoRTP := True, onAudioRTP := True\<rparr>"

definition SetIDRCallback :: "'c SRTPProxy \<Rightarrow> 'c SRTPProxy" where
  "SetIDRCallback p = p\<lparr>onIDRRTP := True\<rparr>"

definition SetVideoStallCallback :: "int \<Rightarrow> 'c SRTPProxy \<Rightarrow> 'c SRTPProxy" where
  "SetVideoStallCallback t p = p\<lparr>videoStallTimeout := t, onVideoStall := True\<rparr>"

definition SetVideoStatsCallback :: "'c SRTPProxy \<Rightarrow> 'c SRTPProxy" where
  "SetVideoStatsCallback p = p\<lparr>onVideoStats := True\<rparr>"

text \<open>The two \<^verbatim>\<open>ListenUDP\<close> calls give an error or the port bound.\<close>

definition OpenPorts ::
  "int result \<Rightarrow> int result \<Rightarrow> 'c SRTPProxy \<Rightarrow> 'c SRTPProxy \<times> (int \<times> int) result" where
  "OpenPorts listenVideo listenAudio p0 =
     (let p = p0\<lparr>stopChClosed := False, lastVideoNanos := 0\<rparr> in
      case listenVideo of
        Inl e \<Rightarrow> (p\<lparr>videoConn := None\<rparr>, Inl (''listen video UDP: '' @ e))
      | Inr vp \<Rightarrow>
          (case listenAudio of
             Inl e \<Rightarrow> (p\<lparr>videoConn := None, audioConn := None\<rparr>, Inl (''listen audio UDP: '' @ e))
           | Inr ap \<Rightarrow> (p\<lparr>videoConn := Some vp, audioConn := Some ap\<rparr>, Inr (vp, ap))))"

text \<open>\<^verbatim>\<open>Close\<close>: the first call closes the stop channel and the sockets and waits for the loops.\<close>

definition Close :: "'c SRTPProxy \<Rightarrow> 'c SRTPProxy" where
  "Close p = (if stopChClosed p then p else p\<lparr>stopChClosed := True, loopsRunning := 0\<rparr>)"

definition optionalContext :: "'c pion \<Rightarrow> bytes \<Rightarrow> bytes \<Rightarrow> 'c option \<Rightarrow> 'c option" where
  "optionalContext lib key salt old =
     (if key \<noteq> [] then (case createContext lib key salt of Inl _ \<Rightarrow> None | Inr c \<Rightarrow> Some c) else old)"

definition Start :: "'c pion \<Rightarrow> SRTPConfig \<Rightarrow> 'c SRTPProxy \<Rightarrow> 'c SRTPProxy \<times> unit result" where
  "Start lib cfg p =
     (if videoConn p = None \<or> audioConn p = None
      then (p, Inl ''ports not opened; call OpenPorts first'')
      else case createContext lib (VideoKey cfg) (VideoSalt cfg) of
        Inl e \<Rightarrow> (Close (p\<lparr>videoDecryptCtx := None\<rparr>), Inl (''create video decrypt context: '' @ e))
      | Inr vctx \<Rightarrow>
          (case createContext lib (AudioKey cfg) (AudioSalt cfg) of
             Inl e \<Rightarrow> (Close (p\<lparr>videoDecryptCtx := Some vctx, audioDecryptCtx := None\<rparr>),
                       Inl (''create audio decrypt context: '' @ e))
           | Inr actx \<Rightarrow>
               (p\<lparr>videoDecryptCtx := Some vctx, audioDecryptCtx := Some actx,
                  srtcpEncryptCtx := optionalContext lib (CtlVideoKey cfg) (CtlVideoSalt cfg) (srtcpEncryptCtx p),
                  audioReturnCtx := optionalContext lib (CtlAudioKey cfg) (CtlAudioSalt cfg) (audioReturnCtx p),
                  cameraAddr := CameraAddr cfg, cameraAudioAddr := CameraAudioAddr cfg,
                  controllerSSRC := CtlVideoSSRC cfg, cameraVideoSSRC := CfgVideoSSRC cfg,
                  audioReturnSSRC := CtlAudioSSRC cfg, loopsRunning := loopsRunning p + 4\<rparr>, Inr ())))"

section \<open>RTCP and audio return\<close>

definition sendRTCPKeepalive :: "'c pion \<Rightarrow> 'c SRTPProxy \<Rightarrow> 'c SRTPProxy \<times> action list" where
  "sendRTCPKeepalive lib p =
     (case srtcpEncryptCtx p of
        None \<Rightarrow> (p, [])
      | Some ctx \<Rightarrow>
          (case marshalRR lib (controllerSSRC p) (cameraVideoSSRC p) (highestVideoSeq p) of
             Inl _ \<Rightarrow> (p, [])
           | Inr rr \<Rightarrow>
               (case encryptRTCP lib ctx rr of
                  (Inl _, ctx') \<Rightarrow> (p\<lparr>srtcpEncryptCtx := Some ctx'\<rparr>, [])
                | (Inr enc, ctx') \<Rightarrow>
                    (p\<lparr>srtcpEncryptCtx := Some ctx'\<rparr>,
                     if cameraAddr p = None then [] else [SendVideo enc]))))"

abbreviation TypeSenderReport :: byte where "TypeSenderReport \<equiv> 200"

definition handleVideoRTCP :: "'c pion \<Rightarrow> bytes \<Rightarrow> 'c \<Rightarrow> 'c SRTPProxy \<Rightarrow> 'c SRTPProxy \<times> action list" where
  "handleVideoRTCP lib data ctx p =
     (case decryptRTCP lib ctx data of
        (Inl _, ctx') \<Rightarrow> (p\<lparr>videoDecryptCtx := Some ctx'\<rparr>, [])
      | (Inr (typ, _), ctx') \<Rightarrow>
          let p' = p\<lparr>videoDecryptCtx := Some ctx'\<rparr> in
          if typ = TypeSenderReport then sendRTCPKeepalive lib p' else (p', []))"

text \<open>
  One tick of \<^verbatim>\<open>rtcpKeepaliveLoop\<close>: the report, then the stall check; \<open>now\<close> is the clock and
  \<open>stallFired\<close> the loop's flag.
\<close>

definition keepaliveTick :: "'c pion \<Rightarrow> int \<Rightarrow> 'c SRTPProxy \<times> bool \<Rightarrow> ('c SRTPProxy \<times> bool) \<times> action list" where
  "keepaliveTick lib now ps =
     (let (p, stallFired) = ps; (p', acts) = sendRTCPKeepalive lib p in
      if \<not> stallFired \<and> videoStallTimeout p' > 0 \<and> onVideoStall p' \<and> lastVideoNanos p' \<noteq> 0
         \<and> now - lastVideoNanos p' > videoStallTimeout p'
      then ((p', True), acts @ [VideoStall])
      else ((p', stallFired), acts))"

definition sendAudioReturn :: "'c pion \<Rightarrow> bytes \<Rightarrow> 'c SRTPProxy \<Rightarrow> 'c SRTPProxy \<times> action list" where
  "sendAudioReturn lib data p =
     (let pkt = \<lparr>marker = False, payloadType = 110, seqNum = audioReturnSeq p,
                 timestamp = audioReturnTS p, ssrc = audioReturnSSRC p, payload = data\<rparr>;
          p1 = p\<lparr>audioReturnSeq := audioReturnSeq p + 1, audioReturnTS := audioReturnTS p + 320\<rparr>
      in case marshalRTP lib pkt of
           Inl _ \<Rightarrow> (p1, [])
         | Inr raw \<Rightarrow>
             (case audioReturnCtx p1 of
                None \<Rightarrow> (p1, [])
              | Some ctx \<Rightarrow>
                  (case encryptRTP lib ctx raw of
                     (Inl _, ctx') \<Rightarrow> (p1\<lparr>audioReturnCtx := Some ctx'\<rparr>, [])
                   | (Inr enc, ctx') \<Rightarrow> (p1\<lparr>audioReturnCtx := Some ctx'\<rparr>, [SendAudio enc]))))"

section \<open>The video read loop\<close>

text \<open>The local variables of \<^verbatim>\<open>readVideoLoop\<close>.\<close>

record vloop =
  videoCount :: u64
  rtcpCount :: u64
  dropCount :: u64
  decryptErrors :: u64
  droppedFrames :: u64
  gapEvents :: u64
  foreignDrops :: u64
  lastSeq :: u16
  lastFrameTS :: u32
  frameGapped :: bool
  frameBuf :: "packet list"
  lastLogTime :: int
  lastStatVideo :: u64
  lastStatDrops :: u64
  lastStatDroppedFrames :: u64

definition vloop0 :: "int \<Rightarrow> vloop" where
  "vloop0 now =
     \<lparr>videoCount = 0, rtcpCount = 0, dropCount = 0, decryptErrors = 0, droppedFrames = 0,
      gapEvents = 0, foreignDrops = 0, lastSeq = 0, lastFrameTS = 0, frameGapped = False,
      frameBuf = [], lastLogTime = now, lastStatVideo = 0, lastStatDrops = 0,
      lastStatDroppedFrames = 0\<rparr>"

text \<open>Missing packets between the last and this one, with 16-bit wrap-around.\<close>

definition seqGap :: "u16 \<Rightarrow> u16 \<Rightarrow> int" where
  "seqGap got expected =
     (let gap = uint got - uint expected in if gap < 0 then gap + 65536 else gap)"

definition trackSequence :: "packet \<Rightarrow> 'c SRTPProxy \<times> vloop \<Rightarrow> 'c SRTPProxy \<times> vloop" where
  "trackSequence pkt pl =
     (let (p, l) = pl;
          (p1, l1) =
            (if videoCount l = 1
             then (p\<lparr>cameraVideoSSRC := ssrc pkt\<rparr>, l\<lparr>lastFrameTS := timestamp pkt\<rparr>)
             else if seqNum pkt \<noteq> lastSeq l + 1
             then (p, l\<lparr>dropCount := dropCount l + of_int (seqGap (seqNum pkt) (lastSeq l + 1)),
                        frameGapped := True, gapEvents := gapEvents l + 1\<rparr>)
             else (p, l));
          l2 = l1\<lparr>lastSeq := seqNum pkt\<rparr>
      in (if ucast (seqNum pkt) > highestVideoSeq p1 \<or> videoCount l2 = 1
          then p1\<lparr>highestVideoSeq := ucast (seqNum pkt)\<rparr> else p1, l2))"

text \<open>Forward a complete frame; cache a gapped IDR frame; count a gapped frame as dropped.\<close>

definition flushFrame :: "'c SRTPProxy \<Rightarrow> vloop \<Rightarrow> vloop \<times> action list" where
  "flushFrame p l =
     (l\<lparr>frameBuf := [], droppedFrames := droppedFrames l + (if frameGapped l then 1 else 0)\<rparr>,
      if \<not> frameGapped l \<and> onVideoRTP p then [ForwardFrame (frameBuf l)]
      else if frameGapped l
      then (if onIDRRTP p \<and> isIDRFrame (frameBuf l) then [CacheFrame (frameBuf l)] else [])
      else [])"

definition frameBoundary :: "packet \<Rightarrow> 'c SRTPProxy \<Rightarrow> vloop \<Rightarrow> vloop \<times> action list" where
  "frameBoundary pkt p l =
     (if timestamp pkt \<noteq> lastFrameTS l \<and> frameBuf l \<noteq> []
      then let (l', acts) = flushFrame p l in
           (if frameGapped l'
            then l'\<lparr>frameGapped := (payload pkt \<noteq> [] \<and> \<not> isFrameStart (payload pkt))\<rparr> else l', acts)
      else (l, []))"

definition bufferPacket :: "packet \<Rightarrow> vloop \<Rightarrow> vloop" where
  "bufferPacket pkt l0 =
     (let l = l0\<lparr>lastFrameTS := timestamp pkt\<rparr>;
          l' = (if length (frameBuf l) \<ge> 300 then l\<lparr>frameBuf := [], frameGapped := True\<rparr> else l)
      in l'\<lparr>frameBuf := frameBuf l' @ [pkt]\<rparr>)"

definition emitStats :: "int \<Rightarrow> 'c SRTPProxy \<Rightarrow> vloop \<Rightarrow> vloop \<times> action list" where
  "emitStats now p l =
     (if now - lastLogTime l \<ge> 1000000000
      then (l\<lparr>lastStatVideo := videoCount l, lastStatDrops := dropCount l,
              lastStatDroppedFrames := droppedFrames l, lastLogTime := now\<rparr>,
            if onVideoStats p
            then [EmitStats \<lparr>Packets = videoCount l - lastStatVideo l,
                    Drops = dropCount l - lastStatDrops l,
                    DroppedFrames = droppedFrames l - lastStatDroppedFrames l,
                    Interval = now - lastLogTime l\<rparr>]
            else [])
      else (l, []))"

definition frameEnd :: "packet \<Rightarrow> 'c SRTPProxy \<Rightarrow> vloop \<Rightarrow> vloop \<times> action list" where
  "frameEnd pkt p l =
     (if marker pkt
      then let (l', acts) = flushFrame p l in (l'\<lparr>frameGapped := False\<rparr>, acts)
      else (l, []))"

text \<open>
  What the loop does with a decrypted packet; \<open>now\<close> and \<open>now2\<close> are the two clock readings.
\<close>

definition videoPacket ::
  "int \<Rightarrow> int \<Rightarrow> packet \<Rightarrow> 'c SRTPProxy \<times> vloop \<Rightarrow> ('c SRTPProxy \<times> vloop) \<times> action list" where
  "videoPacket now now2 pkt pl =
     (let (p0, l0) = pl;
          (p, l1) = trackSequence pkt (p0\<lparr>lastVideoNanos := now\<rparr>, l0\<lparr>videoCount := videoCount l0 + 1\<rparr>);
          (l2, a2) = frameBoundary pkt p l1;
          (l3, a3) = emitStats now2 p (bufferPacket pkt l2);
          (l4, a4) = frameEnd pkt p l3
      in ((p, l4), Decrypted pkt # a2 @ a3 @ a4))"

definition isRTCPByte :: "byte \<Rightarrow> bool" where
  "isRTCPByte b \<longleftrightarrow> 200 \<le> b \<and> b \<le> 207"

definition foreign :: "'c SRTPProxy \<Rightarrow> ip \<Rightarrow> bool" where
  "foreign p src = (case cameraAddr p of None \<Rightarrow> False | Some (cam, _) \<Rightarrow> \<not> IP_Equal src cam)"

text \<open>
  One datagram: source filter, length check, RFC 5761 demultiplexing, decryption, parsing.
  \<^verbatim>\<open>ReadFromUDP\<close> fills a buffer of 2048 bytes and drops the rest of a longer datagram. \<open>Start\<close> sets
  both decryption contexts before it starts a loop, so the branches without one are not reached.
\<close>

record datagram =
  source :: ip
  raw :: bytes
  recvTime :: int
  logTime :: int

definition readVideo ::
  "'c pion \<Rightarrow> datagram \<Rightarrow> 'c SRTPProxy \<times> vloop \<Rightarrow> ('c SRTPProxy \<times> vloop) \<times> action list" where
  "readVideo lib d pl =
     (let (p, l) = pl; buf = take 2048 (raw d) in
      if foreign p (source d) then ((p, l\<lparr>foreignDrops := foreignDrops l + 1\<rparr>), [])
      else if length buf < 2 then ((p, l), [])
      else case videoDecryptCtx p of
        None \<Rightarrow> ((p, l), [])
      | Some ctx \<Rightarrow>
          if isRTCPByte (buf ! 1)
          then let (p', acts) = handleVideoRTCP lib buf ctx p in ((p', l\<lparr>rtcpCount := rtcpCount l + 1\<rparr>), acts)
          else (case decryptRTP lib ctx buf of
                  (Inl _, ctx') \<Rightarrow>
                    ((p\<lparr>videoDecryptCtx := Some ctx'\<rparr>, l\<lparr>decryptErrors := decryptErrors l + 1\<rparr>), [])
                | (Inr dec, ctx') \<Rightarrow>
                    (case unmarshalRTP lib dec of
                       Inl _ \<Rightarrow> ((p\<lparr>videoDecryptCtx := Some ctx'\<rparr>, l), [])
                     | Inr pkt \<Rightarrow>
                         videoPacket (recvTime d) (logTime d) pkt (p\<lparr>videoDecryptCtx := Some ctx'\<rparr>, l))))"

fun readVideoLoop ::
  "'c pion \<Rightarrow> datagram list \<Rightarrow> 'c SRTPProxy \<times> vloop \<Rightarrow> ('c SRTPProxy \<times> vloop) \<times> action list" where
  "readVideoLoop lib [] pl = (pl, [])"
| "readVideoLoop lib (d # ds) pl =
     (let (pl1, a1) = readVideo lib d pl; (pl2, a2) = readVideoLoop lib ds pl1 in (pl2, a1 @ a2))"

section \<open>The audio read loop\<close>

definition readAudio :: "'c pion \<Rightarrow> datagram \<Rightarrow> 'c SRTPProxy \<Rightarrow> 'c SRTPProxy \<times> action list" where
  "readAudio lib d p =
     (let buf = take 2048 (raw d) in
      if foreign p (source d) then (p, [])
      else if length buf < 2 then (p, [])
      else if isRTCPByte (buf ! 1) then (p, [])
      else case audioDecryptCtx p of
        None \<Rightarrow> (p, [])
      | Some ctx \<Rightarrow>
          (case decryptRTP lib ctx buf of
             (Inl _, ctx') \<Rightarrow> (p\<lparr>audioDecryptCtx := Some ctx'\<rparr>, [])
           | (Inr dec, ctx') \<Rightarrow>
               (case unmarshalRTP lib dec of
                  Inl _ \<Rightarrow> (p\<lparr>audioDecryptCtx := Some ctx'\<rparr>, [])
                | Inr pkt \<Rightarrow> (p\<lparr>audioDecryptCtx := Some ctx'\<rparr>, if onAudioRTP p then [ForwardAudio pkt] else []))))"

end
