(* ===== verification/Frame_Assembly.thy ===== *)
theory Frame_Assembly
  imports Srtp_Proxy
begin

text \<open>
  What the video read loop guarantees: the frames it forwards are whole, a clean link loses
  nothing, and the loss counters count what was lost.
\<close>

section \<open>Frame assembly\<close>

fun forwarded :: "action list \<Rightarrow> packet list list" where
  "forwarded [] = []"
| "forwarded (ForwardFrame f # as) = f # forwarded as"
| "forwarded (_ # as) = forwarded as"

fun decrypted :: "action list \<Rightarrow> packet list" where
  "decrypted [] = []"
| "decrypted (Decrypted p # as) = p # decrypted as"
| "decrypted (_ # as) = decrypted as"

lemma forwarded_append [simp]: "forwarded (xs @ ys) = forwarded xs @ forwarded ys"
  by (induction xs rule: forwarded.induct) auto

lemma decrypted_append [simp]: "decrypted (xs @ ys) = decrypted xs @ decrypted ys"
  by (induction xs rule: decrypted.induct) auto

text \<open>
  A frame as the decoder needs it: some packets, at most the buffer's 300, of one
  timestamp, with no sequence number missing.
\<close>

definition wholeFrame :: "packet list \<Rightarrow> bool" where
  "wholeFrame f \<longleftrightarrow> f \<noteq> [] \<and> length f \<le> 300 \<and> seqRun f \<and> sameTS (timestamp (hd f)) f"

text \<open>The loop invariant, with the number \<open>n\<close> of packets seen so far.\<close>

definition loop_inv :: "nat \<Rightarrow> vloop \<Rightarrow> bool" where
  "loop_inv n l \<longleftrightarrow>
     unat (videoCount l) = n \<and> length (frameBuf l) \<le> 300
     \<and> sameTS (lastFrameTS l) (frameBuf l)
     \<and> (frameBuf l \<noteq> [] \<longrightarrow> seqNum (last (frameBuf l)) = lastSeq l)
     \<and> (\<not> frameGapped l \<longrightarrow> seqRun (frameBuf l))
     \<and> (n = 0 \<longrightarrow> frameBuf l = [] \<and> \<not> frameGapped l)"

lemma loop_inv_vloop0: "loop_inv 0 (vloop0 now)"
  by (simp add: loop_inv_def vloop0_def)

lemma unat_Suc_word: "unat (w :: 'a::len word) = n \<Longrightarrow> Suc n < 2 ^ LENGTH('a) \<Longrightarrow> unat (w + 1) = Suc n"
  by (metis add.commute of_nat_Suc of_nat_unat ucast_id unat_of_nat_small unsigned_of_nat)

text \<open>What the invariant says between the two halves of an iteration.\<close>

definition mid_inv :: "nat \<Rightarrow> packet \<Rightarrow> vloop \<Rightarrow> bool" where
  "mid_inv n pkt l \<longleftrightarrow>
     unat (videoCount l) = Suc n \<and> length (frameBuf l) \<le> 300 \<and> lastSeq l = seqNum pkt
     \<and> sameTS (lastFrameTS l) (frameBuf l)
     \<and> (\<not> frameGapped l \<longrightarrow> seqRun (frameBuf l) \<and> (frameBuf l \<noteq> [] \<longrightarrow> seqNum pkt = seqNum (last (frameBuf l)) + 1))"

lemma trackSequence_mid:
  assumes "loop_inv n l" "Suc n < 2 ^ 64"
    and "trackSequence pkt (p, l\<lparr>videoCount := videoCount l + 1\<rparr>) = (p', l')"
  shows "mid_inv n pkt l' \<and> frameBuf l' = frameBuf l"
proof -
  have v: "unat (videoCount l + 1) = Suc n"
    using assms unat_Suc_word [of "videoCount l" n] by (simp add: loop_inv_def)
  have one: "videoCount l + 1 = 1 \<longleftrightarrow> n = 0"
    using v by (metis One_nat_def Suc_inject unat_1 unsigned_word_eqI)
  show ?thesis
    using assms(1,3) v one
    by (auto simp: trackSequence_def loop_inv_def mid_inv_def Let_def split: if_splits)
qed

lemma frameBoundary_mid:
  assumes "mid_inv n pkt l" "frameBoundary pkt p l = (l', acts)"
  shows "mid_inv n pkt l' \<and> (\<forall>f\<in>set (forwarded acts). wholeFrame f) \<and> decrypted acts = []
    \<and> (frameBuf l' \<noteq> [] \<longrightarrow> timestamp pkt = lastFrameTS l')
    \<and> subseq (concat (forwarded acts) @ frameBuf l') (frameBuf l)"
  using assms
  by (auto simp: frameBoundary_def flushFrame_def mid_inv_def wholeFrame_def sameTS_hd Let_def split: if_splits)

lemma bufferPacket_inv:
  assumes "mid_inv n pkt l" "frameBuf l \<noteq> [] \<longrightarrow> timestamp pkt = lastFrameTS l"
  shows "loop_inv (Suc n) (bufferPacket pkt l) \<and> frameBuf (bufferPacket pkt l) \<noteq> []
    \<and> subseq (frameBuf (bufferPacket pkt l)) (frameBuf l @ [pkt])"
  using assms
  by (auto simp: bufferPacket_def mid_inv_def loop_inv_def Let_def subseq_append' intro!: seqRun_snoc)

lemma emitStats_frame:
  assumes "emitStats now p l = (l', acts)"
  shows "frameBuf l' = frameBuf l" "loop_inv n l' = loop_inv n l" "forwarded acts = []" "decrypted acts = []"
    "frameGapped l' = frameGapped l"
proof -
  have "loop_inv n (l\<lparr>lastStatVideo := a, lastStatDrops := b, lastStatDroppedFrames := c, lastLogTime := t\<rparr>)
      = loop_inv n l" for a b c t by (simp add: loop_inv_def)
  then show "loop_inv n l' = loop_inv n l" using assms by (auto simp: emitStats_def split: if_splits)
  show "frameBuf l' = frameBuf l" "forwarded acts = []" "decrypted acts = []" "frameGapped l' = frameGapped l"
    using assms by (auto simp: emitStats_def split: if_splits)
qed

lemma frameEnd_inv:
  assumes "loop_inv (Suc n) l" "frameBuf l \<noteq> []" "frameEnd pkt p l = (l', acts)"
  shows "loop_inv (Suc n) l' \<and> (\<forall>f\<in>set (forwarded acts). wholeFrame f) \<and> decrypted acts = []
    \<and> subseq (concat (forwarded acts) @ frameBuf l') (frameBuf l)"
  using assms
  by (auto simp: frameEnd_def flushFrame_def loop_inv_def wholeFrame_def sameTS_hd Let_def split: if_splits)

text \<open>The parts of an iteration.\<close>

lemma videoPacketE:
  assumes "videoPacket now now2 pkt (p, l) = ((p', l'), acts)"
  obtains l1 l2 l3 a2 a3 a4 where
    "trackSequence pkt (p\<lparr>lastVideoNanos := now\<rparr>, l\<lparr>videoCount := videoCount l + 1\<rparr>) = (p', l1)"
    "frameBoundary pkt p' l1 = (l2, a2)" "emitStats now2 p' (bufferPacket pkt l2) = (l3, a3)"
    "frameEnd pkt p' l3 = (l', a4)" "acts = Decrypted pkt # a2 @ a3 @ a4"
  using assms that by (auto simp: videoPacket_def Let_def split: prod.splits)

lemma videoPacket_decrypted:
  assumes vp: "videoPacket now now2 pkt (p, l) = ((p', l'), acts)"
  shows "decrypted acts = [pkt]"
proof -
  from vp obtain l1 l2 l3 a2 a3 a4 where
    b: "frameBoundary pkt p' l1 = (l2, a2)" and e: "emitStats now2 p' (bufferPacket pkt l2) = (l3, a3)"
    and f: "frameEnd pkt p' l3 = (l', a4)" and out: "acts = Decrypted pkt # a2 @ a3 @ a4"
    by (rule videoPacketE)
  have "decrypted a2 = []" using b by (auto simp: frameBoundary_def flushFrame_def Let_def split: if_splits)
  moreover have "decrypted a3 = []" using e by (auto simp: emitStats_def split: if_splits)
  moreover have "decrypted a4 = []" using f by (auto simp: frameEnd_def flushFrame_def Let_def split: if_splits)
  ultimately show ?thesis using out by simp
qed

lemma videoPacket_inv:
  assumes inv: "loop_inv n l" and n: "Suc n < 2 ^ 64"
    and vp: "videoPacket now now2 pkt (p, l) = ((p', l'), acts)"
  shows "loop_inv (Suc n) l' \<and> (\<forall>f\<in>set (forwarded acts). wholeFrame f) \<and> decrypted acts = [pkt]
    \<and> subseq (concat (forwarded acts) @ frameBuf l') (frameBuf l @ [pkt])"
proof -
  from vp obtain l1 l2 l3 a2 a3 a4 where
    t: "trackSequence pkt (p\<lparr>lastVideoNanos := now\<rparr>, l\<lparr>videoCount := videoCount l + 1\<rparr>) = (p', l1)"
    and b: "frameBoundary pkt p' l1 = (l2, a2)" and e: "emitStats now2 p' (bufferPacket pkt l2) = (l3, a3)"
    and f: "frameEnd pkt p' l3 = (l', a4)" and out: "acts = Decrypted pkt # a2 @ a3 @ a4"
    by (rule videoPacketE)
  note T = trackSequence_mid [OF inv n t]
  note B = frameBoundary_mid [OF conjunct1 [OF T] b]
  have "frameBuf l2 \<noteq> [] \<longrightarrow> timestamp pkt = lastFrameTS l2" using B by blast
  note P = bufferPacket_inv [OF conjunct1 [OF B] this]
  note E = emitStats_frame [OF e]
  have "loop_inv (Suc n) l3" "frameBuf l3 \<noteq> []" using E(1) E(2) [of "Suc n"] P by simp_all
  note F = frameEnd_inv [OF this f]
  have "subseq (concat (forwarded a4) @ frameBuf l') (frameBuf l2 @ [pkt])"
    using F P E(1) subseq_order.order_trans by metis
  then have "subseq (concat (forwarded a2) @ concat (forwarded a4) @ frameBuf l')
      (concat (forwarded a2) @ frameBuf l2 @ [pkt])"
    by (simp add: subseq_append')
  moreover have "subseq ((concat (forwarded a2) @ frameBuf l2) @ [pkt]) (frameBuf l @ [pkt])"
    using B T list_emb_append_mono [of "(=)" _ _ "[pkt]" "[pkt]"] by (metis subseq_order.order_refl)
  ultimately have "subseq (concat (forwarded a2) @ concat (forwarded a4) @ frameBuf l') (frameBuf l @ [pkt])"
    using subseq_order.order_trans by (metis append_assoc)
  then show ?thesis using out B E F by auto
qed

text \<open>
  A datagram either reaches frame assembly as one packet or leaves the assembly alone: the
  two outcomes every property of the loop is proved from.
\<close>

definition sameAssembly :: "vloop \<Rightarrow> vloop \<Rightarrow> bool" where
  "sameAssembly l l' \<longleftrightarrow>
     l'\<lparr>rtcpCount := 0, decryptErrors := 0, foreignDrops := 0\<rparr>
       = l\<lparr>rtcpCount := 0, decryptErrors := 0, foreignDrops := 0\<rparr>"

lemma sameAssembly_fields:
  assumes "sameAssembly l l'"
  shows "frameBuf l' = frameBuf l" "loop_inv n l' = loop_inv n l" "dropCount l' = dropCount l"
    "lastSeq l' = lastSeq l" "lastLogTime l' = lastLogTime l" "lastStatVideo l' = lastStatVideo l"
    "lastStatDrops l' = lastStatDrops l" "lastStatDroppedFrames l' = lastStatDroppedFrames l"
    "videoCount l' = videoCount l" "frameGapped l' = frameGapped l" "lastFrameTS l' = lastFrameTS l"
    "droppedFrames l' = droppedFrames l"
  using assms by (cases l; cases l'; auto simp: sameAssembly_def loop_inv_def)+

definition sameHooks :: "'c SRTPProxy \<Rightarrow> 'c SRTPProxy \<Rightarrow> bool" where
  "sameHooks p p' \<longleftrightarrow>
     onVideoRTP p' = onVideoRTP p \<and> onIDRRTP p' = onIDRRTP p \<and> onVideoStats p' = onVideoStats p
     \<and> onVideoStall p' = onVideoStall p \<and> videoStallTimeout p' = videoStallTimeout p
     \<and> cameraAddr p' = cameraAddr p \<and> onAudioRTP p' = onAudioRTP p
     \<and> videoConn p' = videoConn p \<and> audioConn p' = audioConn p \<and> stopChClosed p' = stopChClosed p
     \<and> loopsRunning p' = loopsRunning p"

lemma sameHooks_refl [simp]: "sameHooks p p"
  by (simp add: sameHooks_def)

lemma sameHooks_trans: "sameHooks p q \<Longrightarrow> sameHooks q r \<Longrightarrow> sameHooks p r"
  by (simp add: sameHooks_def)

lemma sendRTCPKeepalive_hooks:
  "sendRTCPKeepalive lib p = (p', acts) \<Longrightarrow> sameHooks p p' \<and> set acts \<subseteq> range SendVideo
     \<and> lastVideoNanos p' = lastVideoNanos p"
  by (auto simp: sendRTCPKeepalive_def sameHooks_def split: option.splits sum.splits prod.splits if_splits)

lemma handleVideoRTCP_hooks:
  "handleVideoRTCP lib data ctx p = (p', acts) \<Longrightarrow> sameHooks p p' \<and> set acts \<subseteq> range SendVideo
     \<and> lastVideoNanos p' = lastVideoNanos p"
  by (auto simp: handleVideoRTCP_def sameHooks_def Let_def
      dest!: sendRTCPKeepalive_hooks split: sum.splits prod.splits if_splits)

lemma trackSequence_hooks:
  "trackSequence pkt (p, l) = (p', l') \<Longrightarrow> sameHooks p p' \<and> lastVideoNanos p' = lastVideoNanos p"
  by (auto simp: trackSequence_def sameHooks_def Let_def split: if_splits)

lemma videoPacket_hooks:
  assumes "videoPacket now now2 pkt (p, l) = ((p', l'), acts)"
  shows "sameHooks p p' \<and> lastVideoNanos p' = now"
proof -
  have "sameHooks p (p\<lparr>lastVideoNanos := now\<rparr>)" by (simp add: sameHooks_def)
  then show ?thesis
    using assms by (auto simp: videoPacket_def Let_def split: prod.splits
        dest!: trackSequence_hooks intro: sameHooks_trans)
qed

lemma readVideo_cases:
  assumes "readVideo lib d (p, l) = ((p', l'), acts)"
  obtains (packet) pkt ctx where
      "videoPacket (recvTime d) (logTime d) pkt (p\<lparr>videoDecryptCtx := Some ctx\<rparr>, l) = ((p', l'), acts)"
      "\<not> foreign p (source d)"
  | (other) "sameAssembly l l'" "sameHooks p p'" "set acts \<subseteq> range SendVideo"
      "lastVideoNanos p' = lastVideoNanos p"
proof -
  have self: "sameAssembly l (l\<lparr>rtcpCount := rc\<rparr>)" "sameAssembly l (l\<lparr>decryptErrors := rc\<rparr>)"
    "sameAssembly l (l\<lparr>foreignDrops := rc\<rparr>)" "sameAssembly l l" for rc
    by (simp_all add: sameAssembly_def)
  have ctx: "sameHooks p (p\<lparr>videoDecryptCtx := c\<rparr>)" for c by (simp add: sameHooks_def)
  show thesis
    using assms that self ctx
    by (auto simp: readVideo_def Let_def split: if_splits option.splits sum.splits prod.splits
        dest: handleVideoRTCP_hooks)
qed

lemma no_frames:
  assumes "set acts \<subseteq> range SendVideo"
  shows "forwarded acts = []" "decrypted acts = []"
  using assms by (induction acts) auto

lemma readVideo_inv:
  assumes inv: "loop_inv n l" and n: "Suc n < 2 ^ 64" and rv: "readVideo lib d (p, l) = ((p', l'), acts)"
  shows "loop_inv (n + length (decrypted acts)) l' \<and> length (decrypted acts) \<le> 1
    \<and> (\<forall>f\<in>set (forwarded acts). wholeFrame f)
    \<and> subseq (concat (forwarded acts) @ frameBuf l') (frameBuf l @ decrypted acts)"
  using rv
proof (cases rule: readVideo_cases)
  case (packet pkt ctx)
  show ?thesis using videoPacket_inv [OF inv n packet(1)] by auto
next
  case other
  show ?thesis
    using inv other no_frames [OF other(3)] by (simp add: sameAssembly_fields)
qed

lemma readVideoLoop_inv:
  assumes "loop_inv n l" "n + length ds < 2 ^ 64" "readVideoLoop lib ds (p, l) = ((p', l'), acts)"
  shows "loop_inv (n + length (decrypted acts)) l' \<and> length (decrypted acts) \<le> length ds
    \<and> (\<forall>f\<in>set (forwarded acts). wholeFrame f)
    \<and> subseq (concat (forwarded acts) @ frameBuf l') (frameBuf l @ decrypted acts)"
  using assms
proof (induction ds arbitrary: n p l acts)
  case (Cons d ds)
  obtain p1 l1 a1 where r: "readVideo lib d (p, l) = ((p1, l1), a1)" by (metis prod.collapse)
  obtain a2 where l: "readVideoLoop lib ds (p1, l1) = ((p', l'), a2)" and a: "acts = a1 @ a2"
    using Cons.prems(3) r by (auto split: prod.splits)
  have "Suc n < 2 ^ 64" using Cons.prems(2) by simp
  note R = readVideo_inv [OF Cons.prems(1) this r]
  have "n + length (decrypted a1) + length ds < 2 ^ 64" using Cons.prems(2) R by simp
  note IH = Cons.IH [OF conjunct1 [OF R] this l]
  have "subseq (concat (forwarded a1) @ concat (forwarded a2) @ frameBuf l')
      ((concat (forwarded a1) @ frameBuf l1) @ decrypted a2)"
    using IH by (simp add: subseq_append')
  moreover have "subseq ((concat (forwarded a1) @ frameBuf l1) @ decrypted a2)
      ((frameBuf l @ decrypted a1) @ decrypted a2)"
    using R list_emb_append_mono [of "(=)" _ _ "decrypted a2" "decrypted a2"] by (metis subseq_order.order_refl)
  ultimately have "subseq (concat (forwarded a1) @ concat (forwarded a2) @ frameBuf l')
      ((frameBuf l @ decrypted a1) @ decrypted a2)"
    using subseq_order.order_trans by blast
  then show ?case using R IH a by (auto simp: add.assoc)
qed simp

text \<open>Forwarded frames are whole and in order, from the start of the loop.\<close>

lemma forwarded_whole:
  assumes "length ds < 2 ^ 64" "readVideoLoop lib ds (p, vloop0 t0) = ((p', l'), acts)"
  shows "(\<forall>f\<in>set (forwarded acts). wholeFrame f) \<and> subseq (concat (forwarded acts)) (decrypted acts)"
proof -
  have "0 + length ds < 2 ^ 64" using assms(1) by simp
  note R = readVideoLoop_inv [OF loop_inv_vloop0 this assms(2)]
  have "subseq (concat (forwarded acts)) (concat (forwarded acts) @ frameBuf l')"
    by (rule list_emb_prefix [OF subseq_order.order_refl])
  moreover have "frameBuf (vloop0 t0) = []" by (simp add: vloop0_def)
  ultimately show ?thesis using R subseq_order.order_trans by fastforce
qed


section \<open>Nothing is lost on a clean link\<close>

text \<open>A frame as the camera sends it: one timestamp, the marker on the last packet only.\<close>

definition cameraFrame :: "packet list \<Rightarrow> bool" where
  "cameraFrame f \<longleftrightarrow> f \<noteq> [] \<and> length f \<le> 300 \<and> sameTS (timestamp (hd f)) f
     \<and> (\<forall>q\<in>set (butlast f). \<not> marker q) \<and> marker (last f)"

text \<open>The state of the loop on a clean link, part \<open>done\<close> of the current frame received.\<close>

definition clean :: "u16 \<Rightarrow> packet list \<Rightarrow> vloop \<Rightarrow> bool" where
  "clean s part l \<longleftrightarrow>
     frameBuf l = part \<and> \<not> frameGapped l \<and> (videoCount l \<noteq> 0 \<longrightarrow> lastSeq l + 1 = s)
     \<and> sameTS (lastFrameTS l) part"

lemma trackSequence_frameTS:
  "trackSequence pkt (p, l) = (p', l') \<Longrightarrow> lastFrameTS l' = timestamp pkt \<or> lastFrameTS l' = lastFrameTS l"
  by (auto simp: trackSequence_def Let_def split: if_splits)

lemma trackSequence_effect:
  "trackSequence pkt (p, l) = (p', l') \<Longrightarrow>
     frameBuf l' = frameBuf l \<and> lastSeq l' = seqNum pkt \<and> videoCount l' = videoCount l
     \<and> (frameGapped l' \<longleftrightarrow> frameGapped l \<or> videoCount l \<noteq> 1 \<and> seqNum pkt \<noteq> lastSeq l + 1)"
  by (auto simp: trackSequence_def Let_def split: if_splits)

lemma videoPacket_clean:
  assumes "clean s part l" "seqNum pkt = s" "onVideoRTP p" "length part < 300"
    and "sameTS (timestamp pkt) part" "videoCount l + 1 \<noteq> 0"
    and vp: "videoPacket now now2 pkt (p, l) = ((p', l'), acts)"
  shows "if marker pkt then clean (s + 1) [] l' \<and> forwarded acts = [part @ [pkt]]
         else clean (s + 1) (part @ [pkt]) l' \<and> forwarded acts = []"
proof -
  from vp obtain l1 l2 l3 a2 a3 a4 where
    t: "trackSequence pkt (p\<lparr>lastVideoNanos := now\<rparr>, l\<lparr>videoCount := videoCount l + 1\<rparr>) = (p', l1)"
    and b0: "frameBoundary pkt p' l1 = (l2, a2)" and e: "emitStats now2 p' (bufferPacket pkt l2) = (l3, a3)"
    and f: "frameEnd pkt p' l3 = (l', a4)" and out: "acts = Decrypted pkt # a2 @ a3 @ a4"
    by (rule videoPacketE)
  have l: "frameBuf l = part" "\<not> frameGapped l" "videoCount l = 0 \<or> lastSeq l + 1 = seqNum pkt"
    using assms(1,2) by (auto simp: clean_def)
  have l1: "frameBuf l1 = part" "\<not> frameGapped l1" "lastSeq l1 = s" "videoCount l1 \<noteq> 0" "onVideoRTP p'"
    using trackSequence_effect [OF t] trackSequence_hooks [OF t] l assms(2,3,6) by (auto simp: sameHooks_def)
  have ts: "timestamp pkt = lastFrameTS l1 \<or> part = []"
  proof (cases part)
    case (Cons q qs)
    then have "timestamp q = timestamp pkt" "timestamp q = lastFrameTS l"
      using assms(1,5) by (simp_all add: clean_def)
    then show ?thesis using trackSequence_frameTS [OF t] by auto
  qed simp
  then have b: "l2 = l1" "a2 = []" using l1 b0 by (auto simp: frameBoundary_def)
  have l3: "frameBuf l3 = part @ [pkt]" "\<not> frameGapped l3" "lastSeq l3 = s" "videoCount l3 \<noteq> 0"
    "lastFrameTS l3 = timestamp pkt" "forwarded a3 = []"
    using e l1 b assms(4) by (auto simp: emitStats_def bufferPacket_def Let_def split: if_splits)
  show ?thesis
    using out f l3 l1(5) b assms(5) by (auto simp: frameEnd_def flushFrame_def clean_def Let_def split: if_splits)
qed

lemma cameraFrame_part:
  assumes "cameraFrame (part @ pkt # rest)"
  shows "length part < 300" "sameTS (timestamp pkt) part" "marker pkt \<longleftrightarrow> rest = []"
  using assms
  by (auto simp: cameraFrame_def butlast_append last_append dest: sameTS_hd split: if_splits)

lemma clean_sameAssembly: "sameAssembly l l' \<Longrightarrow> clean s part l' = clean s part l"
  by (simp add: clean_def sameAssembly_fields)

text \<open>One packet of a camera frame, of which \<open>part\<close> has arrived and \<open>rest\<close> is to follow.\<close>

lemma packet_of_frame:
  assumes "clean s part l" "loop_inv n l" "Suc n < 2 ^ 64" "onVideoRTP p" "seqNum pkt = s"
    and "cameraFrame (part @ pkt # rest)" "videoPacket now now2 pkt (p, l) = ((p', l'), acts)"
  shows "if rest = [] then clean (s + 1) [] l' \<and> forwarded acts = [part @ [pkt]]
         else clean (s + 1) (part @ [pkt]) l' \<and> forwarded acts = []"
proof -
  have "unat (videoCount l + 1) = Suc n"
    using assms(2,3) unat_Suc_word [of "videoCount l" n] by (simp add: loop_inv_def)
  then have "videoCount l + 1 \<noteq> 0" by (metis nat.distinct(1) unat_0)
  from videoPacket_clean [OF assms(1,5,4) cameraFrame_part(1,2) [OF assms(6)] this assms(7)]
  show ?thesis using cameraFrame_part(3) [OF assms(6)] by simp
qed

definition restOfFrame :: "packet list \<Rightarrow> packet list \<Rightarrow> bool" where
  "restOfFrame part rest \<longleftrightarrow> (if rest = [] then part = [] else cameraFrame (part @ rest))"

lemma restOfFrame_next:
  assumes "restOfFrame part rest" "\<forall>f\<in>set fs. cameraFrame f" "rest @ concat fs = pkt # tail"
  obtains rest' fs' where "cameraFrame (part @ pkt # rest')" "tail = rest' @ concat fs'"
    "(if rest = [] then fs else (part @ rest) # fs) = (part @ pkt # rest') # fs'" "\<forall>f\<in>set fs'. cameraFrame f"
proof (cases rest)
  case Nil
  with assms obtain f fs' where "fs = f # fs'" by (cases fs) auto
  moreover then obtain q f' where "f = q # f'" using assms(2) by (cases f) (auto simp: cameraFrame_def)
  ultimately show thesis using that [of f' fs'] assms Nil by (auto simp: restOfFrame_def)
next
  case (Cons q rest')
  then show thesis using that [of rest' fs] assms by (auto simp: restOfFrame_def)
qed

lemma readVideoLoop_clean:
  assumes "clean s part l" "loop_inv n l" "n + length ds < 2 ^ 64" "onVideoRTP p"
    and "readVideoLoop lib ds (p, l) = ((p', l'), acts)"
    and "restOfFrame part rest" "\<forall>f\<in>set fs. cameraFrame f"
    and "decrypted acts = rest @ concat fs" "consecutive s (decrypted acts)"
  shows "forwarded acts = (if rest = [] then fs else (part @ rest) # fs)"
  using assms
proof (induction ds arbitrary: n p l acts s part rest fs)
  case Nil
  then show ?case by (cases fs) (auto simp: cameraFrame_def)
next
  case (Cons d ds)
  obtain p1 l1 a1 where r: "readVideo lib d (p, l) = ((p1, l1), a1)" by (metis prod.collapse)
  obtain a2 where l: "readVideoLoop lib ds (p1, l1) = ((p', l'), a2)" and a: "acts = a1 @ a2"
    using Cons.prems(5) r by (auto split: prod.splits)
  have n: "Suc n < 2 ^ 64" using Cons.prems(3) by simp
  note R = readVideo_inv [OF Cons.prems(2) n r]
  have inv1: "loop_inv (n + length (decrypted a1)) l1" and n1: "n + length (decrypted a1) + length ds < 2 ^ 64"
    using R Cons.prems(3) by simp_all
  show ?case
    using r
  proof (cases rule: readVideo_cases)
    case (packet pkt ctx)
    have d1: "decrypted a1 = [pkt]" using videoPacket_inv [OF Cons.prems(2) n packet(1)] by simp
    have hook: "onVideoRTP (p\<lparr>videoDecryptCtx := Some ctx\<rparr>)" "onVideoRTP p1"
      using Cons.prems(4) videoPacket_hooks [OF packet(1)] by (simp_all add: sameHooks_def)
    have "rest @ concat fs = pkt # decrypted a2" using Cons.prems(8) d1 a by simp
    then obtain rest' fs' where f: "cameraFrame (part @ pkt # rest')" "decrypted a2 = rest' @ concat fs'"
      "(if rest = [] then fs else (part @ rest) # fs) = (part @ pkt # rest') # fs'" "\<forall>f\<in>set fs'. cameraFrame f"
      using restOfFrame_next [OF Cons.prems(6,7)] by metis
    have s: "seqNum pkt = s" "consecutive (s + 1) (decrypted a2)" using Cons.prems(9) d1 a by simp_all
    note P = packet_of_frame [OF Cons.prems(1,2) n hook(1) s(1) f(1) packet(1)]
    define part' where "part' = (if rest' = [] then [] else part @ [pkt])"
    have "clean (s + 1) part' l1" "restOfFrame part' rest'"
      using P f(1) by (auto simp: part'_def restOfFrame_def split: if_splits)
    from Cons.IH [OF this(1) inv1 n1 hook(2) l this(2) f(4,2) s(2)] show ?thesis
      using P f(3) a by (auto simp: part'_def split: if_splits)
  next
    case other
    have "clean s part l1" "onVideoRTP p1"
      using Cons.prems(1,4) other by (simp_all add: clean_sameAssembly sameHooks_def)
    moreover have "decrypted acts = decrypted a2" "forwarded acts = forwarded a2"
      using a no_frames [OF other(3)] by simp_all
    ultimately show ?thesis using Cons.IH [OF _ inv1 n1 _ l Cons.prems(6,7)] Cons.prems(8,9) by simp
  qed
qed


section \<open>Loss accounting\<close>

lemma seqGap_word: "seqGap got expected = uint (got - expected)"
proof -
  define d where "d = uint got - uint expected"
  have b: "-65536 < d" "d < 65536"
    using uint_bounded [of got] uint_bounded [of expected] uint_ge_0 [of got] uint_ge_0 [of expected]
    unfolding d_def by (simp_all, linarith+)
  have u: "uint (got - expected) = d mod 65536" by (simp add: uint_word_ariths d_def)
  show ?thesis
  proof (cases "d < 0")
    case True
    then have "(d + 65536) mod 65536 = d + 65536" using b by (intro mod_pos_pos_trivial) simp_all
    then have "d mod 65536 = d + 65536" by simp
    then show ?thesis using u True by (simp add: seqGap_def d_def Let_def)
  next
    case False
    then show ?thesis using u b by (simp add: seqGap_def d_def Let_def)
  qed
qed

text \<open>The packets missing before each packet of a run that follows sequence number \<open>s\<close>.\<close>

definition missed :: "u16 \<Rightarrow> u16 \<Rightarrow> u64" where
  "missed s got = ucast (got - (s + 1))"

fun totalMissed :: "packet list \<Rightarrow> u64" where
  "totalMissed (p # q # ps) = missed (seqNum p) (seqNum q) + totalMissed (q # ps)"
| "totalMissed _ = 0"

lemma totalMissed_snoc:
  "totalMissed (ps @ [q]) = totalMissed ps + (if ps = [] then 0 else missed (seqNum (last ps)) (seqNum q))"
  by (induction ps rule: totalMissed.induct) auto

fun reported :: "action list \<Rightarrow> VideoStats list" where
  "reported [] = []"
| "reported (EmitStats st # as) = st # reported as"
| "reported (_ # as) = reported as"

lemma reported_append [simp]: "reported (xs @ ys) = reported xs @ reported ys"
  by (induction xs rule: reported.induct) auto

text \<open>Only the first part touches the counters; only \<open>emitStats\<close> touches the snapshots.\<close>

lemma assembly_keeps_counters:
  "frameBoundary pkt p l = (l', acts) \<Longrightarrow>
     videoCount l' = videoCount l \<and> dropCount l' = dropCount l \<and> lastSeq l' = lastSeq l
     \<and> lastStatVideo l' = lastStatVideo l \<and> lastStatDrops l' = lastStatDrops l \<and> reported acts = []"
  "frameEnd pkt p l = (l', acts) \<Longrightarrow>
     videoCount l' = videoCount l \<and> dropCount l' = dropCount l \<and> lastSeq l' = lastSeq l
     \<and> lastStatVideo l' = lastStatVideo l \<and> lastStatDrops l' = lastStatDrops l \<and> reported acts = []"
  "videoCount (bufferPacket pkt l) = videoCount l \<and> dropCount (bufferPacket pkt l) = dropCount l
     \<and> lastSeq (bufferPacket pkt l) = lastSeq l \<and> lastStatVideo (bufferPacket pkt l) = lastStatVideo l
     \<and> lastStatDrops (bufferPacket pkt l) = lastStatDrops l"
  "emitStats now p l = (l', acts) \<Longrightarrow>
     videoCount l' = videoCount l \<and> dropCount l' = dropCount l \<and> lastSeq l' = lastSeq l"
  by (auto simp: frameBoundary_def flushFrame_def frameEnd_def bufferPacket_def emitStats_def Let_def
      split: if_splits)

lemma videoPacket_counts:
  assumes vp: "videoPacket now now2 pkt (p, l) = ((p', l'), acts)"
  shows "videoCount l' = videoCount l + 1" "lastSeq l' = seqNum pkt"
    "dropCount l' = dropCount l + (if videoCount l = 0 then 0 else missed (lastSeq l) (seqNum pkt))"
proof -
  from vp obtain l1 l2 l3 a2 a3 a4 where
    t: "trackSequence pkt (p\<lparr>lastVideoNanos := now\<rparr>, l\<lparr>videoCount := videoCount l + 1\<rparr>) = (p', l1)"
    and b: "frameBoundary pkt p' l1 = (l2, a2)" and e: "emitStats now2 p' (bufferPacket pkt l2) = (l3, a3)"
    and f: "frameEnd pkt p' l3 = (l', a4)" and out: "acts = Decrypted pkt # a2 @ a3 @ a4"
    by (rule videoPacketE)
  have "videoCount l1 = videoCount l + 1 \<and> lastSeq l1 = seqNum pkt
      \<and> dropCount l1 = dropCount l + (if videoCount l = 0 then 0 else missed (lastSeq l) (seqNum pkt))"
    using t by (auto simp: trackSequence_def seqGap_word missed_def Let_def split: if_splits)
  then show "videoCount l' = videoCount l + 1" "lastSeq l' = seqNum pkt"
    "dropCount l' = dropCount l + (if videoCount l = 0 then 0 else missed (lastSeq l) (seqNum pkt))"
    using assembly_keeps_counters(1) [OF b] assembly_keeps_counters(2) [OF f] assembly_keeps_counters(4) [OF e]
      assembly_keeps_counters(3) [of pkt l2] by simp_all
qed

text \<open>
  The counters after the packets \<open>ps\<close>, and a reading of the action list that checks every
  statistics report against them.
\<close>

definition counted :: "packet list \<Rightarrow> vloop \<Rightarrow> bool" where
  "counted ps l \<longleftrightarrow> videoCount l = of_nat (length ps) \<and> dropCount l = totalMissed ps
     \<and> (ps \<noteq> [] \<longrightarrow> lastSeq l = seqNum (last ps))"

fun reportsOk :: "packet list \<Rightarrow> u64 \<Rightarrow> u64 \<Rightarrow> action list \<Rightarrow> bool" where
  "reportsOk ps rp rd [] = True"
| "reportsOk ps rp rd (Decrypted q # as) = reportsOk (ps @ [q]) rp rd as"
| "reportsOk ps rp rd (EmitStats st # as) =
     (rp + Packets st = of_nat (length ps) \<and> rd + Drops st = totalMissed ps
      \<and> reportsOk ps (rp + Packets st) (rd + Drops st) as)"
| "reportsOk ps rp rd (_ # as) = reportsOk ps rp rd as"

lemma reportsOk_append:
  "reportsOk ps rp rd (xs @ ys) \<longleftrightarrow> reportsOk ps rp rd xs \<and>
     reportsOk (ps @ decrypted xs) (rp + sum_list (map Packets (reported xs)))
       (rd + sum_list (map Drops (reported xs))) ys"
  by (induction ps rp rd xs rule: reportsOk.induct) (auto simp: add.assoc)

lemma reportsOk_quiet:
  assumes "reported acts = []" "decrypted acts = []"
  shows "reportsOk ps rp rd acts"
  using assms by (induction ps rp rd acts rule: reportsOk.induct) auto

lemma counted_snoc:
  assumes "counted ps l" "length ps < 2 ^ 64" "videoPacket now now2 pkt (p, l) = ((p', l'), acts)"
  shows "counted (ps @ [pkt]) l'"
proof -
  have "unat (of_nat (length ps) :: u64) = length ps" using assms(2) by simp
  then have "(of_nat (length ps) :: u64) = 0 \<longleftrightarrow> ps = []" by (metis length_0_conv unat_eq_zero)
  then have "videoCount l = 0 \<longleftrightarrow> ps = []" using assms(1) by (simp add: counted_def)
  then show ?thesis
    using assms(1) videoPacket_counts [OF assms(3)] by (simp add: counted_def totalMissed_snoc)
qed

lemma videoPacket_reports:
  assumes "counted ps l" "length ps < 2 ^ 64" "onVideoStats p"
    and vp: "videoPacket now now2 pkt (p, l) = ((p', l'), acts)"
  shows "reportsOk ps (lastStatVideo l) (lastStatDrops l) acts
     \<and> lastStatVideo l' = lastStatVideo l + sum_list (map Packets (reported acts))
     \<and> lastStatDrops l' = lastStatDrops l + sum_list (map Drops (reported acts))"
proof -
  from vp obtain l1 l2 l3 a2 a3 a4 where
    t: "trackSequence pkt (p\<lparr>lastVideoNanos := now\<rparr>, l\<lparr>videoCount := videoCount l + 1\<rparr>) = (p', l1)"
    and b: "frameBoundary pkt p' l1 = (l2, a2)" and e: "emitStats now2 p' (bufferPacket pkt l2) = (l3, a3)"
    and f: "frameEnd pkt p' l3 = (l', a4)" and out: "acts = Decrypted pkt # a2 @ a3 @ a4"
    by (rule videoPacketE)
  have stats: "onVideoStats p'" using trackSequence_hooks [OF t] assms(3) by (simp add: sameHooks_def)
  have l1: "lastStatVideo l1 = lastStatVideo l" "lastStatDrops l1 = lastStatDrops l"
    using t by (auto simp: trackSequence_def Let_def split: if_splits)
  note K = assembly_keeps_counters(1) [OF b] assembly_keeps_counters(2) [OF f] assembly_keeps_counters(4) [OF e]
    assembly_keeps_counters(3) [of pkt l2]
  have q: "decrypted a2 = []" "decrypted a4 = []"
    using b f by (auto simp: frameBoundary_def frameEnd_def flushFrame_def Let_def split: if_splits)
  have c: "videoCount l2 = of_nat (length (ps @ [pkt]))" "dropCount l2 = totalMissed (ps @ [pkt])"
    using counted_snoc [OF assms(1,2) vp] K by (simp_all add: counted_def)
  have "a3 = [] \<and> lastStatVideo l3 = lastStatVideo l2 \<and> lastStatDrops l3 = lastStatDrops l2 \<or>
      (\<exists>st. a3 = [EmitStats st] \<and> Packets st = videoCount l2 - lastStatVideo l2
         \<and> Drops st = dropCount l2 - lastStatDrops l2
         \<and> lastStatVideo l3 = videoCount l2 \<and> lastStatDrops l3 = dropCount l2)"
    using e stats by (auto simp: emitStats_def bufferPacket_def Let_def split: if_splits)
  then show ?thesis
    using out q K l1 c reportsOk_quiet by (auto simp: reportsOk_append)
qed

lemma readVideoLoop_counts:
  assumes "counted ps l" "length ps + length ds < 2 ^ 64" "onVideoStats p"
    and "readVideoLoop lib ds (p, l) = ((p', l'), acts)"
  shows "counted (ps @ decrypted acts) l' \<and> reportsOk ps (lastStatVideo l) (lastStatDrops l) acts"
  using assms
proof (induction ds arbitrary: p l ps acts)
  case (Cons d ds)
  obtain p1 l1 a1 where r: "readVideo lib d (p, l) = ((p1, l1), a1)" by (metis prod.collapse)
  obtain a2 where l: "readVideoLoop lib ds (p1, l1) = ((p', l'), a2)" and a: "acts = a1 @ a2"
    using Cons.prems(4) r by (auto split: prod.splits)
  have n: "length ps < 2 ^ 64" using Cons.prems(2) by simp
  show ?case
    using r
  proof (cases rule: readVideo_cases)
    case (packet pkt ctx)
    define pc where "pc = p\<lparr>videoDecryptCtx := Some ctx\<rparr>"
    have h: "onVideoStats pc" "onVideoStats p1"
      using Cons.prems(3) videoPacket_hooks [OF packet(1)] by (simp_all add: sameHooks_def pc_def)
    have vp: "videoPacket (recvTime d) (logTime d) pkt (pc, l) = ((p1, l1), a1)" using packet pc_def by simp
    note R = videoPacket_reports [OF Cons.prems(1) n h(1) vp]
    have d: "decrypted a1 = [pkt]"
      using vp by (rule videoPacket_decrypted)
    have "length (ps @ [pkt]) + length ds < 2 ^ 64" using Cons.prems(2) by simp
    from Cons.IH [OF counted_snoc [OF Cons.prems(1) n vp] this h(2) l] show ?thesis
      using R d a by (simp add: reportsOk_append)
  next
    case other
    have s: "counted ps l1" "onVideoStats p1"
      using Cons.prems(1,3) other by (simp_all add: counted_def sameAssembly_fields sameHooks_def)
    have "reported a1 = []" using other(3) by (induction a1) auto
    then show ?thesis
      using Cons.IH [OF s(1) _ s(2) l] Cons.prems(2) a no_frames [OF other(3)] other
      by (simp add: reportsOk_append reportsOk_quiet sameAssembly_fields)
  qed
qed simp

text \<open>
  The statistics are a running account. At every report, the packet and loss figures of
  all the reports so far add up to the packets that entered frame assembly so far
  and to the sequence numbers skipped between them: no interval is counted twice and none
  is left out. (Totals are modulo $2^{64}$, the width of the counters.)
\<close>

lemma stats_account_for_all:
  assumes "length ds < 2 ^ 64" "onVideoStats p"
    and "readVideoLoop lib ds (p, vloop0 t0) = ((p', l'), acts)"
    and "acts = before @ EmitStats st # after"
  shows "sum_list (map Packets (reported before @ [st])) = of_nat (length (decrypted before))
    \<and> sum_list (map Drops (reported before @ [st])) = totalMissed (decrypted before)"
proof -
  have "counted [] (vloop0 t0)" by (simp add: counted_def vloop0_def)
  from readVideoLoop_counts [OF this _ assms(2,3)] assms(1)
  have "reportsOk [] 0 0 acts" by (simp add: vloop0_def)
  then show ?thesis using assms(4) by (simp add: reportsOk_append)
qed

text \<open>
  A sender numbers its packets \<open>0, 1, 2, \<dots>\<close>; the network delivers some of them in order. The
  16-bit sequence numbers lose nothing as long as no gap reaches 65536.
\<close>

fun delivered :: "nat list \<Rightarrow> bool" where
  "delivered (x # y # xs) = (x < y \<and> y \<le> x + 65536 \<and> delivered (y # xs))"
| "delivered _ = True"

lemma delivered_bounds: "delivered xs \<Longrightarrow> xs \<noteq> [] \<Longrightarrow> hd xs + length xs \<le> last xs + 1"
  by (induction xs rule: delivered.induct) auto

lemma delivered_set:
  "delivered xs \<Longrightarrow> xs \<noteq> [] \<Longrightarrow> distinct xs \<and> set xs \<subseteq> {hd xs .. last xs}"
proof (induction xs rule: delivered.induct)
  case (1 x y xs)
  then have "distinct (y # xs)" "set (y # xs) \<subseteq> {y .. last (y # xs)}" by simp_all
  moreover have "x < y" using "1.prems" by simp
  ultimately have "\<forall>z\<in>set (y # xs). y \<le> z \<and> z \<le> last (y # xs)" "distinct (y # xs)" "y \<le> last (y # xs)"
    by auto
  then show ?case using \<open>x < y\<close> by fastforce
qed auto

lemma missed_of_nat:
  assumes "x < y" "y \<le> x + 65536"
  shows "missed (of_nat x) (of_nat y) = of_nat (y - x - 1)"
proof -
  define k where "k = y - x - 1"
  have k: "y = x + 1 + k" "k < 65536" using assms by (simp_all add: k_def)
  then have "(of_nat y :: u16) - (of_nat x + 1) = of_nat k" by simp
  moreover have "(ucast (of_nat k :: u16) :: u64) = of_nat k"
    using k(2) by (simp add: unsigned_of_nat take_bit_nat_eq_self)
  ultimately show ?thesis using k(1) by (simp add: missed_def)
qed

lemma totalMissed_delivered:
  assumes "delivered xs" "map seqNum ps = map of_nat xs" "xs \<noteq> []"
  shows "totalMissed ps = of_nat (last xs + 1 - hd xs - length xs)"
  using assms
proof (induction xs arbitrary: ps rule: delivered.induct)
  case (1 x y xs)
  then obtain p q qs where ps: "ps = p # q # qs" by (auto simp: map_eq_Cons_conv)
  have "totalMissed (q # qs) = of_nat (last (y # xs) + 1 - y - length (y # xs))"
    using 1 ps by simp
  moreover have b: "y + length (y # xs) \<le> last (y # xs) + 1" using delivered_bounds [of "y # xs"] "1.prems" by simp
  moreover have "totalMissed ps = of_nat (y - x - 1) + totalMissed (q # qs)"
    using "1.prems" ps missed_of_nat [of x y] by simp
  ultimately have "totalMissed ps = of_nat ((y - x - 1) + (last (y # xs) + 1 - y - length (y # xs)))"
    by (simp only: of_nat_add)
  moreover have "(y - x - 1) + (last (y # xs) + 1 - y - length (y # xs)) = last (y # xs) + 1 - x - length (x # y # xs)"
    using "1.prems"(1) b by auto
  ultimately show ?case by (simp only: list.sel last.simps) simp
qed (auto simp: map_eq_Cons_conv)

text \<open>
  C22. The loss counter is exact. If the packets that decrypt are, in order, the sender's packets
  numbered \<open>xs\<close>, with no gap of more than 65535 missing packets, the loop's drop counter
  ends at the number of packets between the first and the last that did not arrive, also
  across wrap-arounds of the 16-bit sequence number.
\<close>

theorem drop_count_exact:
  assumes "length ds < 2 ^ 64" "onVideoStats p"
    and "readVideoLoop lib ds (p, vloop0 t0) = ((p', l'), acts)"
    and "map seqNum (decrypted acts) = map of_nat xs" "delivered xs" "xs \<noteq> []" "last xs < 2 ^ 64"
  shows "unat (dropCount l') = card ({hd xs .. last xs} - set xs)"
proof -
  have "counted [] (vloop0 t0)" by (simp add: counted_def vloop0_def)
  from readVideoLoop_counts [OF this _ assms(2,3)] assms(1)
  have "dropCount l' = totalMissed (decrypted acts)" by (simp add: counted_def)
  then have eq: "dropCount l' = of_nat (last xs + 1 - hd xs - length xs)"
    using totalMissed_delivered [OF assms(5,4,6)] by simp
  have "0 < length xs" using assms(6) by simp
  then have "last xs + 1 - hd xs - length xs \<le> last xs" by linarith
  then have "last xs + 1 - hd xs - length xs < 2 ^ LENGTH(64)" using assms(7) by simp
  then have "unat (dropCount l') = last xs + 1 - hd xs - length xs"
    using eq by (metis unat_of_nat_small)
  also have "\<dots> = card ({hd xs .. last xs} - set xs)"
    using delivered_set [OF assms(5,6)] by (simp add: card_Diff_subset distinct_card)
  finally show ?thesis .
qed

section \<open>A worked run\<close>

text \<open>
  A library that does no encryption and reads a packet as marker, sequence number, timestamp
  and payload, one byte each for the first three after a dummy first byte; a proxy connected to
  it with every hook set; and a datagram from a host to whom no filter applies.
\<close>

definition plainLib :: "unit pion" where
  "plainLib =
     \<lparr>createContext = \<lambda>_ _. Inr (), decryptRTP = \<lambda>c bs. (Inr bs, c), decryptRTCP = \<lambda>c bs. (Inr (200, []), c),
      encryptRTP = \<lambda>c bs. (Inr bs, c), encryptRTCP = \<lambda>c bs. (Inr bs, c),
      unmarshalRTP = \<lambda>bs. (case bs of
          _ # m # s # t # pl \<Rightarrow> Inr \<lparr>marker = (m = 1), payloadType = 99, seqNum = ucast s, timestamp = ucast t, ssrc = 7, payload = pl\<rparr>
        | _ \<Rightarrow> Inl ''short packet''),
      marshalRTP = \<lambda>_. Inr [], marshalRR = \<lambda>_ _ _. Inr []\<rparr>"

definition plainProxy :: "unit SRTPProxy" where
  "plainProxy = (SetVideoStatsCallback (SetIDRCallback (SetCallbacks NewSRTPProxy)))\<lparr>videoDecryptCtx := Some ()\<rparr>"

definition plainDatagram :: "int \<Rightarrow> bool \<Rightarrow> byte \<Rightarrow> byte \<Rightarrow> datagram" where
  "plainDatagram now m s t = \<lparr>source = [], raw = [0, if m then 1 else 0, s, t, 1], recvTime = now, logTime = now\<rparr>"

definition plainPacket :: "bool \<Rightarrow> u16 \<Rightarrow> u32 \<Rightarrow> packet" where
  "plainPacket m s t = \<lparr>marker = m, payloadType = 99, seqNum = s, timestamp = t, ssrc = 7, payload = [1]\<rparr>"

lemmas plain_defs =
  plainLib_def plainProxy_def plainDatagram_def plainPacket_def NewSRTPProxy_def SetCallbacks_def SetIDRCallback_def
  SetVideoStatsCallback_def vloop0_def
definition lossyRun :: "datagram list" where
  "lossyRun = [plainDatagram 10 False 5 1, plainDatagram 20 True 6 1, plainDatagram 30 False 8 2,
     plainDatagram 2000000000 True 9 2, plainDatagram 2000000010 True 10 3]"

lemma lossyRun_actions:
  "snd (readVideoLoop plainLib lossyRun (plainProxy, vloop0 0)) =
     [Decrypted (plainPacket False 5 1), Decrypted (plainPacket True 6 1),
      ForwardFrame [plainPacket False 5 1, plainPacket True 6 1],
      Decrypted (plainPacket False 8 2), Decrypted (plainPacket True 9 2),
      EmitStats \<lparr>Packets = 4, Drops = 1, DroppedFrames = 0, Interval = 2000000000\<rparr>,
      Decrypted (plainPacket True 10 3), ForwardFrame [plainPacket True 10 3]]"
  by code_simp

lemma lossyRun_frames:
  "forwarded (snd (readVideoLoop plainLib lossyRun (plainProxy, vloop0 0))) =
     [[plainPacket False 5 1, plainPacket True 6 1], [plainPacket True 10 3]]"
  "decrypted (snd (readVideoLoop plainLib lossyRun (plainProxy, vloop0 0))) =
     [plainPacket False 5 1, plainPacket True 6 1, plainPacket False 8 2, plainPacket True 9 2, plainPacket True 10 3]"
  by (simp_all add: lossyRun_actions)

definition cleanRun :: "datagram list" where
  "cleanRun = [plainDatagram 10 False 5 1, plainDatagram 20 True 6 1, plainDatagram 30 True 7 2]"

lemma cleanRun_decrypted:
  "decrypted (snd (readVideoLoop plainLib cleanRun (plainProxy, vloop0 0))) =
     concat [[plainPacket False 5 1, plainPacket True 6 1], [plainPacket True 7 2]]"
  by code_simp

lemma run_parts: "r = ((fst (fst r), snd (fst r)), snd r)"
  by simp

lemma run_lengths: "length lossyRun < 2 ^ 64" "length cleanRun < 2 ^ 64"
  by (simp_all add: lossyRun_def cleanRun_def)

lemma plainProxy_hooks: "onVideoRTP plainProxy" "onVideoStats plainProxy"
  by (simp_all add: plain_defs)



lemma stats_account_for_all_witness:
  "sum_list (map Packets (reported [Decrypted (plainPacket False 5 1), Decrypted (plainPacket True 6 1),
      ForwardFrame [plainPacket False 5 1, plainPacket True 6 1],
      Decrypted (plainPacket False 8 2), Decrypted (plainPacket True 9 2)]
      @ [\<lparr>Packets = 4, Drops = 1, DroppedFrames = 0, Interval = 2000000000\<rparr>])) = (4 :: u64)"
  using stats_account_for_all [OF run_lengths(1) plainProxy_hooks(2) run_parts, of plainLib 0
      "[Decrypted (plainPacket False 5 1), Decrypted (plainPacket True 6 1),
        ForwardFrame [plainPacket False 5 1, plainPacket True 6 1],
        Decrypted (plainPacket False 8 2), Decrypted (plainPacket True 9 2)]"
      "\<lparr>Packets = 4, Drops = 1, DroppedFrames = 0, Interval = 2000000000\<rparr>"
      "[Decrypted (plainPacket True 10 3), ForwardFrame [plainPacket True 10 3]]"]
  by (simp add: lossyRun_actions)

theorem drop_count_exact_witness:
  "unat (dropCount (snd (fst (readVideoLoop plainLib lossyRun (plainProxy, vloop0 0))))) = 1"
proof -
  have "map seqNum (decrypted (snd (readVideoLoop plainLib lossyRun (plainProxy, vloop0 0)))) = map of_nat [5, 6, 8, 9, 10]"
    by (simp add: lossyRun_frames plainPacket_def)
  from drop_count_exact [OF run_lengths(1) plainProxy_hooks(2) run_parts this] show ?thesis
    by (simp add: card_Diff_subset)
qed

text \<open>
  In \<open>lossyRun\<close> the packet 7 is lost. If it was a frame of its own, the frame of packets 8 and 9 is
  complete; it is dropped all the same, because the buffer was empty when the gap was noticed,
  so the test whether the gap reached into the new frame was not made.
\<close>

text \<open>A packet received twice in a row counts as 65535 lost packets.\<close>

lemma duplicate_counts_as_loss: "missed s s = 65535"
  by (simp add: missed_def unsigned_minus_1_eq_mask mask_numeral)

text \<open>
  The highest sequence number reported to the camera stays at 65535 when the numbers wrap around:
  no later packet exceeds it.
\<close>

lemma highestVideoSeq_stuck:
  assumes "highestVideoSeq p = 65535" "videoCount l \<noteq> 1"
  shows "highestVideoSeq (fst (trackSequence pkt (p, l))) = 65535"
proof -
  have "(ucast (seqNum pkt) :: u32) \<le> 65535"
  proof -
    have "unat (seqNum pkt) < 65536" using unsigned_less [of "seqNum pkt", where ?'a = nat] by simp
    then show ?thesis by (simp add: word_le_nat_alt unsigned_ucast_eq take_bit_nat_eq_self)
  qed
  then show ?thesis using assms by (auto simp: trackSequence_def Let_def)
qed

end
