(* ===== verification/Proxy_Run.thy ===== *)
theory Proxy_Run
  imports Frame_Assembly
begin

text \<open>
  The four goroutines of a started SRTP proxy together (\<^verbatim>\<open>readVideoLoop\<close>, \<^verbatim>\<open>readAudioLoop\<close>,
  \<^verbatim>\<open>rtcpKeepaliveLoop\<close>, \<^verbatim>\<open>audioReturnLoop\<close> of \<^verbatim>\<open>internal/stream/proxy.go\<close>) and \<^verbatim>\<open>Close\<close>, under any
  interleaving of their iterations: the stall watchdog, the source filter, and the silence
  after closing.
\<close>

datatype proxyInput =
    VideoIn datagram
  | AudioIn datagram
  | KeepaliveStart
  | KeepaliveTick int
  | ReturnTick
  | CloseCall

record 'c running =
  proxy :: "'c SRTPProxy"
  vstate :: vloop
  stallFired :: bool

definition silencePayload :: bytes where
  "silencePayload = [0, 0, 0, 0]"

text \<open>
  One iteration of one of the loops; \<open>KeepaliveStart\<close> is the report sent before the first tick. A loop whose guard fails when it starts returns at once
  (the guards read fields that never change afterwards); a closed stop channel ends every loop.
\<close>

definition runInput :: "'c pion \<Rightarrow> proxyInput \<Rightarrow> 'c running \<Rightarrow> 'c running \<times> action list" where
  "runInput lib i r =
     (if stopChClosed (proxy r) then (r, [])
      else case i of
        VideoIn d \<Rightarrow>
          (case readVideo lib d (proxy r, vstate r) of ((p, l), acts) \<Rightarrow> (r\<lparr>proxy := p, vstate := l\<rparr>, acts))
      | AudioIn d \<Rightarrow> (case readAudio lib d (proxy r) of (p, acts) \<Rightarrow> (r\<lparr>proxy := p\<rparr>, acts))
      | KeepaliveStart \<Rightarrow>
          (if cameraAddr (proxy r) = None \<or> videoConn (proxy r) = None then (r, [])
           else case sendRTCPKeepalive lib (proxy r) of (p, acts) \<Rightarrow> (r\<lparr>proxy := p\<rparr>, acts))
      | KeepaliveTick now \<Rightarrow>
          (if cameraAddr (proxy r) = None \<or> videoConn (proxy r) = None then (r, [])
           else case keepaliveTick lib now (proxy r, stallFired r) of
                  ((p, f), acts) \<Rightarrow> (r\<lparr>proxy := p, stallFired := f\<rparr>, acts))
      | ReturnTick \<Rightarrow>
          (if audioReturnCtx (proxy r) = None \<or> cameraAudioAddr (proxy r) = None then (r, [])
           else case sendAudioReturn lib silencePayload (proxy r) of (p, acts) \<Rightarrow> (r\<lparr>proxy := p\<rparr>, acts))
      | CloseCall \<Rightarrow> (r\<lparr>proxy := Close (proxy r)\<rparr>, []))"

fun runInputs :: "'c pion \<Rightarrow> proxyInput list \<Rightarrow> 'c running \<Rightarrow> 'c running \<times> action list" where
  "runInputs lib [] r = (r, [])"
| "runInputs lib (i # is) r =
     (let (r1, a1) = runInput lib i r; (r2, a2) = runInputs lib is r1 in (r2, a1 @ a2))"

lemma runInputs_append:
  "runInputs lib (is @ js) r =
     (let (r1, a1) = runInputs lib is r; (r2, a2) = runInputs lib js r1 in (r2, a1 @ a2))"
  by (induction "is" arbitrary: r) (auto simp: Let_def split: prod.splits)

section \<open>The stall watchdog\<close>

definition stalledAt :: "int \<Rightarrow> 'c SRTPProxy \<Rightarrow> bool" where
  "stalledAt now p \<longleftrightarrow> \<not> stopChClosed p \<and> cameraAddr p \<noteq> None \<and> videoConn p \<noteq> None \<and> onVideoStall p
     \<and> videoStallTimeout p > 0 \<and> lastVideoNanos p \<noteq> 0 \<and> now - lastVideoNanos p > videoStallTimeout p"

lemma videoPacket_no_stall:
  assumes vp: "videoPacket now now2 pkt (p, l) = ((p', l'), acts)"
  shows "VideoStall \<notin> set acts"
proof -
  from vp obtain l1 l2 l3 a2 a3 a4 where
    b: "frameBoundary pkt p' l1 = (l2, a2)" and e: "emitStats now2 p' (bufferPacket pkt l2) = (l3, a3)"
    and f: "frameEnd pkt p' l3 = (l', a4)" and out: "acts = Decrypted pkt # a2 @ a3 @ a4"
    by (rule videoPacketE)
  have "VideoStall \<notin> set a2" using b by (auto simp: frameBoundary_def flushFrame_def Let_def split: if_splits)
  moreover have "VideoStall \<notin> set a3" using e by (auto simp: emitStats_def split: if_splits)
  moreover have "VideoStall \<notin> set a4" using f by (auto simp: frameEnd_def flushFrame_def Let_def split: if_splits)
  ultimately show ?thesis using out by simp
qed

lemma readVideo_no_stall:
  assumes "readVideo lib d (p, l) = ((p', l'), acts)"
  shows "VideoStall \<notin> set acts"
  using assms by (cases rule: readVideo_cases) (auto dest: videoPacket_no_stall)

lemma readAudio_actions: "readAudio lib d p = (p', acts) \<Longrightarrow> set acts \<subseteq> range ForwardAudio"
  by (auto simp: readAudio_def Let_def split: if_splits option.splits sum.splits prod.splits)

lemma sendAudioReturn_actions: "sendAudioReturn lib bs p = (p', acts) \<Longrightarrow> set acts \<subseteq> range SendAudio"
  by (auto simp: sendAudioReturn_def Let_def split: option.splits sum.splits prod.splits)

lemma sendRTCPKeepalive_actions: "sendRTCPKeepalive lib p = (p', acts) \<Longrightarrow> VideoStall \<notin> set acts"
  using sendRTCPKeepalive_hooks by fastforce

lemma sendRTCPKeepalive_keeps:
  "sendRTCPKeepalive lib p = (p', acts) \<Longrightarrow>
     videoStallTimeout p' = videoStallTimeout p \<and> onVideoStall p' = onVideoStall p \<and> lastVideoNanos p' = lastVideoNanos p"
  using sendRTCPKeepalive_hooks by (fastforce simp: sameHooks_def)

text \<open>One iteration raises the stall alarm once if it is a tick that finds a stall, else never.\<close>

lemma runInput_stall:
  assumes "runInput lib i r = (r', acts)"
  shows "count_list acts VideoStall =
       (if \<not> stallFired r \<and> (case i of KeepaliveTick now \<Rightarrow> stalledAt now (proxy r) | _ \<Rightarrow> False) then 1 else 0)
    \<and> (stallFired r' \<longleftrightarrow> stallFired r \<or> (case i of KeepaliveTick now \<Rightarrow> stalledAt now (proxy r) | _ \<Rightarrow> False))"
proof (cases "stopChClosed (proxy r)")
  case True
  then show ?thesis using assms by (auto simp: runInput_def stalledAt_def split: proxyInput.splits)
next
  case False
  show ?thesis
  proof (cases i)
    case (KeepaliveTick now)
    obtain q a where k: "sendRTCPKeepalive lib (proxy r) = (q, a)" by fastforce
    have none: "count_list a VideoStall = 0"
      using sendRTCPKeepalive_actions [OF k] by (simp add: count_list_0_iff)
    show ?thesis
      using assms KeepaliveTick False none sendRTCPKeepalive_keeps [OF k]
      by (auto simp: runInput_def keepaliveTick_def k stalledAt_def split: if_splits)
  next
    case KeepaliveStart
    then show ?thesis using assms False
      by (auto simp: runInput_def count_list_0_iff split: prod.splits if_splits dest: sendRTCPKeepalive_actions)
  next
    case (VideoIn d)
    then show ?thesis using assms False
      by (auto simp: runInput_def count_list_0_iff split: prod.splits dest: readVideo_no_stall)
  next
    case (AudioIn d)
    then show ?thesis using assms False
      by (auto simp: runInput_def count_list_0_iff split: prod.splits dest!: readAudio_actions)
  next
    case ReturnTick
    then show ?thesis using assms False
      by (auto simp: runInput_def count_list_0_iff split: prod.splits if_splits dest!: sendAudioReturn_actions)
  next
    case CloseCall
    then show ?thesis using assms False by (auto simp: runInput_def)
  qed
qed

text \<open>Some tick of the run finds the stream stalled.\<close>

fun ticksOnStall :: "'c pion \<Rightarrow> proxyInput list \<Rightarrow> 'c running \<Rightarrow> bool" where
  "ticksOnStall lib [] r = False"
| "ticksOnStall lib (i # is) r =
     ((case i of KeepaliveTick now \<Rightarrow> stalledAt now (proxy r) | _ \<Rightarrow> False)
      \<or> ticksOnStall lib is (fst (runInput lib i r)))"

text \<open>
  C23. The stall watchdog fires exactly when it should and at most once. Under every interleaving
  of datagrams, ticks and closing, the alarm is raised once if some tick finds that video was
  received before, but not within the timeout, and not at all otherwise.
\<close>

theorem stall_watchdog_exact:
  assumes "\<not> stallFired r" "runInputs lib is r = (r', acts)"
  shows "count_list acts VideoStall = (if ticksOnStall lib is r then 1 else 0)"
proof -
  have "count_list acts VideoStall = (if \<not> stallFired r \<and> ticksOnStall lib is r then 1 else 0)"
    using assms(2)
  proof (induction "is" arbitrary: r acts)
    case Nil
    then show ?case by simp
  next
    case (Cons i "is")
    obtain r1 a1 where s: "runInput lib i r = (r1, a1)" by fastforce
    obtain a2 where a: "runInputs lib is r1 = (r', a2)" "acts = a1 @ a2"
      using Cons.prems s by (auto simp: Let_def split: prod.splits)
    show ?case using Cons.IH [OF a(1)] runInput_stall [OF s] s a(2) by auto
  qed
  then show ?thesis using assms(1) by simp
qed

text \<open>The time stamp the watchdog reads is that of the last packet that entered frame assembly.\<close>

lemma readVideo_lastVideoNanos:
  assumes "readVideo lib d (p, l) = ((p', l'), acts)"
  shows "lastVideoNanos p' = (if decrypted acts = [] then lastVideoNanos p else recvTime d)"
  using assms
proof (cases rule: readVideo_cases)
  case (packet pkt ctx)
  then show ?thesis using videoPacket_decrypted videoPacket_hooks by fastforce
next
  case other
  then show ?thesis using no_frames [OF other(3)] by simp
qed

section \<open>The source filter\<close>

fun fromCamera :: "'c SRTPProxy \<Rightarrow> proxyInput \<Rightarrow> bool" where
  "fromCamera p (VideoIn d) = (\<not> foreign p (source d))"
| "fromCamera p (AudioIn d) = (\<not> foreign p (source d))"
| "fromCamera p _ = True"

text \<open>The counter of foreign datagrams is only ever written.\<close>

lemma trackSequence_foreign:
  "trackSequence pkt (p, l\<lparr>foreignDrops := k\<rparr>) = map_prod id (foreignDrops_update (\<lambda>_. k)) (trackSequence pkt (p, l))"
  by (simp add: trackSequence_def Let_def)

lemma frameBoundary_foreign:
  "frameBoundary pkt p (l\<lparr>foreignDrops := k\<rparr>) = map_prod (foreignDrops_update (\<lambda>_. k)) id (frameBoundary pkt p l)"
  by (simp add: frameBoundary_def flushFrame_def Let_def)

lemma bufferPacket_foreign:
  "bufferPacket pkt (l\<lparr>foreignDrops := k\<rparr>) = (bufferPacket pkt l)\<lparr>foreignDrops := k\<rparr>"
  by (simp add: bufferPacket_def Let_def)

lemma emitStats_foreign:
  "emitStats now p (l\<lparr>foreignDrops := k\<rparr>) = map_prod (foreignDrops_update (\<lambda>_. k)) id (emitStats now p l)"
  by (simp add: emitStats_def)

lemma frameEnd_foreign:
  "frameEnd pkt p (l\<lparr>foreignDrops := k\<rparr>) = map_prod (foreignDrops_update (\<lambda>_. k)) id (frameEnd pkt p l)"
  by (simp add: frameEnd_def flushFrame_def Let_def)

lemmas foreign_simps = trackSequence_foreign frameBoundary_foreign bufferPacket_foreign emitStats_foreign frameEnd_foreign

lemma videoPacket_foreign:
  "videoPacket now now2 pkt (p, l\<lparr>foreignDrops := k\<rparr>) =
     map_prod (map_prod id (foreignDrops_update (\<lambda>_. k))) id (videoPacket now now2 pkt (p, l))"
proof -
  define m where "m = l\<lparr>videoCount := videoCount l + 1\<rparr>"
  have m: "l\<lparr>foreignDrops := k, videoCount := videoCount (l\<lparr>foreignDrops := k\<rparr>) + 1\<rparr> = m\<lparr>foreignDrops := k\<rparr>"
    by (simp add: m_def)
  show ?thesis
    unfolding videoPacket_def Let_def split_conv m m_def [symmetric] trackSequence_foreign
    by (simp add: foreign_simps split: prod.splits)
qed


lemma readVideo_foreign:
  assumes "\<not> foreign p (source d)"
  shows "readVideo lib d (p, l\<lparr>foreignDrops := k\<rparr>) =
     map_prod (map_prod id (foreignDrops_update (\<lambda>_. k))) id (readVideo lib d (p, l))"
proof (cases "videoDecryptCtx p")
  case (Some ctx)
  obtain res c where d: "decryptRTP lib ctx (take 2048 (raw d)) = (res, c)" by fastforce
  obtain p' a where h: "handleVideoRTCP lib (take 2048 (raw d)) ctx p = (p', a)" by fastforce
  have "\<exists>e. res = Inl e \<or> (\<exists>dec. res = Inr dec \<and> (unmarshalRTP lib dec = Inl e \<or> (\<exists>pkt. unmarshalRTP lib dec = Inr pkt)))"
    by (metis sum.exhaust)
  then show ?thesis
    using assms Some by (auto simp: readVideo_def Let_def d h videoPacket_foreign)
qed (use assms in \<open>simp add: readVideo_def Let_def\<close>)

definition withoutForeign :: "'c running \<Rightarrow> 'c running" where
  "withoutForeign r = r\<lparr>vstate := (vstate r)\<lparr>foreignDrops := 0\<rparr>\<rparr>"

lemma proxy_withoutForeign [simp]: "proxy (withoutForeign r) = proxy r"
  by (simp add: withoutForeign_def)

lemma runInput_foreign:
  assumes "\<not> fromCamera (proxy r) i"
  shows "snd (runInput lib i r) = [] \<and> withoutForeign (fst (runInput lib i r)) = withoutForeign r"
proof (cases i)
  case (VideoIn d)
  then show ?thesis using assms by (simp add: runInput_def readVideo_def withoutForeign_def)
next
  case (AudioIn d)
  then show ?thesis using assms by (simp add: runInput_def readAudio_def)
qed (use assms in simp_all)

lemma runInput_withoutForeign:
  assumes "fromCamera (proxy r) i"
  shows "runInput lib i (withoutForeign r) = map_prod withoutForeign id (runInput lib i r)"
proof (cases "stopChClosed (proxy r)")
  case False
  then show ?thesis
  proof (cases i)
    case (VideoIn d)
    then show ?thesis using assms False
      by (simp add: runInput_def withoutForeign_def readVideo_foreign split: prod.split)
  qed (simp_all add: runInput_def withoutForeign_def split: prod.split)
qed (simp add: runInput_def)

lemma runInput_cameraAddr: "cameraAddr (proxy (fst (runInput lib i r))) = cameraAddr (proxy r)"
proof (cases i)
  case (VideoIn d)
  obtain p l a where v: "readVideo lib d (proxy r, vstate r) = ((p, l), a)" by (metis prod.collapse)
  then have "cameraAddr p = cameraAddr (proxy r)"
    by (cases rule: readVideo_cases) (auto simp: sameHooks_def dest!: videoPacket_hooks)
  then show ?thesis using VideoIn v by (simp add: runInput_def)
next
  case (AudioIn d)
  then show ?thesis
    by (auto simp: runInput_def readAudio_def Let_def split: option.split sum.split prod.split)
next
  case (KeepaliveTick now)
  obtain q a where k: "sendRTCPKeepalive lib (proxy r) = (q, a)" by fastforce
  then show ?thesis using KeepaliveTick sendRTCPKeepalive_hooks [OF k]
    by (auto simp: runInput_def keepaliveTick_def sameHooks_def)
next
  case KeepaliveStart
  obtain q a where k: "sendRTCPKeepalive lib (proxy r) = (q, a)" by fastforce
  then show ?thesis using KeepaliveStart sendRTCPKeepalive_hooks [OF k] by (auto simp: runInput_def sameHooks_def)
next
  case ReturnTick
  then show ?thesis by (auto simp: runInput_def sendAudioReturn_def Let_def split: option.split sum.split prod.split)
qed (simp add: runInput_def Close_def)

lemma fromCamera_cong: "cameraAddr p = cameraAddr q \<Longrightarrow> fromCamera p i = fromCamera q i"
  by (cases i) (simp_all add: foreign_def)

text \<open>
  Traffic from other hosts has no effect. Deleting every datagram that does not come from the
  camera's address leaves everything the proxy does (frames and audio forwarded, statistics,
  packets sent, stall alarms) and its final state the same, up to the counter of such datagrams.
\<close>

lemma foreign_traffic_ignored:
  "snd (runInputs lib is r) = snd (runInputs lib (filter (fromCamera (proxy r)) is) r)
   \<and> withoutForeign (fst (runInputs lib is r)) = withoutForeign (fst (runInputs lib (filter (fromCamera (proxy r)) is) r))"
proof -
  have "snd (runInputs lib is r) = snd (runInputs lib (filter (fromCamera (proxy s)) is) s)
      \<and> withoutForeign (fst (runInputs lib is r)) = withoutForeign (fst (runInputs lib (filter (fromCamera (proxy s)) is) s))"
    if "withoutForeign r = withoutForeign s" for r s
    using that
  proof (induction "is" arbitrary: r s)
    case (Cons i "is")
    have p: "proxy s = proxy r" using Cons.prems by (metis proxy_withoutForeign)
    have c: "cameraAddr (proxy (fst (runInput lib i s))) = cameraAddr (proxy s)" by (rule runInput_cameraAddr)
    then have f: "fromCamera (proxy (fst (runInput lib i s))) = fromCamera (proxy s)" using fromCamera_cong by blast
    show ?case
    proof (cases "fromCamera (proxy r) i")
      case True
      have "map_prod withoutForeign id (runInput lib i r) = map_prod withoutForeign id (runInput lib i s)"
        using runInput_withoutForeign True p Cons.prems by metis
      then have "withoutForeign (fst (runInput lib i r)) = withoutForeign (fst (runInput lib i s))"
        "snd (runInput lib i r) = snd (runInput lib i s)" by (simp_all add: map_prod_def split: prod.splits)
      then show ?thesis using Cons.IH [of "fst (runInput lib i r)" "fst (runInput lib i s)"] True p f
        by (auto simp: Let_def split: prod.split)
    next
      case False
      then show ?thesis using runInput_foreign [OF False, of lib] Cons.prems p
          Cons.IH [of "fst (runInput lib i r)" s] by (auto simp: Let_def split: prod.split)
    qed
  qed simp
  then show ?thesis by blast
qed

section \<open>Closing\<close>

text \<open>
  A closed proxy is silent and stays closed: after \<^verbatim>\<open>Close\<close>, whatever arrives, nothing is
  forwarded, sent or reported, and the state no longer changes; a second \<^verbatim>\<open>Close\<close> changes
  nothing either.
\<close>

lemma closed_proxy_silent:
  "runInputs lib is (r\<lparr>proxy := Close (proxy r)\<rparr>) = (r\<lparr>proxy := Close (proxy r)\<rparr>, [])"
proof -
  have "stopChClosed (proxy s) \<Longrightarrow> runInputs lib is s = (s, [])" for s
    by (induction "is") (simp_all add: runInput_def)
  then show ?thesis by (simp add: Close_def)
qed

section \<open>A worked run\<close>

definition watchedRun :: "unit running" where
  "watchedRun = \<lparr>proxy = (SetVideoStallCallback 5 plainProxy)\<lparr>cameraAddr := Some ([], 0), videoConn := Some 1\<rparr>,
     vstate = vloop0 0, stallFired = False\<rparr>"

theorem stall_watchdog_exact_witness:
  "count_list (snd (runInputs plainLib
     [KeepaliveTick 9, VideoIn (plainDatagram 10 True 5 1), KeepaliveTick 12, KeepaliveTick 20, KeepaliveTick 30]
     watchedRun)) VideoStall = 1"
proof -
  have "ticksOnStall plainLib
     [KeepaliveTick 9, VideoIn (plainDatagram 10 True 5 1), KeepaliveTick 12, KeepaliveTick 20, KeepaliveTick 30] watchedRun"
    by code_simp
  moreover have "\<not> stallFired watchedRun" by (simp add: watchedRun_def)
  ultimately show ?thesis
    using stall_watchdog_exact [OF _ prod.collapse [symmetric], of watchedRun plainLib] by (simp only: if_True not_False_eq_True)
qed

end
