(* ===== verification/H264.thy ===== *)
theory H264
  imports Rtp
begin

text \<open>
  H.264 payloads inside RTP (RFC 6184) as the code reads them: \<^verbatim>\<open>parseSTAPA\<close> of
  \<^verbatim>\<open>internal/stream/rtsp_server.go\<close> finds the parameter sets in an aggregation packet, and
  \<^verbatim>\<open>BuildIDRAnnexB\<close> of \<^verbatim>\<open>internal/stream/snapshotter.go\<close> turns cached packets back into a byte
  stream. Both are inverted against the packetisation a camera performs: aggregation
  (\<open>stapA\<close>) and fragmentation (\<open>fuA\<close>).
\<close>

section \<open>The code\<close>

type_synonym paramSets = "bytes option \<times> bytes option"

definition noteParam :: "bytes \<Rightarrow> paramSets \<Rightarrow> paramSets" where
  "noteParam nalu acc =
     (case nalu of
        [] \<Rightarrow> acc
      | b # _ \<Rightarrow>
          (if naluType b = 7 then (Some nalu, snd acc)
           else if naluType b = 8 then (fst acc, Some nalu) else acc))"

text \<open>The loop, on the bytes from \<open>offset\<close> on.\<close>

function parseSTAPALoop :: "bytes \<Rightarrow> paramSets \<Rightarrow> paramSets" where
  "parseSTAPALoop rest acc =
     (if 2 < length rest
      then let naluSize = unat (Uint16BE (take 2 rest)); body = drop 2 rest in
           if naluSize > length body then acc
           else parseSTAPALoop (drop naluSize body) (noteParam (take naluSize body) acc)
      else acc)"
  by auto
termination by (relation "measure (length \<circ> fst)") auto

declare parseSTAPALoop.simps [simp del]

definition parseSTAPA :: "bytes \<Rightarrow> paramSets" where
  "parseSTAPA pl = parseSTAPALoop (drop 1 pl) (None, None)"

definition startCode :: bytes where
  "startCode = [0, 0, 0, 1]"

text \<open>The loop over an aggregation packet of \<^verbatim>\<open>BuildIDRAnnexB\<close>.\<close>

function walkSTAPA :: "bytes \<Rightarrow> bytes \<Rightarrow> bytes" where
  "walkSTAPA pl out =
     (if 2 \<le> length pl
      then let size = 256 * unat (pl ! 0) + unat (pl ! 1); body = drop 2 pl in
           if size = 0 \<or> size > length body then out
           else walkSTAPA (drop size body) (out @ startCode @ take size body)
      else out)"
  by auto
termination by (relation "measure (length \<circ> fst)") auto

declare walkSTAPA.simps [simp del]

text \<open>One cached packet: the output so far and the NAL unit being reassembled.\<close>

definition annexBPacket :: "packet \<Rightarrow> bytes \<times> bytes \<Rightarrow> bytes \<times> bytes" where
  "annexBPacket pkt st =
     (let (out, fuPayload) = st in
      case payload pkt of
        [] \<Rightarrow> st
      | header # rest \<Rightarrow>
          (if 1 \<le> naluType header \<and> naluType header \<le> 23 then (out @ startCode @ payload pkt, fuPayload)
           else if naluType header = 24 then (walkSTAPA rest out, fuPayload)
           else if naluType header = 28
           then (case rest of
                   [] \<Rightarrow> st
                 | fuHeader # frag \<Rightarrow>
                     let fu0 = (if fuHeader AND 0x80 \<noteq> 0
                                then [(header AND 0xE0) OR (fuHeader AND 0x1F)] else fuPayload);
                         fu = fu0 @ frag
                     in if fuHeader AND 0x40 \<noteq> 0 \<and> fu \<noteq> [] then (out @ startCode @ fu, []) else (out, fu))
           else st))"

definition annexBParams :: "bytes \<Rightarrow> bytes \<Rightarrow> bytes" where
  "annexBParams sps pps =
     (if sps \<noteq> [] then startCode @ sps else []) @ (if pps \<noteq> [] then startCode @ pps else [])"

definition BuildIDRAnnexB :: "packet list \<Rightarrow> bytes \<Rightarrow> bytes \<Rightarrow> bytes" where
  "BuildIDRAnnexB idrCache sps pps = fst (fold annexBPacket idrCache (annexBParams sps pps, []))"

section \<open>Aggregation\<close>

definition stapUnit :: "bytes \<Rightarrow> bytes" where
  "stapUnit nalu = PutUint16BE (of_nat (length nalu)) @ nalu"

text \<open>An aggregation packet with header byte \<open>h\<close> (type 24).\<close>

definition stapA :: "byte \<Rightarrow> bytes list \<Rightarrow> bytes" where
  "stapA h nalus = h # concat (map stapUnit nalus)"

definition stapOk :: "bytes list \<Rightarrow> bool" where
  "stapOk nalus \<longleftrightarrow> (\<forall>n\<in>set nalus. n \<noteq> [] \<and> length n < 65536)"

lemma parseSTAPALoop_unit:
  assumes "nalu \<noteq> []" "length nalu < 65536"
  shows "parseSTAPALoop (stapUnit nalu @ rest) acc = parseSTAPALoop rest (noteParam nalu acc)"
proof -
  have "unat (of_nat (length nalu) :: u16) = length nalu" using assms(2) by simp
  moreover have "0 < length nalu" using assms(1) by simp
  ultimately show ?thesis
    by (subst parseSTAPALoop.simps) (simp add: stapUnit_def Let_def)
qed

text \<open>The last parameter set of a kind wins.\<close>

fun lastOfType :: "byte \<Rightarrow> bytes list \<Rightarrow> bytes option \<Rightarrow> bytes option" where
  "lastOfType t [] d = d"
| "lastOfType t (n # ns) d = lastOfType t ns (if n \<noteq> [] \<and> naluType (hd n) = t then Some n else d)"

lemma parseSTAPALoop_units:
  assumes "stapOk nalus"
  shows "parseSTAPALoop (concat (map stapUnit nalus)) acc = (lastOfType 7 nalus (fst acc), lastOfType 8 nalus (snd acc))"
  using assms
proof (induction nalus arbitrary: acc)
  case Nil
  then show ?case by (simp add: parseSTAPALoop.simps)
next
  case (Cons n ns)
  then have "n \<noteq> []" "length n < 65536" "stapOk ns" by (auto simp: stapOk_def)
  moreover from this(1) obtain b bs where "n = b # bs" by (cases n) auto
  ultimately show ?case by (auto simp: Cons.IH parseSTAPALoop_unit noteParam_def)
qed

text \<open>
  Parameter sets are found. On every well-formed aggregation packet \<^verbatim>\<open>parseSTAPA\<close> returns the
  last sequence parameter set and the last picture parameter set it contains, and nothing
  when there is none.
\<close>

lemma parseSTAPA_stapA:
  assumes "stapOk nalus"
  shows "parseSTAPA (stapA h nalus) = (lastOfType 7 nalus None, lastOfType 8 nalus None)"
  using parseSTAPALoop_units [OF assms] by (simp add: parseSTAPA_def stapA_def)

lemma parseSTAPA_stapA_witness:
  "parseSTAPA (stapA 0x78 [[0x67, 1, 2], [0x68, 3]]) = (Some [0x67, 1, 2], Some [0x68, 3])"
  using parseSTAPA_stapA [of "[[0x67, 1, 2], [0x68, 3]]" "0x78"] by (simp add: stapOk_def naluType_def)

lemma PutUint16BE_size:
  "256 * unat (PutUint16BE w ! 0) + unat (PutUint16BE w ! 1) = unat w"
proof -
  have w: "unat w < 65536" using unsigned_less [of w, where ?'a = nat] by simp
  have "PutUint16BE w = [ucast (drop_bit 8 w), ucast w]"
    by (simp add: PutUint16BE_def le_bytes_def upt_rec)
  moreover have "unat (ucast (drop_bit 8 w) :: byte) = unat w div 256"
    unfolding unsigned_ucast_eq unat_drop_bit_eq using w by (simp add: take_bit_eq_mod drop_bit_eq_div)
  moreover have "unat (ucast w :: byte) = unat w mod 256"
    by (simp add: unsigned_ucast_eq take_bit_eq_mod)
  ultimately show ?thesis by simp
qed

lemma walkSTAPA_unit:
  assumes "nalu \<noteq> []" "length nalu < 65536"
  shows "walkSTAPA (stapUnit nalu @ rest) out = walkSTAPA rest (out @ startCode @ nalu)"
proof -
  have n: "unat (of_nat (length nalu) :: u16) = length nalu" using assms(2) by simp
  have l: "length (PutUint16BE (of_nat (length nalu))) = 2" by simp
  then have "256 * unat ((stapUnit nalu @ rest) ! 0) + unat ((stapUnit nalu @ rest) ! 1) = length nalu"
    using PutUint16BE_size [of "of_nat (length nalu)"] n by (simp add: stapUnit_def nth_append)
  then show ?thesis
    using assms(1) by (subst walkSTAPA.simps) (simp add: stapUnit_def Let_def)
qed

definition annexB :: "bytes list \<Rightarrow> bytes" where
  "annexB nalus = concat (map (\<lambda>n. startCode @ n) nalus)"

lemma annexB_append [simp]: "annexB (ms @ ns) = annexB ms @ annexB ns"
  by (simp add: annexB_def)

lemma walkSTAPA_units:
  assumes "stapOk nalus"
  shows "walkSTAPA (concat (map stapUnit nalus)) out = out @ annexB nalus"
  using assms
proof (induction nalus arbitrary: out)
  case Nil
  then show ?case by (simp add: walkSTAPA.simps annexB_def)
next
  case (Cons n ns)
  then have "n \<noteq> []" "length n < 65536" "stapOk ns" by (auto simp: stapOk_def)
  then show ?case using Cons.IH by (simp add: walkSTAPA_unit annexB_def)
qed

section \<open>Fragmentation\<close>

text \<open>
  The fragments of a NAL unit with header byte \<open>h\<close>: each starts with the FU indicator (the
  importance bits of \<open>h\<close>, type 28) and the FU header (start bit, end bit, type of \<open>h\<close>).
\<close>

definition fuIndicator :: "byte \<Rightarrow> byte" where
  "fuIndicator h = (h AND 0xE0) OR 28"

definition fuHeader :: "bool \<Rightarrow> bool \<Rightarrow> byte \<Rightarrow> byte" where
  "fuHeader s e h = (if s then 0x80 else 0) OR (if e then 0x40 else 0) OR (h AND 0x1F)"

fun fuTail :: "byte \<Rightarrow> bytes list \<Rightarrow> bytes list" where
  "fuTail h [] = []"
| "fuTail h [c] = [fuIndicator h # fuHeader False True h # c]"
| "fuTail h (c # cs) = (fuIndicator h # fuHeader False False h # c) # fuTail h cs"

fun fuA :: "byte \<Rightarrow> bytes list \<Rightarrow> bytes list" where
  "fuA h [] = []"
| "fuA h (c # cs) = (fuIndicator h # fuHeader True False h # c) # fuTail h cs"

lemma fu_fields [simp]:
  "naluType (fuIndicator h) = 28"
  "fuIndicator h AND 0xE0 = h AND 0xE0"
  "fuHeader s e h AND 0x1F = h AND 0x1F"
  "fuHeader s e h AND 0x80 = (if s then 0x80 else 0)"
  "fuHeader s e h AND 0x40 = (if e then 0x40 else 0)"
  by (simp_all add: naluType_def fuIndicator_def fuHeader_def bit.conj_disj_distrib2 and.assoc)

lemma header_split [simp]: "(h AND 0xE0) OR (h AND 0x1F) = (h :: byte)"
proof -
  have "(255 :: byte) = - 1" by simp
  then have "h AND 255 = h" by (metis and.right_neutral)
  then show ?thesis by (simp flip: bit.conj_disj_distrib)
qed

lemma fold_fuTail:
  assumes "map payload pkts = fuTail h cs" "cs \<noteq> []" "fu \<noteq> []"
  shows "fold annexBPacket pkts (out, fu) = (out @ startCode @ fu @ concat cs, [])"
  using assms
proof (induction h cs arbitrary: pkts fu rule: fuTail.induct)
  case (2 h c)
  then show ?case by (auto simp: annexBPacket_def Let_def)
next
  case (3 h c d cs)
  then obtain p pkts' where p: "pkts = p # pkts'" "payload p = fuIndicator h # fuHeader False False h # c"
    "map payload pkts' = fuTail h (d # cs)" by (cases pkts) auto
  then show ?case using "3.IH" [OF p(3), of "fu @ c"] "3.prems" by (simp add: annexBPacket_def Let_def)
qed simp

lemma fold_fuA:
  assumes "map payload pkts = fuA h (c # d # cs)"
  shows "fold annexBPacket pkts (out, fu) = (out @ startCode @ h # concat (c # d # cs), [])"
proof -
  obtain p pkts' where p: "pkts = p # pkts'" "payload p = fuIndicator h # fuHeader True False h # c"
    "map payload pkts' = fuTail h (d # cs)" using assms by (cases pkts) auto
  then show ?thesis using fold_fuTail [OF p(3), of "h # c"] by (simp add: annexBPacket_def Let_def)
qed

lemma BuildIDRAnnexB_units:
  assumes "map payload pkts = stapA sh nalus # fuA h cs" "naluType sh = 24" "stapOk nalus"
    and "2 \<le> length cs" "sps \<noteq> []" "pps \<noteq> []"
  shows "BuildIDRAnnexB pkts sps pps = annexB ([sps, pps] @ nalus @ [h # concat cs])"
proof -
  obtain p pkts' where p: "pkts = p # pkts'" "payload p = stapA sh nalus" "map payload pkts' = fuA h cs"
    using assms(1) by (cases pkts) auto
  obtain c d cs' where cs: "cs = c # d # cs'" using assms(4) by (metis Suc_le_length_iff numeral_2_eq_2)
  have "annexBPacket p (out, fu) = (out @ annexB nalus, fu)" for out fu
    using p(2) assms(2,3) by (simp add: annexBPacket_def stapA_def walkSTAPA_units)
  then show ?thesis
    using p fold_fuA [of pkts' h c d cs'] cs assms(5,6)
    by (simp add: BuildIDRAnnexB_def annexBParams_def annexB_def)
qed

text \<open>
  C33. The snapshot bit stream is the picture. For the packets of an IDR access unit, an aggregation
  packet with the camera's NAL units followed by the fragments (at least two) of one more NAL
  unit \<open>h # concat cs\<close>, the byte stream handed to the H.264 decoder is the start-code delimited
  sequence of the parameter sets, the aggregated units and the reassembled unit.
\<close>

theorem BuildIDRAnnexB_access_unit:
  assumes "map payload pkts = stapA sh nalus # fuA h cs" "naluType sh = 24" "stapOk nalus"
    and "2 \<le> length cs" "sps \<noteq> []" "pps \<noteq> []"
  shows "BuildIDRAnnexB pkts sps pps = annexB ([sps, pps] @ nalus @ [h # concat cs])"
  using assms by (rule BuildIDRAnnexB_units)

theorem BuildIDRAnnexB_access_unit_witness:
  "BuildIDRAnnexB
     [\<lparr>marker = False, payloadType = 96, seqNum = 1, timestamp = 0, ssrc = 0, payload = stapA 0x78 [[0x67, 1], [0x68, 2]]\<rparr>,
      \<lparr>marker = False, payloadType = 96, seqNum = 2, timestamp = 0, ssrc = 0, payload = fuA 0x65 [[9], [8, 7]] ! 0\<rparr>,
      \<lparr>marker = True, payloadType = 96, seqNum = 3, timestamp = 0, ssrc = 0, payload = fuA 0x65 [[9], [8, 7]] ! 1\<rparr>]
     [0x67, 1] [0x68, 2]
   = annexB [[0x67, 1], [0x68, 2], [0x67, 1], [0x68, 2], [0x65, 9, 8, 7]]"
  by (subst BuildIDRAnnexB_access_unit [where sh = "0x78" and nalus = "[[0x67, 1], [0x68, 2]]" and h = "0x65" and cs = "[[9], [8, 7]]"])
     (simp_all add: stapOk_def naluType_def)

end
