(* ===== verification/Float64.thy ===== *)
theory Float64
  imports Prelude "HOL-Library.Log_Nat" Complex_Main
begin

text \<open>
  The part of Go's \<^verbatim>\<open>float64\<close> arithmetic the code uses: conversion of integers, quotients and
  products of non-negative numbers, comparison, and conversion back to an integer. A finite
  non-negative \<^verbatim>\<open>float64\<close> is the rational it denotes; an operation is the exact rational
  operation followed by IEEE 754 rounding to 53 significant bits, to nearest with ties to even.
  The values that occur (durations in seconds, packet ratios) are far from the range's ends,
  so neither infinities nor subnormal numbers are represented.
\<close>

definition pow2 :: "int \<Rightarrow> rat" where
  "pow2 e = (if 0 \<le> e then 2 ^ nat e else 1 / 2 ^ nat (- e))"

text \<open>The exponent \<open>e\<close> with $2^e \le x < 2^{e+1}$, for positive \<open>x\<close>.\<close>

definition exponent :: "rat \<Rightarrow> int" where
  "exponent x =
     (let (n, d) = quotient_of x; k = bitlen n - bitlen d in if pow2 k \<le> x then k else k - 1)"

definition roundHalfEven :: "rat \<Rightarrow> int" where
  "roundHalfEven x =
     (let f = \<lfloor>x\<rfloor>; r = x - of_int f in
      if r < 1 / 2 then f else if r > 1 / 2 then f + 1 else if even f then f else f + 1)"

definition roundFloat64 :: "rat \<Rightarrow> rat" where
  "roundFloat64 x =
     (if x \<le> 0 then 0
      else let s = exponent x - 52 in of_int (roundHalfEven (x / pow2 s)) * pow2 s)"

text \<open>
  Conversion to \<^verbatim>\<open>uint32\<close> truncates when the value fits; otherwise the Go specification leaves the
  result to the implementation, which is the argument \<open>wide\<close>.
\<close>

definition float64ToUint32 :: "(rat \<Rightarrow> u32) \<Rightarrow> rat \<Rightarrow> u32" where
  "float64ToUint32 wide x = (if 0 \<le> x \<and> x < 2 ^ 32 then of_int \<lfloor>x\<rfloor> else wide x)"

text \<open>\<^verbatim>\<open>time.Duration.Seconds\<close> for a non-negative duration in nanoseconds.\<close>

definition Seconds :: "int \<Rightarrow> rat" where
  "Seconds d = roundFloat64 (roundFloat64 (of_int (d div 1000000000))
     + roundFloat64 (roundFloat64 (of_int (d mod 1000000000)) / 1000000000))"

section \<open>Rounding\<close>

lemma roundHalfEven_error: "\<bar>of_int (roundHalfEven x) - x\<bar> \<le> 1 / 2"
  using floor_correct [of x] by (auto simp: roundHalfEven_def Let_def)

lemma roundHalfEven_int [simp]: "roundHalfEven (of_int n) = n"
  by (simp add: roundHalfEven_def)

lemma roundHalfEven_mono: "x \<le> y \<Longrightarrow> roundHalfEven x \<le> roundHalfEven y"
proof -
  assume xy: "x \<le> y"
  then have f: "\<lfloor>x\<rfloor> \<le> \<lfloor>y\<rfloor>" by (rule floor_mono)
  show ?thesis
  proof (cases "\<lfloor>x\<rfloor> = \<lfloor>y\<rfloor>")
    case True
    then show ?thesis using xy by (auto simp: roundHalfEven_def Let_def)
  next
    case False
    then have "\<lfloor>x\<rfloor> + 1 \<le> \<lfloor>y\<rfloor>" using f by linarith
    moreover have "roundHalfEven x \<le> \<lfloor>x\<rfloor> + 1" "\<lfloor>y\<rfloor> \<le> roundHalfEven y" by (auto simp: roundHalfEven_def Let_def)
    ultimately show ?thesis by linarith
  qed
qed

lemma pow2_pos [simp]: "0 < pow2 e"
  by (simp add: pow2_def)

lemma pow2_nonzero [simp]: "pow2 e \<noteq> 0"
  by (simp add: pow2_def)

lemma pow2_add: "pow2 (a + b) = pow2 a * pow2 b"
proof -
  have p: "pow2 e = 2 powi e" for e by (simp add: pow2_def power_int_def inverse_eq_divide power_divide)
  show ?thesis by (simp add: p power_int_add)
qed

lemma pow2_mono: "a \<le> b \<Longrightarrow> pow2 a \<le> pow2 b"
proof -
  assume "a \<le> b"
  then have "1 \<le> pow2 (b - a)" by (simp add: pow2_def)
  then have "pow2 a * 1 \<le> pow2 a * pow2 (b - a)" by (intro mult_left_mono) (simp_all add: less_imp_le)
  then show ?thesis by (simp flip: pow2_add)
qed

lemma bitlen_bounds_pow2:
  assumes "0 < n"
  shows "pow2 (bitlen n - 1) \<le> of_int n" "of_int n < pow2 (bitlen n)"
proof -
  have "1 \<le> bitlen n" using assms by (metis bitlen_le_iff_power linorder_not_less not_one_less_zero power_0 nat_0 zless_imp_add1_zle add_0 int_one_le_iff_zero_less bitlen_nonneg le_less bitlen_eq_zero_iff)
  then show "pow2 (bitlen n - 1) \<le> of_int n" "of_int n < pow2 (bitlen n)"
    using bitlen_bounds [OF assms] by (simp_all add: pow2_def flip: of_int_power_le_of_int_cancel_iff) 
qed

lemma exponent_bounds:
  assumes "0 < x"
  shows "pow2 (exponent x) \<le> x" "x < pow2 (exponent x + 1)"
proof -
  obtain n d where q: "quotient_of x = (n, d)" by fastforce
  then have d: "0 < d" and x: "x = of_int n / of_int d"
    using quotient_of_denom_pos quotient_of_div by blast+
  then have n: "0 < n" using assms by (simp add: zero_less_divide_iff)
  define k where "k = bitlen n - bitlen d"
  note N = bitlen_bounds_pow2 [OF n] and D = bitlen_bounds_pow2 [OF d]
  have "of_int n < pow2 (k + 1) * pow2 (bitlen d - 1)" using N(2) by (simp add: k_def flip: pow2_add)
  also have "\<dots> \<le> pow2 (k + 1) * of_int d" using D(1) by (simp add: mult_left_mono less_imp_le)
  finally have up: "x < pow2 (k + 1)" using d x by (simp add: divide_less_eq)
  have "pow2 (k - 1) * of_int d < pow2 (k - 1) * pow2 (bitlen d)" using D(2) by simp
  also have "\<dots> = pow2 (bitlen n - 1)" by (simp add: k_def flip: pow2_add)
  finally have "pow2 (k - 1) * of_int d < of_int n" using N(1) by linarith
  then have lo: "pow2 (k - 1) < x" using d x by (simp add: less_divide_eq)
  have "exponent x = (if pow2 k \<le> x then k else k - 1)" by (simp add: exponent_def q k_def)
  then show "pow2 (exponent x) \<le> x" "x < pow2 (exponent x + 1)" using up lo by (auto split: if_splits)
qed

text \<open>Rounding changes a number by at most one part in $2^{53}$.\<close>

lemma roundFloat64_error:
  assumes "0 \<le> x"
  shows "\<bar>roundFloat64 x - x\<bar> \<le> x / 2 ^ 53"
proof (cases "x = 0")
  case False
  then have pos: "0 < x" using assms by simp
  define s where "s = exponent x - 52"
  define m :: rat where "m = of_int (roundHalfEven (x / pow2 s))"
  have "roundFloat64 x - x = (m - x / pow2 s) * pow2 s"
    using pos pow2_pos [of s] by (simp add: roundFloat64_def m_def s_def [symmetric] left_diff_distrib)
  then have "\<bar>roundFloat64 x - x\<bar> = \<bar>m - x / pow2 s\<bar> * pow2 s" by (simp add: abs_mult less_imp_le)
  also have "\<dots> \<le> (1 / 2) * pow2 s"
    unfolding m_def by (rule mult_right_mono [OF roundHalfEven_error]) (simp add: less_imp_le)
  finally have "\<bar>roundFloat64 x - x\<bar> \<le> pow2 s / 2" by simp
  moreover have "pow2 s * 2 ^ 52 \<le> x"
    using exponent_bounds(1) [OF pos] pow2_add [of s 52] by (simp add: s_def pow2_def [of 52])
  ultimately show ?thesis by simp
qed (simp add: roundFloat64_def)

lemma roundFloat64_bounds:
  assumes "0 \<le> x"
  shows "x - x / 2 ^ 53 \<le> roundFloat64 x" "roundFloat64 x \<le> x + x / 2 ^ 53" "0 \<le> roundFloat64 x"
proof -
  show "x - x / 2 ^ 53 \<le> roundFloat64 x" "roundFloat64 x \<le> x + x / 2 ^ 53"
    using roundFloat64_error [OF assms] by linarith+
  moreover have "0 \<le> x - x / 2 ^ 53" using assms by simp
  ultimately show "0 \<le> roundFloat64 x" by linarith
qed

text \<open>Integers below $2^{53}$ are exact.\<close>

lemma roundFloat64_of_int:
  assumes "0 \<le> n" "n < 2 ^ 53"
  shows "roundFloat64 (of_int n) = of_int n"
proof (cases "n = 0")
  case False
  then have pos: "0 < (of_int n :: rat)" using assms by simp
  define s where "s = exponent (of_int n) - 52"
  have "pow2 (exponent (of_int n)) < pow2 53"
    using exponent_bounds(1) [OF pos] assms(2) by (simp add: pow2_def [of 53])
  then have "s \<le> 0" using pow2_mono [of 53 "exponent (of_int n)"] by (fastforce simp: s_def)
  then have "of_int n / pow2 s = of_int (n * 2 ^ nat (- s))" by (simp add: pow2_def)
  then have "roundHalfEven (of_int n / pow2 s) = n * 2 ^ nat (- s)" by (metis roundHalfEven_int)
  then show ?thesis
    using pos \<open>s \<le> 0\<close> by (simp add: roundFloat64_def s_def [symmetric]) (simp add: pow2_def)
qed (simp add: roundFloat64_def)

lemma two_roundings:
  fixes r z u :: rat
  assumes "0 \<le> u" "u - u / 2 ^ 53 \<le> z" "z \<le> u + u / 2 ^ 53" "z - z / 2 ^ 53 \<le> r" "r \<le> z + z / 2 ^ 53"
  shows "\<bar>r - u\<bar> \<le> u / 2 ^ 51"
proof -
  define e :: rat where "e = 1 / 2 ^ 53"
  have e: "0 \<le> e" "e \<le> 1" by (simp_all add: e_def)
  have z: "u * (1 - e) \<le> z" "z \<le> u * (1 + e)" and r: "z * (1 - e) \<le> r" "r \<le> z * (1 + e)"
    using assms(2-) by (simp_all add: e_def algebra_simps)
  define v w where "v = u * e" and "w = u * (e * e)"
  have "r \<le> u * (1 + e) * (1 + e)" using r(2) mult_right_mono [OF z(2), of "1 + e"] e by linarith
  then have up: "r \<le> u + 2 * v + w" by (simp add: v_def w_def algebra_simps)
  have "u * (1 - e) * (1 - e) \<le> r" using r(1) mult_right_mono [OF z(1), of "1 - e"] e by linarith
  then have lo: "u - 2 * v + w \<le> r" by (simp add: v_def w_def algebra_simps)
  have "w \<le> v" unfolding v_def w_def using e assms(1) by (intro mult_left_mono mult_left_le) simp_all
  moreover have "0 \<le> w" "0 \<le> v" using e assms(1) by (simp_all add: v_def w_def)
  moreover have "u / 2 ^ 51 = 4 * v" by (simp add: e_def v_def)
  ultimately show ?thesis using up lo by linarith
qed

text \<open>
  A duration below $2^{53}$ nanoseconds (104 days) is converted to seconds with a relative
  error of at most $2^{-51}$.
\<close>

lemma Seconds_bounds:
  assumes "0 \<le> d" "d < 2 ^ 53"
  shows "\<bar>Seconds d - of_int d / 1000000000\<bar> \<le> (of_int d / 1000000000) / 2 ^ 51"
proof -
  define s n where "s = d div 1000000000" and "n = d mod 1000000000"
  have d: "d = s * 1000000000 + n" by (simp add: s_def n_def)
  have n: "0 \<le> n" "n < 1000000000" by (simp_all add: n_def)
  have s: "0 \<le> s" using assms by (simp add: s_def pos_imp_zdiv_nonneg_iff)
  have "s \<le> d" using d s n by linarith
  then have es: "roundFloat64 (of_int s) = of_int s" and en: "roundFloat64 (of_int n) = of_int n"
    using s n assms by (intro roundFloat64_of_int; simp)+
  define x :: rat where "x = of_int n / 1000000000"
  define y where "y = roundFloat64 x"
  have x: "0 \<le> x" using n by (simp add: x_def)
  have y: "x - x / 2 ^ 53 \<le> y" "y \<le> x + x / 2 ^ 53" "0 \<le> y" using roundFloat64_bounds [OF x] by (simp_all add: y_def)
  define z where "z = of_int s + y"
  have z: "0 \<le> z" using s y by (simp add: z_def)
  have sec: "Seconds d = roundFloat64 z"
    by (simp add: Seconds_def s_def [symmetric] n_def [symmetric] es en z_def y_def x_def)
  have t: "of_int d / 1000000000 = of_int s + x" unfolding d x_def by (simp add: add_divide_distrib)
  have s': "0 \<le> (of_int s :: rat)" using s by simp
  have zt: "(of_int s + x) - (of_int s + x) / 2 ^ 53 \<le> z" "z \<le> (of_int s + x) + (of_int s + x) / 2 ^ 53"
    using y s' x by (simp_all add: z_def add_divide_distrib)
  define u where "u = of_int s + x"
  have u: "0 \<le> u" using s' x by (simp add: u_def)
  show ?thesis
    unfolding t sec u_def [symmetric]
    by (rule two_roundings [OF u zt [folded u_def] roundFloat64_bounds(1,2) [OF z]])
qed

end
