(* ===== verification/Rtsp_Server.thy ===== *)
theory Rtsp_Server
  imports H264 Float64
begin

text \<open>
  The RTSP server of \<^verbatim>\<open>internal/stream/rtsp_server.go\<close>: renumbering of the camera's video packets into
  one continuous stream across camera restarts, the cache of the last IDR picture and its replay to
  late-joining clients, parameter-set extraction, and the audio path.

  What the server hands to gortsplib (\<^verbatim>\<open>WritePacketRTP\<close>) and the snapshot refreshes it starts are
  listed as outputs. The transcoder is a function argument: its state, one AAC-ELD frame, and the
  new state with an error, nothing yet, or an AAC-LC frame. Channels \<^verbatim>\<open>idrReady\<close> are numbered, the
  closed ones listed. Log output is left out.
\<close>

datatype rtspOut =
    VideoOut packet
  | AudioOut packet
  | RefreshSnapshot "packet list" bytes bytes

type_synonym 't transcode = "'t \<Rightarrow> bytes \<Rightarrow> 't \<times> bytes option result"

record 't RTSPServer =
  streamOpen :: bool
  serverSet :: bool
  hasAudioMedia :: bool
  spsParam :: "bytes option"
  ppsParam :: "bytes option"
  audioPT :: byte
  rtspVideoCount :: u64
  gotParams :: bool
  videoSeq :: u16
  videoSeqInited :: bool
  videoTSBase :: u32
  videoTSOffset :: u32
  lastVideoTS :: u32
  lastVideoTime :: int
  idrCache :: "packet list"
  idrPending :: "packet list"
  idrReady :: nat
  closedChans :: "nat list"
  collectingIDR :: bool
  transcoder :: "'t option"
  audioSeq :: u16
  snapshotter :: bool
  snapshotterOpen :: bool

abbreviation videoPT :: byte where "videoPT \<equiv> 96"

section \<open>Construction\<close>

record RTSPServerConfig =
  HasAudio :: bool
  AudioCodec :: string
  SampleRate :: int
  AudioGain :: int

definition effectiveSampleRate :: "RTSPServerConfig \<Rightarrow> int" where
  "effectiveSampleRate cfg = (if SampleRate cfg = 0 then 16000 else SampleRate cfg)"

definition eldASC :: "int \<Rightarrow> string" where
  "eldASC sampleRate =
     (if sampleRate = 24000 then ''F8EC2000'' else if sampleRate = 8000 then ''F8F82000'' else ''F8F02000'')"

text \<open>
  \<open>snap\<close> tells whether \<^verbatim>\<open>NewSnapshotter\<close> succeeded, \<open>newTranscoder\<close> is \<^verbatim>\<open>NewAudioTranscoder\<close>. When the
  transcoder cannot be created, the audio media is still added, with no format.
\<close>

definition NewRTSPServer ::
  "bool \<Rightarrow> (int \<Rightarrow> string \<Rightarrow> int \<Rightarrow> 't result) \<Rightarrow> RTSPServerConfig \<Rightarrow> 't RTSPServer" where
  "NewRTSPServer snap newTranscoder cfg =
     (let tc = (if HasAudio cfg \<and> AudioCodec cfg \<noteq> ''opus''
                then newTranscoder (effectiveSampleRate cfg) (eldASC (effectiveSampleRate cfg)) (AudioGain cfg)
                else Inl [])
      in \<lparr>streamOpen = False, serverSet = False, hasAudioMedia = HasAudio cfg, spsParam = None, ppsParam = None,
          audioPT = (if HasAudio cfg \<and> (AudioCodec cfg = ''opus'' \<or> (case tc of Inl _ \<Rightarrow> False | Inr _ \<Rightarrow> True)) then 97 else 0),
          rtspVideoCount = 0, gotParams = False, videoSeq = 0, videoSeqInited = False, videoTSBase = 0,
          videoTSOffset = 0, lastVideoTS = 0, lastVideoTime = 0, idrCache = [], idrPending = [], idrReady = 0,
          closedChans = [], collectingIDR = False,
          transcoder = (case tc of Inl _ \<Rightarrow> None | Inr t \<Rightarrow> Some t),
          audioSeq = 0, snapshotter = snap, snapshotterOpen = snap\<rparr>)"

definition StartServer :: "unit result \<Rightarrow> unit result \<Rightarrow> 't RTSPServer \<Rightarrow> 't RTSPServer \<times> unit result" where
  "StartServer listenRes initRes s =
     (case listenRes of
        Inl e \<Rightarrow> (s\<lparr>serverSet := True\<rparr>, Inl (''start RTSP server: '' @ e))
      | Inr _ \<Rightarrow>
          (case initRes of
             Inl e \<Rightarrow> (s\<lparr>serverSet := True, streamOpen := True\<rparr>, Inl (''initialize server stream: '' @ e))
           | Inr _ \<Rightarrow> (s\<lparr>serverSet := True, streamOpen := True\<rparr>, Inr ())))"

definition StopServer :: "'t RTSPServer \<Rightarrow> 't RTSPServer" where
  "StopServer s = s\<lparr>transcoder := None, snapshotterOpen := False, streamOpen := False\<rparr>"

section \<open>The IDR cache\<close>

definition signalReady :: "'t RTSPServer \<Rightarrow> 't RTSPServer" where
  "signalReady s =
     (if idrReady s \<in> set (closedChans s) then s else s\<lparr>closedChans := idrReady s # closedChans s\<rparr>)"

definition cacheIDRPacket :: "packet \<Rightarrow> 't RTSPServer \<Rightarrow> 't RTSPServer \<times> rtspOut list" where
  "cacheIDRPacket pkt s =
     (case payload pkt of
        [] \<Rightarrow> (s, [])
      | b # rest \<Rightarrow>
          (if naluType b = 24 then (s\<lparr>idrPending := [clonePacket pkt], collectingIDR := False\<rparr>, [])
           else if naluType b = 28
           then (case rest of
                   [] \<Rightarrow> (s, [])
                 | fu # _ \<Rightarrow>
                     (if fu AND 0x80 \<noteq> 0 \<and> fu AND 0x1F = 5
                      then (s\<lparr>collectingIDR := True, idrPending := idrPending s @ [clonePacket pkt]\<rparr>, [])
                      else if collectingIDR s
                      then let s1 = s\<lparr>idrPending := idrPending s @ [clonePacket pkt]\<rparr> in
                           if marker pkt
                           then let s2 = signalReady (s1\<lparr>idrCache := idrPending s1, idrPending := [], collectingIDR := False\<rparr>) in
                                (s2, if snapshotter s2 \<and> gotParams s2
                                     then [RefreshSnapshot (idrCache s2) (case spsParam s2 of None \<Rightarrow> [] | Some b \<Rightarrow> b)
                                             (case ppsParam s2 of None \<Rightarrow> [] | Some b \<Rightarrow> b)]
                                     else [])
                           else (s1, [])
                      else (s, [])))
           else (s, [])))"

section \<open>Video\<close>

text \<open>
  The jump of the output clock over a camera restart, in 90 kHz ticks; \<open>wide\<close> is the
  platform's conversion of a float that does not fit into 32 bits.
\<close>

definition restartGap :: "(rat \<Rightarrow> u32) \<Rightarrow> int \<Rightarrow> u32" where
  "restartGap wide elapsed =
     (let gap = float64ToUint32 wide (roundFloat64 (Seconds elapsed * 90000)) in if gap < 4500 then 4500 else gap)"

definition ResetVideoRTP :: "(rat \<Rightarrow> u32) \<Rightarrow> int \<Rightarrow> 't RTSPServer \<Rightarrow> 't RTSPServer" where
  "ResetVideoRTP wide now s =
     (let s1 = (if videoSeqInited s
                then s\<lparr>videoTSOffset := lastVideoTS s + restartGap wide (now - lastVideoTime s)\<rparr> else s)
      in s1\<lparr>videoSeqInited := False, idrCache := [], idrPending := [], collectingIDR := False, idrReady := idrReady s + 1\<rparr>)"

definition normalizeVideoRTP :: "int \<Rightarrow> packet \<Rightarrow> 't RTSPServer \<Rightarrow> 't RTSPServer \<times> packet" where
  "normalizeVideoRTP now pkt s =
     (let cameraTS = timestamp pkt;
          s1 = (if videoSeqInited s then s else s\<lparr>videoTSBase := cameraTS, videoSeqInited := True\<rparr>);
          pkt' = pkt\<lparr>seqNum := videoSeq s1, timestamp := videoTSOffset s1 + (cameraTS - videoTSBase s1)\<rparr>
      in (s1\<lparr>videoSeq := videoSeq s1 + 1, lastVideoTS := timestamp pkt', lastVideoTime := now\<rparr>, pkt'))"

definition extractSPSPPS :: "bytes \<Rightarrow> 't RTSPServer \<Rightarrow> 't RTSPServer" where
  "extractSPSPPS pl s =
     (case pl of
        [] \<Rightarrow> s
      | b # _ \<Rightarrow>
          (if naluType b \<in> {7, 8, 24}
           then let (sps, pps) = (if naluType b = 7 then (Some pl, None)
                                  else if naluType b = 8 then (None, Some pl) else parseSTAPA pl);
                    existingSPS = (case sps of Some x \<Rightarrow> Some x | None \<Rightarrow> spsParam s);
                    existingPPS = (case pps of Some x \<Rightarrow> Some x | None \<Rightarrow> ppsParam s)
                in (if existingSPS \<noteq> None \<and> existingPPS \<noteq> None
                    then s\<lparr>spsParam := existingSPS, ppsParam := existingPPS, gotParams := True\<rparr> else s)
           else s))"

definition maybeExtract :: "packet \<Rightarrow> 't RTSPServer \<Rightarrow> 't RTSPServer" where
  "maybeExtract pkt s = (if gotParams s then s else extractSPSPPS (payload pkt) s)"

definition CacheOnlyVideoPacket :: "packet \<Rightarrow> 't RTSPServer \<Rightarrow> 't RTSPServer \<times> rtspOut list" where
  "CacheOnlyVideoPacket pkt s = cacheIDRPacket pkt (maybeExtract pkt s)"

definition WriteVideoPacket :: "int \<Rightarrow> packet \<Rightarrow> 't RTSPServer \<Rightarrow> 't RTSPServer \<times> rtspOut list" where
  "WriteVideoPacket now pkt0 s =
     (if \<not> streamOpen s then (s, [])
      else let pkt1 = pkt0\<lparr>payloadType := videoPT\<rparr>;
               (s1, pkt) = normalizeVideoRTP now pkt1 (maybeExtract pkt1 s);
               (s2, out) = cacheIDRPacket pkt s1
           in (s2\<lparr>rtspVideoCount := rtspVideoCount s2 + 1\<rparr>, out @ [VideoOut pkt]))"

section \<open>Audio\<close>

definition auPayload :: "bytes \<Rightarrow> bytes" where
  "auPayload rawLC = PutUint16BE 16 @ PutUint16BE (push_bit 3 (of_nat (length rawLC))) @ rawLC"

definition WriteAudioPacket :: "'t transcode \<Rightarrow> packet \<Rightarrow> 't RTSPServer \<Rightarrow> 't RTSPServer \<times> rtspOut list" where
  "WriteAudioPacket tc pkt0 s =
     (if \<not> streamOpen s \<or> \<not> hasAudioMedia s then (s, [])
      else let pkt = pkt0\<lparr>payloadType := audioPT s\<rparr> in
           case transcoder s of
             None \<Rightarrow> (s, [AudioOut pkt])
           | Some t \<Rightarrow>
               (if 4 < length (payload pkt)
                then (case tc t (drop 4 (payload pkt)) of
                        (t', Inl _) \<Rightarrow> (s\<lparr>transcoder := Some t'\<rparr>, [])
                      | (t', Inr None) \<Rightarrow> (s\<lparr>transcoder := Some t'\<rparr>, [])
                      | (t', Inr (Some rawLC)) \<Rightarrow>
                          let s1 = s\<lparr>transcoder := Some t', audioSeq := audioSeq s + 1\<rparr> in
                          (s1, [AudioOut (pkt\<lparr>payload := auPayload rawLC, seqNum := audioSeq s,
                                  timestamp := ucast (audioSeq s1 - 1) * 1024, marker := True\<rparr>)]))
                else (s, [AudioOut pkt])))"

section \<open>Joining clients\<close>

fun injectPackets :: "u32 \<Rightarrow> packet list \<Rightarrow> 't RTSPServer \<Rightarrow> 't RTSPServer \<times> rtspOut list" where
  "injectPackets ts [] s = (s, [])"
| "injectPackets ts (c # cs) s =
     (let clone = (clonePacket c)\<lparr>seqNum := videoSeq s, timestamp := ts, payloadType := videoPT\<rparr>;
          (s', out) = injectPackets ts cs (s\<lparr>videoSeq := videoSeq s + 1\<rparr>)
      in (s', VideoOut clone # out))"

definition injectIDR :: "'t RTSPServer \<Rightarrow> 't RTSPServer \<times> rtspOut list" where
  "injectIDR s = (if streamOpen s then injectPackets (lastVideoTS s + 1) (idrCache s) s else (s, []))"

text \<open>
  The goroutine of \<^verbatim>\<open>OnPlay\<close>: \<open>Connecting\<close> until \<^verbatim>\<open>ClientConnected\<close> returns, then it waits for the
  channel that \<^verbatim>\<open>idrReady\<close> holds at that moment, for at most ten seconds.
\<close>

datatype player = Connecting | Waiting nat | Playing | SessionClosed

datatype playerEvent = ConnectReturned "bool result" | IDRSignal | WaitTimeout

definition OnPlay :: "playerEvent \<Rightarrow> player \<Rightarrow> 't RTSPServer \<Rightarrow> (player \<times> 't RTSPServer \<times> rtspOut list) option" where
  "OnPlay ev pl s =
     (case (pl, ev) of
        (Connecting, ConnectReturned (Inl _)) \<Rightarrow> Some (SessionClosed, s, [])
      | (Connecting, ConnectReturned (Inr _)) \<Rightarrow> Some (Waiting (idrReady s), s, [])
      | (Waiting ch, IDRSignal) \<Rightarrow>
          (if ch \<in> set (closedChans s) then (case injectIDR s of (s', out) \<Rightarrow> Some (Playing, s', out)) else None)
      | (Waiting ch, WaitTimeout) \<Rightarrow> Some (SessionClosed, s, [])
      | _ \<Rightarrow> None)"

section \<open>All operations together\<close>

datatype rtspEvent =
    WriteVideo int packet
  | CacheOnly packet
  | ResetVideo int
  | WriteAudio packet
  | InjectIDR
  | Stop

fun rtspStep :: "(rat \<Rightarrow> u32) \<Rightarrow> 't transcode \<Rightarrow> rtspEvent \<Rightarrow> 't RTSPServer \<Rightarrow> 't RTSPServer \<times> rtspOut list" where
  "rtspStep wide tc (WriteVideo now pkt) s = WriteVideoPacket now pkt s"
| "rtspStep wide tc (CacheOnly pkt) s = CacheOnlyVideoPacket pkt s"
| "rtspStep wide tc (ResetVideo now) s = (ResetVideoRTP wide now s, [])"
| "rtspStep wide tc (WriteAudio pkt) s = WriteAudioPacket tc pkt s"
| "rtspStep wide tc InjectIDR s = injectIDR s"
| "rtspStep wide tc Stop s = (StopServer s, [])"

end
