(* ===== verification/Rtsp_Props.thy ===== *)
theory Rtsp_Props
  imports Rtsp_Server
begin

text \<open>
  What the RTSP server guarantees its clients: one consecutive sequence of video packets over all
  sources, timestamps that follow the camera's, a forward jump at a camera restart, and a
  cached IDR picture that is exactly the camera's.
\<close>

section \<open>Sequence numbers\<close>

fun videoOut :: "rtspOut list \<Rightarrow> packet list" where
  "videoOut [] = []"
| "videoOut (VideoOut p # os) = p # videoOut os"
| "videoOut (_ # os) = videoOut os"

lemma videoOut_append [simp]: "videoOut (xs @ ys) = videoOut xs @ videoOut ys"
  by (induction xs rule: videoOut.induct) auto

definition videoAct :: "(rat \<Rightarrow> u32) \<Rightarrow> 't transcode \<Rightarrow> rtspEvent \<Rightarrow> 't RTSPServer \<Rightarrow> 't RTSPServer \<times> packet list" where
  "videoAct wide tc e s = map_prod id videoOut (rtspStep wide tc e s)"

lemma cacheIDRPacket_seq:
  "cacheIDRPacket pkt s = (s', out) \<Longrightarrow>
     videoSeq s' = videoSeq s \<and> videoOut out = [] \<and> videoSeqInited s' = videoSeqInited s \<and> videoTSBase s' = videoTSBase s
     \<and> videoTSOffset s' = videoTSOffset s \<and> lastVideoTS s' = lastVideoTS s \<and> lastVideoTime s' = lastVideoTime s
     \<and> streamOpen s' = streamOpen s \<and> idrReady s' = idrReady s \<and> gotParams s' = gotParams s
     \<and> spsParam s' = spsParam s \<and> ppsParam s' = ppsParam s \<and> snapshotter s' = snapshotter s"
  by (auto simp: cacheIDRPacket_def signalReady_def Let_def split: list.splits if_splits)

lemma maybeExtract_seq:
  "videoSeq (maybeExtract pkt s) = videoSeq s" "videoSeqInited (maybeExtract pkt s) = videoSeqInited s"
  "videoTSBase (maybeExtract pkt s) = videoTSBase s" "videoTSOffset (maybeExtract pkt s) = videoTSOffset s"
  "lastVideoTS (maybeExtract pkt s) = lastVideoTS s" "lastVideoTime (maybeExtract pkt s) = lastVideoTime s"
  "streamOpen (maybeExtract pkt s) = streamOpen s" "idrReady (maybeExtract pkt s) = idrReady s"
  "idrCache (maybeExtract pkt s) = idrCache s" "idrPending (maybeExtract pkt s) = idrPending s"
  "collectingIDR (maybeExtract pkt s) = collectingIDR s" "closedChans (maybeExtract pkt s) = closedChans s"
  "snapshotter (maybeExtract pkt s) = snapshotter s"
  by (auto simp: maybeExtract_def extractSPSPPS_def Let_def split: list.split prod.split)

lemma maybeExtract_payloadType [simp]: "maybeExtract (pkt\<lparr>payloadType := x\<rparr>) s = maybeExtract pkt s"
  by (simp add: maybeExtract_def)

lemma injectPackets_out:
  "injectPackets ts cs s = (s', out) \<Longrightarrow>
     s' = s\<lparr>videoSeq := videoSeq s + of_nat (length cs)\<rparr> \<and> consecutive (videoSeq s) (videoOut out)
     \<and> map payload (videoOut out) = map payload cs \<and> map marker (videoOut out) = map marker cs
     \<and> sameTS ts (videoOut out) \<and> (\<forall>p\<in>set (videoOut out). payloadType p = videoPT) \<and> length (videoOut out) = length cs"
proof (induction ts cs s arbitrary: s' out rule: injectPackets.induct)
  case (2 ts c cs s)
  obtain s1 o1 where i: "injectPackets ts cs (s\<lparr>videoSeq := videoSeq s + 1\<rparr>) = (s1, o1)" by fastforce
  show ?case
    using "2.IH" [OF refl i] "2.prems" i by (auto simp: Let_def clonePacket_def algebra_simps)
qed simp

lemma WriteVideoPacketE:
  assumes "WriteVideoPacket now pkt0 s = (s', out)" "streamOpen s"
  obtains s1 pkt s2 o2 where
    "normalizeVideoRTP now (pkt0\<lparr>payloadType := videoPT\<rparr>) (maybeExtract pkt0 s) = (s1, pkt)"
    "cacheIDRPacket pkt s1 = (s2, o2)" "s' = s2\<lparr>rtspVideoCount := rtspVideoCount s2 + 1\<rparr>" "out = o2 @ [VideoOut pkt]"
  using assms that by (auto simp: WriteVideoPacket_def Let_def split: prod.splits)

lemma normalizeVideoRTP_out:
  "normalizeVideoRTP now pkt s = (s', pkt') \<Longrightarrow>
     seqNum pkt' = videoSeq s \<and> videoSeq s' = videoSeq s + 1 \<and> payload pkt' = payload pkt \<and> marker pkt' = marker pkt
     \<and> payloadType pkt' = payloadType pkt
     \<and> videoSeqInited s' \<and> videoTSOffset s' = videoTSOffset s
     \<and> videoTSBase s' = (if videoSeqInited s then videoTSBase s else timestamp pkt)
     \<and> timestamp pkt' = videoTSOffset s + (timestamp pkt - videoTSBase s')
     \<and> lastVideoTS s' = timestamp pkt' \<and> lastVideoTime s' = now
     \<and> streamOpen s' = streamOpen s \<and> idrReady s' = idrReady s \<and> idrCache s' = idrCache s \<and> idrPending s' = idrPending s
     \<and> collectingIDR s' = collectingIDR s \<and> closedChans s' = closedChans s \<and> gotParams s' = gotParams s
     \<and> spsParam s' = spsParam s \<and> ppsParam s' = ppsParam s \<and> snapshotter s' = snapshotter s"
  by (auto simp: normalizeVideoRTP_def Let_def)

definition withoutAudio :: "'t RTSPServer \<Rightarrow> 't RTSPServer" where
  "withoutAudio s = s\<lparr>transcoder := None, audioSeq := 0\<rparr>"

lemma WriteAudioPacket_video:
  "WriteAudioPacket tc pkt s = (s', out) \<Longrightarrow> videoOut out = [] \<and> withoutAudio s' = withoutAudio s"
  by (auto simp: WriteAudioPacket_def withoutAudio_def Let_def split: if_splits option.splits prod.splits sum.splits)

lemma withoutAudio_fields:
  assumes "withoutAudio s' = withoutAudio s"
  shows "videoSeq s' = videoSeq s" "videoSeqInited s' = videoSeqInited s" "videoTSBase s' = videoTSBase s"
    "videoTSOffset s' = videoTSOffset s" "lastVideoTS s' = lastVideoTS s" "lastVideoTime s' = lastVideoTime s"
    "streamOpen s' = streamOpen s" "idrReady s' = idrReady s" "idrCache s' = idrCache s" "closedChans s' = closedChans s"
    "idrPending s' = idrPending s" "collectingIDR s' = collectingIDR s"
  using assms by (cases s; cases s'; simp add: withoutAudio_def)+

lemma videoAct_numbers:
  assumes "videoAct wide tc e s = (s', out)"
  shows "consecutive (videoSeq s) out \<and> videoSeq s' = videoSeq s + of_nat (length out)"
proof -
  obtain o1 where r: "rtspStep wide tc e s = (s', o1)" and o: "out = videoOut o1"
    using assms by (auto simp: videoAct_def map_prod_def split: prod.splits)
  show ?thesis
  proof (cases e)
    case (WriteVideo now pkt)
    show ?thesis
    proof (cases "streamOpen s")
      case True
      have "WriteVideoPacket now pkt s = (s', o1)" using r WriteVideo by simp
      from this True obtain s1 pkt' s2 o2 where w:
        "normalizeVideoRTP now (pkt\<lparr>payloadType := videoPT\<rparr>) (maybeExtract pkt s) = (s1, pkt')"
        "cacheIDRPacket pkt' s1 = (s2, o2)" "s' = s2\<lparr>rtspVideoCount := rtspVideoCount s2 + 1\<rparr>" "o1 = o2 @ [VideoOut pkt']"
        by (rule WriteVideoPacketE)
      show ?thesis using normalizeVideoRTP_out [OF w(1)] cacheIDRPacket_seq [OF w(2)] w(3,4) o
        by (simp add: maybeExtract_seq)
    next
      case False
      then show ?thesis using r WriteVideo o by (simp add: WriteVideoPacket_def)
    qed
  next
    case (CacheOnly pkt)
    then have "cacheIDRPacket pkt (maybeExtract pkt s) = (s', o1)" using r by (simp add: CacheOnlyVideoPacket_def)
    from cacheIDRPacket_seq [OF this] show ?thesis using o by (simp add: maybeExtract_seq)
  next
    case (ResetVideo now)
    then show ?thesis using r o by (auto simp: ResetVideoRTP_def Let_def)
  next
    case (WriteAudio pkt)
    then have "WriteAudioPacket tc pkt s = (s', o1)" using r by simp
    note W = WriteAudioPacket_video [OF this]
    show ?thesis using W withoutAudio_fields(1) [OF conjunct2 [OF W]] o by simp
  next
    case InjectIDR
    then show ?thesis using r o injectPackets_out [of "lastVideoTS s + 1" "idrCache s" s s' o1]
      by (auto simp: injectIDR_def split: if_splits)
  next
    case Stop
    then show ?thesis using r o by (auto simp: StopServer_def)
  qed
qed

interpretation rtsp_video: sequencer videoSeq "videoAct wide tc" for wide :: "rat \<Rightarrow> u32" and tc :: "'t transcode"
  by unfold_locales (rule videoAct_numbers)

lemma runAll_videoAct:
  "runAll (videoAct wide tc) es s = map_prod id videoOut (runAll (rtspStep wide tc) es s)"
  by (induction es arbitrary: s) (auto simp: videoAct_def Let_def map_prod_def split: prod.splits)

text \<open>
  C4. Clients see one unbroken video stream. In whatever order camera packets are written, IDR pictures
  are replayed for joining clients, camera restarts reset the state, audio is written and gapped
  pictures are cached, the video packets given to the RTSP library carry consecutive sequence
  numbers (modulo $2^{16}$); so no number repeats among the first 65536 of them.
\<close>

theorem video_output_consecutive:
  "consecutive (videoSeq s) (videoOut (snd (runAll (rtspStep wide tc) es s)))
   \<and> distinct (map seqNum (take 65536 (videoOut (snd (runAll (rtspStep wide tc) es s)))))"
proof -
  obtain s' out where r: "runAll (rtspStep wide tc) es s = (s', out)" by fastforce
  then have "runAll (videoAct wide tc) es s = (s', videoOut out)" by (simp add: runAll_videoAct)
  from rtsp_video.run_numbers [OF this] rtsp_video.run_distinct [OF this] show ?thesis by (simp add: r)
qed

section \<open>Timestamps\<close>

text \<open>The camera packets of a run and what becomes of them.\<close>

fun cameraPackets :: "rtspEvent list \<Rightarrow> packet list" where
  "cameraPackets [] = []"
| "cameraPackets (WriteVideo _ pkt # es) = pkt # cameraPackets es"
| "cameraPackets (_ # es) = cameraPackets es"

fun liveOut :: "(rat \<Rightarrow> u32) \<Rightarrow> 't transcode \<Rightarrow> rtspEvent list \<Rightarrow> 't RTSPServer \<Rightarrow> packet list" where
  "liveOut wide tc [] s = []"
| "liveOut wide tc (e # es) s =
     (let (s', out) = rtspStep wide tc e s in
      (case e of WriteVideo _ _ \<Rightarrow> videoOut out | _ \<Rightarrow> []) @ liveOut wide tc es s')"

fun sameSession :: "rtspEvent \<Rightarrow> bool" where
  "sameSession (ResetVideo _) = False"
| "sameSession Stop = False"
| "sameSession _ = True"

text \<open>Between restarts the clock base and offset stay as they are.\<close>

definition clockState :: "'t RTSPServer \<Rightarrow> bool \<times> u32 \<times> u32 \<times> bool" where
  "clockState s = (videoSeqInited s, videoTSBase s, videoTSOffset s, streamOpen s)"

lemma rtspStep_clock:
  assumes "sameSession e" "\<forall>now pkt. e \<noteq> WriteVideo now pkt" "rtspStep wide tc e s = (s', out)"
  shows "clockState s' = clockState s"
proof (cases e)
  case (CacheOnly pkt)
  then have "cacheIDRPacket pkt (maybeExtract pkt s) = (s', out)" using assms(3) by (simp add: CacheOnlyVideoPacket_def)
  from cacheIDRPacket_seq [OF this] show ?thesis by (simp add: clockState_def maybeExtract_seq)
next
  case (WriteAudio pkt)
  then have "WriteAudioPacket tc pkt s = (s', out)" using assms(3) by simp
  note W = withoutAudio_fields [OF conjunct2 [OF WriteAudioPacket_video [OF this]]]
  show ?thesis using W by (simp add: clockState_def)
next
  case InjectIDR
  then show ?thesis using assms(3) injectPackets_out [of "lastVideoTS s + 1" "idrCache s" s s' out]
    by (auto simp: injectIDR_def clockState_def split: if_splits)
qed (use assms in auto)

lemma WriteVideoPacket_clock:
  assumes "WriteVideoPacket now pkt s = (s', out)" "streamOpen s"
  shows "clockState s' = (True, if videoSeqInited s then videoTSBase s else timestamp pkt, videoTSOffset s, True)
    \<and> (\<exists>q. videoOut out = [q] \<and> timestamp q = videoTSOffset s + (timestamp pkt - videoTSBase s')
         \<and> payload q = payload pkt \<and> marker q = marker pkt \<and> payloadType q = videoPT
         \<and> lastVideoTS s' = timestamp q \<and> lastVideoTime s' = now)"
proof -
  from assms obtain s1 q s2 o2 where w:
    "normalizeVideoRTP now (pkt\<lparr>payloadType := videoPT\<rparr>) (maybeExtract pkt s) = (s1, q)"
    "cacheIDRPacket q s1 = (s2, o2)" "s' = s2\<lparr>rtspVideoCount := rtspVideoCount s2 + 1\<rparr>" "out = o2 @ [VideoOut q]"
    by (rule WriteVideoPacketE)
  show ?thesis
    using normalizeVideoRTP_out [OF w(1)] cacheIDRPacket_seq [OF w(2)] w(3,4) assms(2)
    by (simp add: clockState_def maybeExtract_seq)
qed

lemma liveOut_inited:
  assumes "streamOpen s" "videoSeqInited s" "list_all sameSession es"
  shows "map timestamp (liveOut wide tc es s) = map (\<lambda>p. videoTSOffset s + (timestamp p - videoTSBase s)) (cameraPackets es)
    \<and> map payload (liveOut wide tc es s) = map payload (cameraPackets es)
    \<and> map marker (liveOut wide tc es s) = map marker (cameraPackets es)"
  using assms
proof (induction es arbitrary: s)
  case (Cons e es)
  obtain s1 out where r: "rtspStep wide tc e s = (s1, out)" by fastforce
  show ?case
  proof (cases "\<exists>now pkt. e = WriteVideo now pkt")
    case True
    then obtain now pkt where e: "e = WriteVideo now pkt" by blast
    then have "WriteVideoPacket now pkt s = (s1, out)" using r by simp
    note W = WriteVideoPacket_clock [OF this Cons.prems(1)]
    have c: "streamOpen s1" "videoSeqInited s1" "videoTSBase s1 = videoTSBase s" "videoTSOffset s1 = videoTSOffset s"
      using W Cons.prems(2) by (auto simp: clockState_def)
    show ?thesis using Cons.IH [OF c(1,2)] W c Cons.prems e r by auto
  next
    case False
    then have "clockState s1 = clockState s" using rtspStep_clock [OF _ _ r] Cons.prems(3) by simp
    then have c: "streamOpen s1" "videoSeqInited s1" "videoTSBase s1 = videoTSBase s" "videoTSOffset s1 = videoTSOffset s"
      using Cons.prems by (auto simp: clockState_def)
    have "liveOut wide tc (e # es) s = liveOut wide tc es s1" "cameraPackets (e # es) = cameraPackets es"
      using False r by (cases e; auto)+
    then show ?thesis using Cons.IH [OF c(1,2)] Cons.prems(3) c by simp
  qed
qed simp

text \<open>
  Playback follows the camera's clock. During one camera session, the packets written to clients are
  the camera's packets in order, payload and marker unchanged, with timestamps that
  differ from each other exactly as the camera's do: the first one gets the session's offset.
\<close>

lemma liveOut_fresh:
  assumes "streamOpen s" "\<not> videoSeqInited s" "list_all sameSession es" "cameraPackets es = c # cs"
  shows "map timestamp (liveOut wide tc es s) = map (\<lambda>p. videoTSOffset s + (timestamp p - timestamp c)) (c # cs)
    \<and> map payload (liveOut wide tc es s) = map payload (c # cs)
    \<and> map marker (liveOut wide tc es s) = map marker (c # cs)"
  using assms
proof (induction es arbitrary: s)
  case (Cons e es)
  obtain s1 out where r: "rtspStep wide tc e s = (s1, out)" by fastforce
  show ?case
  proof (cases "\<exists>now pkt. e = WriteVideo now pkt")
    case True
    then obtain now pkt where e: "e = WriteVideo now pkt" by blast
    then have "WriteVideoPacket now pkt s = (s1, out)" using r by simp
    note W = WriteVideoPacket_clock [OF this Cons.prems(1)]
    have c: "streamOpen s1" "videoSeqInited s1" "videoTSBase s1 = timestamp pkt" "videoTSOffset s1 = videoTSOffset s"
      using W Cons.prems(2) by (auto simp: clockState_def)
    show ?thesis using liveOut_inited [OF c(1,2), of es] W c Cons.prems e r by auto
  next
    case False
    then have "clockState s1 = clockState s" using rtspStep_clock [OF _ _ r] Cons.prems(3) by simp
    then have c: "streamOpen s1" "\<not> videoSeqInited s1" "videoTSOffset s1 = videoTSOffset s"
      using Cons.prems by (auto simp: clockState_def)
    have "liveOut wide tc (e # es) s = liveOut wide tc es s1" "cameraPackets (e # es) = cameraPackets es"
      using False r by (cases e; auto)+
    then show ?thesis using Cons.IH [OF c(1,2)] Cons.prems(3,4) c by simp
  qed
qed simp

lemma liveOut_none: "cameraPackets es = [] \<Longrightarrow> liveOut wide tc es s = []"
  by (induction es arbitrary: s rule: cameraPackets.induct) (auto split: prod.splits)

section \<open>Camera restarts\<close>

lemma restartGap_min: "4500 \<le> restartGap wide d"
  by (simp add: restartGap_def Let_def not_less)

lemma restartGap_accurate:
  assumes "50000000 \<le> d" "d \<le> 47000000000000"
  shows "of_nat (unat (restartGap wide d)) > (of_int d * 90000 / 1000000000 :: rat) - 2
    \<and> of_nat (unat (restartGap wide d)) < (of_int d * 90000 / 1000000000 :: rat) + 2"
proof -
  define t :: rat where "t = of_int d / 1000000000"
  have t: "0 \<le> t" "t \<le> 47000" using assms by (simp_all add: t_def)
  have "d < 2 ^ 53" using assms by simp
  then have S: "\<bar>Seconds d - t\<bar> \<le> t / 2 ^ 51" using Seconds_bounds [of d] assms by (simp add: t_def)
  have small: "t / 2 ^ 51 \<le> 1 / 1000000" using t by (simp add: divide_le_eq)
  define x where "x = Seconds d * 90000"
  have x: "t * 90000 - 1 / 2 \<le> x" "x \<le> t * 90000 + 1 / 2" using S small unfolding x_def by linarith+
  have x0: "0 \<le> x" using x t assms by (simp add: t_def)
  define y where "y = roundFloat64 x"
  have "x \<le> 4230000001" using x t by linarith
  then have "x / 2 ^ 53 \<le> 1 / 2" by simp
  then have y: "x - 1 / 2 \<le> y" "y \<le> x + 1 / 2" "0 \<le> y"
    using roundFloat64_bounds [OF x0] unfolding y_def by linarith+
  then have fit: "y < 2 ^ 32" using \<open>x \<le> 4230000001\<close> by simp
  define g where "g = \<lfloor>y\<rfloor>"
  have g: "of_int g \<le> y" "y < of_int g + 1" "0 \<le> g" using y floor_correct [of y] by (simp_all add: g_def)
  have "of_int g < (4294967296 :: rat)" using g(1) fit by simp
  then have "g < 4294967296" by linarith
  then have u: "unat (of_int g :: u32) = nat g"
    using g(3) by (simp add: unsigned_of_int take_bit_int_eq_self)
  have gap: "restartGap wide d = (if (of_int g :: u32) < 4500 then 4500 else of_int g)"
    using fit y(3) by (simp add: restartGap_def float64ToUint32_def x_def [symmetric] y_def [symmetric] g_def Let_def)
  have e: "of_int d * 90000 / 1000000000 = t * 90000" by (simp add: t_def)
  have lo: "4500 \<le> t * 90000" using assms(1) by (simp add: t_def)
  have b: "t * 90000 - 2 < of_int g" "of_int g \<le> t * 90000 + 1" using g y x by linarith+
  show ?thesis
  proof (cases "(of_int g :: u32) < 4500")
    case True
    then have "unat (of_int g :: u32) < unat (4500 :: u32)" by (simp only: word_less_nat_alt)
    then have "g < 4500" using u g(3) by simp
    then have "(of_int g :: rat) < 4500" by simp
    then have "t * 90000 - 2 < 4500" using b by linarith
    then show ?thesis unfolding e using gap True lo by simp
  next
    case False
    then have "(of_nat (unat (restartGap wide d)) :: rat) = of_int g" using gap u g(3) by simp
    then show ?thesis unfolding e using b by simp
  qed
qed

text \<open>
  C19. A camera restart moves the clients' clock forward. If the server has written video before, the
  first packet of the next camera session gets the last written timestamp plus a gap of at least
  4500 ticks (50 ms); for an interruption between 50 ms and 13 hours, the gap
  is the elapsed time at 90 kHz, to within two ticks.
\<close>

theorem restart_advances_clock:
  assumes "streamOpen s" "videoSeqInited s"
    and "WriteVideoPacket now2 pkt (ResetVideoRTP wide now s) = (s', out)"
  shows "\<exists>q. videoOut out = [q] \<and> timestamp q = lastVideoTS s + restartGap wide (now - lastVideoTime s)
      \<and> 4500 \<le> restartGap wide (now - lastVideoTime s)
      \<and> (now - lastVideoTime s \<in> {50000000 .. 47000000000000} \<longrightarrow>
           \<bar>of_nat (unat (restartGap wide (now - lastVideoTime s))) - of_int (now - lastVideoTime s) * 90000 / 1000000000\<bar> < (2 :: rat))"
proof -
  have r: "streamOpen (ResetVideoRTP wide now s)" "\<not> videoSeqInited (ResetVideoRTP wide now s)"
    "videoTSOffset (ResetVideoRTP wide now s) = lastVideoTS s + restartGap wide (now - lastVideoTime s)"
    using assms(1,2) by (simp_all add: ResetVideoRTP_def Let_def)
  note W = WriteVideoPacket_clock [OF assms(3) r(1)]
  define d where "d = now - lastVideoTime s"
  have "videoTSBase s' = timestamp pkt" using W r(2) by (simp add: clockState_def)
  moreover have "\<bar>of_nat (unat (restartGap wide d)) - of_int d * 90000 / 1000000000\<bar> < (2 :: rat)"
    if "d \<in> {50000000 .. 47000000000000}" for d
    using restartGap_accurate [of d wide] that by (simp add: abs_less_iff)
  ultimately show ?thesis
    using W r(3) restartGap_min [of wide d] unfolding d_def [symmetric] by auto
qed

section \<open>The cached picture\<close>

text \<open>
  Writing a packet acts on the cache as \<open>cacheIDRPacket\<close> does, on a packet with the same payload
  and marker; the rest of the state passes through.
\<close>

definition cacheView :: "'t RTSPServer \<Rightarrow> packet list \<times> packet list \<times> bool \<times> nat \<times> nat list" where
  "cacheView s = (idrCache s, idrPending s, collectingIDR s, idrReady s, closedChans s)"

lemma WriteVideoPacket_cache:
  fixes s s' :: "'t RTSPServer"
  assumes "WriteVideoPacket now pkt s = (s', out)" "streamOpen s"
  obtains q and s1 s2 :: "'t RTSPServer" and o2 where "payload q = payload pkt" "marker q = marker pkt" "cacheView s1 = cacheView s"
    "streamOpen s1" "snapshotter s1 = snapshotter s" "gotParams s \<Longrightarrow> gotParams s1 \<and> spsParam s1 = spsParam s \<and> ppsParam s1 = ppsParam s"
    "cacheIDRPacket q s1 = (s2, o2)" "cacheView s' = cacheView s2" "streamOpen s'" "out = o2 @ [VideoOut q]"
    "snapshotter s' = snapshotter s" "gotParams s \<Longrightarrow> gotParams s' \<and> spsParam s' = spsParam s \<and> ppsParam s' = ppsParam s"
proof -
  from assms obtain s1 q s2 o2 where w:
    "normalizeVideoRTP now (pkt\<lparr>payloadType := videoPT\<rparr>) (maybeExtract pkt s) = (s1, q)"
    "cacheIDRPacket q s1 = (s2, o2)" "s' = s2\<lparr>rtspVideoCount := rtspVideoCount s2 + 1\<rparr>" "out = o2 @ [VideoOut q]"
    by (rule WriteVideoPacketE)
  have m: "gotParams s \<Longrightarrow> maybeExtract pkt s = s" by (simp add: maybeExtract_def)
  note N = normalizeVideoRTP_out [OF w(1)] and C = cacheIDRPacket_seq [OF w(2)]
  show thesis
    by (rule that [of q s1 s2 o2]) (use N C w assms(2) m in \<open>simp_all add: cacheView_def maybeExtract_seq\<close>)
qed

definition idr_inv :: "'t RTSPServer \<Rightarrow> bool" where
  "idr_inv s \<longleftrightarrow> (\<forall>c\<in>set (closedChans s). c \<le> idrReady s) \<and> (idrReady s \<in> set (closedChans s) \<longleftrightarrow> idrCache s \<noteq> [])"

lemma idr_inv_view: "cacheView s = cacheView t \<Longrightarrow> idr_inv s = idr_inv t"
  by (simp add: cacheView_def idr_inv_def)

lemma cacheIDRPacket_inv: "cacheIDRPacket pkt s = (s', out) \<Longrightarrow> idr_inv s \<Longrightarrow> idr_inv s'"
  by (auto simp: cacheIDRPacket_def signalReady_def idr_inv_def Let_def split: list.splits if_splits)

lemma rtspStep_idr_inv:
  assumes "idr_inv s" "rtspStep wide tc e s = (s', out)"
  shows "idr_inv s'"
proof (cases e)
  case (WriteVideo now pkt)
  then have w: "WriteVideoPacket now pkt s = (s', out)" using assms(2) by simp
  show ?thesis
  proof (cases "streamOpen s")
    case True
    from w True show ?thesis
      by (rule WriteVideoPacket_cache) (metis assms(1) cacheIDRPacket_inv idr_inv_view)
  next
    case False
    then show ?thesis using w assms(1) by (simp add: WriteVideoPacket_def)
  qed
next
  case (CacheOnly pkt)
  then have "cacheIDRPacket pkt (maybeExtract pkt s) = (s', out)" using assms(2) by (simp add: CacheOnlyVideoPacket_def)
  moreover have "idr_inv (maybeExtract pkt s)" using assms(1) by (simp add: idr_inv_def maybeExtract_seq)
  ultimately show ?thesis by (rule cacheIDRPacket_inv)
next
  case (ResetVideo now)
  have "Suc (idrReady s) \<notin> set (closedChans s)" using assms(1) by (auto simp: idr_inv_def)
  then show ?thesis using assms ResetVideo
    by (cases "videoSeqInited s") (auto simp: ResetVideoRTP_def idr_inv_def Let_def le_SucI)
next
  case (WriteAudio pkt)
  then have "WriteAudioPacket tc pkt s = (s', out)" using assms(2) by simp
  note W = withoutAudio_fields [OF conjunct2 [OF WriteAudioPacket_video [OF this]]]
  show ?thesis using W assms(1) by (simp add: idr_inv_def)
next
  case InjectIDR
  then show ?thesis using assms injectPackets_out [of "lastVideoTS s + 1" "idrCache s" s s' out]
    by (auto simp: injectIDR_def idr_inv_def split: if_splits)
next
  case Stop
  then show ?thesis using assms by (auto simp: StopServer_def idr_inv_def)
qed

text \<open>A started server, and one operation on it.\<close>

definition startedServer :: "'t RTSPServer \<Rightarrow> bool" where
  "startedServer s \<longleftrightarrow> (\<exists>snap newT cfg initRes. s = fst (StartServer (Inr ()) initRes (NewRTSPServer snap newT cfg)))"

definition serverStep :: "'t RTSPServer \<Rightarrow> 't RTSPServer \<Rightarrow> bool" where
  "serverStep s s' \<longleftrightarrow> (\<exists>wide tc e out. rtspStep wide tc e s = (s', out))"

interpretation rtsp: transition_system startedServer serverStep idr_inv
proof unfold_locales
  fix s :: "'t RTSPServer" assume "startedServer s"
  then obtain snap newT cfg initRes where s: "s = fst (StartServer (Inr ()) initRes (NewRTSPServer snap newT cfg))"
    by (auto simp: startedServer_def)
  have "idr_inv (NewRTSPServer snap newT cfg)" by (simp add: NewRTSPServer_def idr_inv_def Let_def)
  then show "idr_inv s" unfolding s by (cases initRes) (simp_all add: StartServer_def idr_inv_def)
next
  fix s t :: "'t RTSPServer" assume "idr_inv s" "serverStep s t"
  then show "idr_inv t" using rtspStep_idr_inv unfolding serverStep_def by blast
qed

lemma reachable_run: "reachable startedServer serverStep s \<Longrightarrow> reachable startedServer serverStep (fst (runAll (rtspStep wide tc) es s))"
proof (induction es arbitrary: s)
  case (Cons e es)
  have "reachable startedServer serverStep (fst (rtspStep wide tc e s))"
    by (rule reachable_step [OF Cons.prems]) (metis prod.collapse serverStep_def)
  from Cons.IH [OF this] show ?case by (simp add: case_prod_beta)
qed simp

text \<open>
  C21. A client that is told a picture is ready gets one. In every state the server can reach after it was
  started, the current \<^verbatim>\<open>idrReady\<close> channel is closed exactly when the IDR cache holds a picture;
  so a joining client that passes the wait in \<^verbatim>\<open>OnPlay\<close> on the current channel has packets
  to start decoding from.
\<close>

theorem idr_ready_iff_cached:
  assumes "reachable startedServer serverStep s"
  shows "idrReady s \<in> set (closedChans s) \<longleftrightarrow> idrCache s \<noteq> []"
  using rtsp.reachable_inv [OF assms] by (simp add: idr_inv_def)

text \<open>
  A client that waits on a channel which a restart replaced before it was closed waits in vain: the
  channel is never closed, so the wait ends by its timeout and the client's session is closed, even
  if the restarted camera delivers a picture.
\<close>

definition stranded :: "nat \<Rightarrow> 't RTSPServer \<Rightarrow> bool" where
  "stranded ch s \<longleftrightarrow> ch < idrReady s \<and> ch \<notin> set (closedChans s)"

lemma cacheIDRPacket_closes:
  "cacheIDRPacket pkt s = (s', out) \<Longrightarrow> set (closedChans s') \<subseteq> insert (idrReady s) (set (closedChans s)) \<and> idrReady s' = idrReady s"
  by (auto simp: cacheIDRPacket_def signalReady_def Let_def split: list.splits if_splits)

lemma rtspStep_stranded:
  assumes "stranded ch s" "rtspStep wide tc e s = (s', out)"
  shows "stranded ch s'"
proof (cases e)
  case (WriteVideo now pkt)
  then have w: "WriteVideoPacket now pkt s = (s', out)" using assms(2) by simp
  show ?thesis
  proof (cases "streamOpen s")
    case True
    from w True obtain q and s1 s2 :: "'a RTSPServer" and o2
      where c: "cacheView s1 = cacheView s" "cacheIDRPacket q s1 = (s2, o2)" "cacheView s' = cacheView s2"
      by (rule WriteVideoPacket_cache)
    then show ?thesis using cacheIDRPacket_closes [OF c(2)] assms(1) by (auto simp: stranded_def cacheView_def)
  next
    case False
    then show ?thesis using w assms(1) by (simp add: WriteVideoPacket_def)
  qed
next
  case (CacheOnly pkt)
  then have "cacheIDRPacket pkt (maybeExtract pkt s) = (s', out)" using assms(2) by (simp add: CacheOnlyVideoPacket_def)
  from cacheIDRPacket_closes [OF this] show ?thesis using assms(1) by (auto simp: stranded_def maybeExtract_seq)
next
  case (ResetVideo now)
  then show ?thesis using assms by (cases "videoSeqInited s") (auto simp: ResetVideoRTP_def stranded_def Let_def)
next
  case (WriteAudio pkt)
  then have "WriteAudioPacket tc pkt s = (s', out)" using assms(2) by simp
  note W = withoutAudio_fields [OF conjunct2 [OF WriteAudioPacket_video [OF this]]]
  show ?thesis using W assms(1) by (simp add: stranded_def)
next
  case InjectIDR
  then show ?thesis using assms injectPackets_out [of "lastVideoTS s + 1" "idrCache s" s s' out]
    by (auto simp: injectIDR_def stranded_def split: if_splits)
next
  case Stop
  then show ?thesis using assms by (auto simp: StopServer_def stranded_def)
qed

text \<open>
  A restart strands waiting clients. If the camera is restarted while a client's \<^verbatim>\<open>OnPlay\<close> waits on
  the \<^verbatim>\<open>idrReady\<close> channel (not yet closed), then whatever the server does afterwards, the client
  is never woken: its only way on is the timeout that closes its session.
\<close>

lemma restart_strands_waiting_client:
  assumes "idrReady s \<notin> set (closedChans s)"
    and "runAll (rtspStep wide tc) es (ResetVideoRTP wide now s) = (s', out)"
  shows "OnPlay IDRSignal (Waiting (idrReady s)) s' = None
    \<and> OnPlay WaitTimeout (Waiting (idrReady s)) s' = Some (SessionClosed, s', [])"
proof -
  have "stranded (idrReady s) (ResetVideoRTP wide now s)"
    using assms(1) by (cases "videoSeqInited s") (auto simp: stranded_def ResetVideoRTP_def Let_def)
  then have "stranded (idrReady s) s'"
    by (rule runAll_inv [OF assms(2)]) (rule rtspStep_stranded)
  then show ?thesis by (simp add: OnPlay_def stranded_def)
qed

section \<open>A whole access unit\<close>

text \<open>A middle or last fragment joins the picture being collected; the last one completes it.\<close>

lemma cacheIDRPacket_fragment:
  assumes "payload q = fuIndicator h # fuHeader False e h # c" "collectingIDR s"
    and "cacheIDRPacket q s = (s', out)"
  shows "if marker q
     then idrCache s' = idrPending s @ [q] \<and> idrReady s' \<in> set (closedChans s')
       \<and> (snapshotter s \<and> gotParams s \<longrightarrow> out = [RefreshSnapshot (idrPending s @ [q])
            (case spsParam s of None \<Rightarrow> [] | Some b \<Rightarrow> b) (case ppsParam s of None \<Rightarrow> [] | Some b \<Rightarrow> b)])
     else idrPending s' = idrPending s @ [q] \<and> collectingIDR s' \<and> out = []"
  using assms by (auto simp: cacheIDRPacket_def signalReady_def clonePacket_def Let_def split: if_splits)

definition paramsKnown :: "bytes \<Rightarrow> bytes \<Rightarrow> 't RTSPServer \<Rightarrow> bool" where
  "paramsKnown sps pps s \<longleftrightarrow> streamOpen s \<and> snapshotter s \<and> gotParams s \<and> spsParam s = Some sps \<and> ppsParam s = Some pps"

lemma writeTail:
  assumes "map payload pkts = fuTail h cs" "map marker pkts = replicate (length cs - 1) False @ [True]" "cs \<noteq> []"
    and "length nows = length pkts" "paramsKnown sps pps s" "collectingIDR s"
    and "runAll (rtspStep wide tc) (map2 WriteVideo nows pkts) s = (s', out)"
  shows "\<exists>qs os. idrCache s' = idrPending s @ qs \<and> map payload qs = map payload pkts \<and> paramsKnown sps pps s'
     \<and> idrReady s' \<in> set (closedChans s') \<and> out = os @ [RefreshSnapshot (idrPending s @ qs) sps pps, VideoOut (last qs)]"
  using assms
proof (induction h cs arbitrary: pkts nows s out rule: fuTail.induct)
  case (2 h c)
  then obtain p now where p: "pkts = [p]" "nows = [now]" "payload p = fuIndicator h # fuHeader False True h # c" "marker p"
    by (cases pkts; cases nows) auto
  have w: "WriteVideoPacket now p s = (s', out)" using "2.prems"(7) p by (simp add: split: prod.splits)
  have "streamOpen s" using "2.prems"(5) by (simp add: paramsKnown_def)
  from w this show ?case
  proof (rule WriteVideoPacket_cache)
    fix q s1 s2 o2
    assume a: "payload q = payload p" "marker q = marker p" "cacheView s1 = cacheView s" "snapshotter s1 = snapshotter s"
      "gotParams s \<Longrightarrow> gotParams s1 \<and> spsParam s1 = spsParam s \<and> ppsParam s1 = ppsParam s"
      "cacheIDRPacket q s1 = (s2, o2)" "cacheView s' = cacheView s2" "streamOpen s'" "out = o2 @ [VideoOut q]"
      "snapshotter s' = snapshotter s" "gotParams s \<Longrightarrow> gotParams s' \<and> spsParam s' = spsParam s \<and> ppsParam s' = ppsParam s"
    have "collectingIDR s1" using a(3) "2.prems"(6) by (simp add: cacheView_def)
    from cacheIDRPacket_fragment [OF _ this a(6), of h True c] show ?thesis
      using a p "2.prems"(5) by (intro exI [of _ "[q]"] exI [of _ "[]"]) (auto simp: cacheView_def paramsKnown_def)
  qed
next
  case (3 h c d cs)
  then obtain p pkts' now nows' where p: "pkts = p # pkts'" "nows = now # nows'"
    "payload p = fuIndicator h # fuHeader False False h # c" "\<not> marker p" "map payload pkts' = fuTail h (d # cs)"
    "map marker pkts' = replicate (length (d # cs) - 1) False @ [True]" "length nows' = length pkts'"
    by (cases pkts; cases nows) auto
  obtain s0 o0 o' where r: "WriteVideoPacket now p s = (s0, o0)" "out = o0 @ o'"
    "runAll (rtspStep wide tc) (map2 WriteVideo nows' pkts') s0 = (s', o')"
    using "3.prems"(7) p by (auto simp: Let_def split: prod.splits)
  have "streamOpen s" using "3.prems"(5) by (simp add: paramsKnown_def)
  from r(1) this obtain q where q: "payload q = payload p" "paramsKnown sps pps s0" "collectingIDR s0" "idrPending s0 = idrPending s @ [q]"
  proof (rule WriteVideoPacket_cache)
    fix q s1 s2 o2
    assume a: "payload q = payload p" "marker q = marker p" "cacheView s1 = cacheView s"
      "cacheIDRPacket q s1 = (s2, o2)" "cacheView s0 = cacheView s2" "streamOpen s0"
      "snapshotter s0 = snapshotter s" "gotParams s \<Longrightarrow> gotParams s0 \<and> spsParam s0 = spsParam s \<and> ppsParam s0 = ppsParam s"
    have "collectingIDR s1" using a(3) "3.prems"(6) by (simp add: cacheView_def)
    from cacheIDRPacket_fragment [OF _ this a(4), of h False c] show ?thesis
      using that [of q] a p "3.prems"(5) by (auto simp: cacheView_def paramsKnown_def)
  qed
  from "3.IH" [OF p(5,6) _ p(7) q(2,3) r(3)] obtain qs os where
    "idrCache s' = (idrPending s @ [q]) @ qs" "map payload qs = map payload pkts'" "paramsKnown sps pps s'"
    "idrReady s' \<in> set (closedChans s')" "o' = os @ [RefreshSnapshot ((idrPending s @ [q]) @ qs) sps pps, VideoOut (last qs)]"
    using q(4) by auto
  moreover from this(2) have "qs \<noteq> []" using p(6) by auto
  ultimately show ?case using q(1) p(1) r(2) by (intro exI [of _ "q # qs"] exI [of _ "o0 @ os"]) simp
qed simp

lemma writeStart:
  assumes "payload p = stapA sh nalus" "naluType sh = 24" "payload p' = fuIndicator h # fuHeader True False h # c" "naluType h = 5"
    and "paramsKnown sps pps s" "WriteVideoPacket now p s = (s0, o0)" "WriteVideoPacket now' p' s0 = (s1, o1)"
  shows "\<exists>q q'. payload q = payload p \<and> payload q' = payload p' \<and> idrPending s1 = [q, q'] \<and> collectingIDR s1 \<and> paramsKnown sps pps s1"
proof -
  have s: "streamOpen s" using assms(5) by (simp add: paramsKnown_def)
  from assms(6) s obtain q where q: "payload q = payload p" "idrPending s0 = [q]" "paramsKnown sps pps s0"
  proof (rule WriteVideoPacket_cache)
    fix q t u o2
    assume a: "payload q = payload p" "cacheIDRPacket q t = (u, o2)" "cacheView s0 = cacheView u" "streamOpen s0"
      "snapshotter s0 = snapshotter s" "gotParams s \<Longrightarrow> gotParams s0 \<and> spsParam s0 = spsParam s \<and> ppsParam s0 = ppsParam s"
    show ?thesis
      using that [of q] a assms(1,2,5) by (auto simp: cacheIDRPacket_def stapA_def clonePacket_def cacheView_def paramsKnown_def)
  qed
  have "streamOpen s0" using q(3) by (simp add: paramsKnown_def)
  from assms(7) this show ?thesis
  proof (rule WriteVideoPacket_cache)
    fix q' t u o2
    assume a: "payload q' = payload p'" "cacheView t = cacheView s0" "cacheIDRPacket q' t = (u, o2)" "cacheView s1 = cacheView u"
      "streamOpen s1" "snapshotter s1 = snapshotter s0"
      "gotParams s0 \<Longrightarrow> gotParams s1 \<and> spsParam s1 = spsParam s0 \<and> ppsParam s1 = ppsParam s0"
    have "h AND 0x1F = 5" using assms(4) by (simp add: naluType_def)
    then show ?thesis
      using a q assms(3)
      by (intro exI [of _ q] exI [of _ q']) (auto simp: cacheIDRPacket_def clonePacket_def cacheView_def paramsKnown_def)
  qed
qed


section \<open>Audio\<close>

fun audioOut :: "rtspOut list \<Rightarrow> packet list" where
  "audioOut [] = []"
| "audioOut (AudioOut p # os) = p # audioOut os"
| "audioOut (_ # os) = audioOut os"

text \<open>The audio path with the transcoder in place and packets that hold more than an AU header.\<close>

definition transcodeAct :: "'t transcode \<Rightarrow> packet \<Rightarrow> 't RTSPServer \<Rightarrow> 't RTSPServer \<times> packet list" where
  "transcodeAct tc pkt s =
     (if transcoder s \<noteq> None \<and> 4 < length (payload pkt) then map_prod id audioOut (WriteAudioPacket tc pkt s) else (s, []))"

lemma transcodeAct_out:
  assumes "transcodeAct tc pkt s = (s', out)"
  shows "out = [] \<and> audioSeq s' = audioSeq s
    \<or> (\<exists>q lc. out = [q] \<and> audioSeq s' = audioSeq s + 1 \<and> seqNum q = audioSeq s \<and> timestamp q = ucast (audioSeq s) * 1024
         \<and> marker q \<and> payload q = auPayload lc)"
  using assms
  by (auto simp: transcodeAct_def WriteAudioPacket_def Let_def split: if_splits option.splits prod.splits sum.splits)

interpretation rtsp_audio: sequencer audioSeq "transcodeAct tc" for tc :: "'t transcode"
  by unfold_locales (auto dest!: transcodeAct_out)


text \<open>
  The timestamp is computed from the 16-bit counter, so it falls back to zero when the counter wraps
  around, after 65536 output frames (about 70 minutes at 16 kHz).
\<close>

lemma audio_timestamp_falls_back:
  assumes "tc t (drop 4 (payload pkt)) = (t', Inr (Some lc))" "4 < length (payload pkt)" "streamOpen s" "hasAudioMedia s"
    and "transcoder s = Some t" "audioSeq s = 0xFFFF"
  shows "\<exists>s' q. WriteAudioPacket tc pkt s = (s', [AudioOut q]) \<and> timestamp q = 67107840 \<and> audioSeq s' = 0"
  using assms by (simp add: WriteAudioPacket_def Let_def)

text \<open>The AU header the server writes announces the frame's length (frames of up to 8191 bytes).\<close>

lemma auPayload_header:
  assumes "length lc < 8192"
  shows "unat (drop_bit 3 (Uint16BE (take 2 (drop 2 (auPayload lc))))) = length lc"
proof -
  have "drop_bit 3 (push_bit 3 (of_nat (length lc)) :: u16) = take_bit 13 (of_nat (length lc))"
    by (rule bit_word_eqI) (auto simp: bit_drop_bit_eq bit_push_bit_iff bit_take_bit_iff)
  moreover have "unat (take_bit 13 (of_nat (length lc) :: u16)) = length lc"
    using assms by (simp add: unsigned_take_bit_eq unsigned_of_nat take_bit_nat_eq_self)
  ultimately show ?thesis by (simp add: auPayload_def)
qed

section \<open>Parameter sets sent separately\<close>

text \<open>
  Parameter sets that arrive in separate packets are never put together. Starting without
  parameters, no sequence of payloads that are single NAL units (any types but aggregation packets) gives
  the server its parameters: each set is dropped because the other one is missing.
\<close>

lemma separate_params_never_combined:
  assumes "spsParam s = None" "ppsParam s = None" "\<not> gotParams s" "list_all (\<lambda>pl. pl \<noteq> [] \<and> naluType (hd pl) \<noteq> 24) pls"
  shows "fold extractSPSPPS pls s = s"
  using assms(4)
proof (induction pls)
  case (Cons pl pls)
  have "extractSPSPPS pl s = s"
    using Cons.prems assms(1,2) by (auto simp: extractSPSPPS_def split: list.split)
  then show ?case using Cons by simp
qed simp

section \<open>A worked run\<close>

definition demoServer :: "unit RTSPServer" where
  "demoServer = (NewRTSPServer True (\<lambda>_ _ _. Inr ()) \<lparr>HasAudio = True, AudioCodec = ''aac-eld'', SampleRate = 16000, AudioGain = 1\<rparr>)
     \<lparr>streamOpen := True, gotParams := True, spsParam := Some [0x67], ppsParam := Some [0x68]\<rparr>"

definition demoTranscode :: "unit transcode" where
  "demoTranscode t bs = (t, Inr (Some bs))"

definition demoPacket :: "bool \<Rightarrow> u32 \<Rightarrow> bytes \<Rightarrow> packet" where
  "demoPacket m ts pl = \<lparr>marker = m, payloadType = 99, seqNum = 500, timestamp = ts, ssrc = 1, payload = pl\<rparr>"

definition demoPicture :: "packet list" where
  "demoPicture = [demoPacket False 7 (stapA 0x78 [[0x67], [0x68]]), demoPacket False 7 (fuIndicator 0x65 # fuHeader True False 0x65 # [1, 2]),
     demoPacket True 7 (fuIndicator 0x65 # fuHeader False True 0x65 # [3])]"

lemma demoServer_fields:
  "streamOpen demoServer" "\<not> videoSeqInited demoServer" "videoTSOffset demoServer = 0" "paramsKnown [0x67] [0x68] demoServer"
  "idrReady demoServer = 0" "closedChans demoServer = []"
  by (simp_all add: demoServer_def NewRTSPServer_def paramsKnown_def Let_def)

theorem restart_advances_clock_witness:
  "timestamp (hd (videoOut (snd (WriteVideoPacket 9 (demoPacket True 5 [1])
     (ResetVideoRTP (\<lambda>_. 0) 2000000000 (demoServer\<lparr>videoSeqInited := True, lastVideoTS := 100, lastVideoTime := 1000000000\<rparr>)))))) = 90100"
proof -
  define s where "s = demoServer\<lparr>videoSeqInited := True, lastVideoTS := 100, lastVideoTime := 1000000000\<rparr>"
  have s: "streamOpen s" "videoSeqInited s" "lastVideoTS s = 100" "lastVideoTime s = 1000000000"
    by (simp_all add: s_def demoServer_fields)
  have "restartGap (\<lambda>_. 0) (2000000000 - 1000000000) = 90000" by code_simp
  then show ?thesis
    using restart_advances_clock [OF s(1,2) prod.collapse [symmetric], of 9 "demoPacket True 5 [1]" "\<lambda>_. 0" 2000000000] s(3,4)
    by (auto simp flip: s_def)
qed

definition freshServer :: "unit RTSPServer" where
  "freshServer = fst (StartServer (Inr ()) (Inr ()) (NewRTSPServer True (\<lambda>_ _ _. Inr ()) \<lparr>HasAudio = False, AudioCodec = [], SampleRate = 0, AudioGain = 0\<rparr>))"

theorem idr_ready_iff_cached_witness:
  "let s = fst (runAll (rtspStep (\<lambda>_. 0) demoTranscode) (map2 WriteVideo [1, 2, 3] demoPicture) freshServer) in
     idrReady s \<in> set (closedChans s) \<and> idrReady freshServer \<notin> set (closedChans freshServer)"
proof -
  have f: "reachable startedServer serverStep freshServer"
    by (rule reachable_init) (auto simp: startedServer_def freshServer_def)
  have "idrCache (fst (runAll (rtspStep (\<lambda>_. 0) demoTranscode) (map2 WriteVideo [1, 2, 3] demoPicture) freshServer)) \<noteq> []"
    by code_simp
  moreover have "idrCache freshServer = []" by code_simp
  ultimately show ?thesis
    using idr_ready_iff_cached [OF f] idr_ready_iff_cached [OF reachable_run [OF f]] unfolding Let_def by blast
qed

lemma restart_strands_waiting_client_witness:
  "OnPlay IDRSignal (Waiting 0) (fst (runAll (rtspStep (\<lambda>_. 0) demoTranscode) (map2 WriteVideo [1, 2, 3] demoPicture)
     (ResetVideoRTP (\<lambda>_. 0) 0 demoServer))) = None"
  using restart_strands_waiting_client [OF _ prod.collapse [symmetric], of demoServer "\<lambda>_. 0" demoTranscode "map2 WriteVideo [1, 2, 3] demoPicture" 0]
  by (simp add: demoServer_fields)


lemma separate_params_never_combined_witness:
  "fold extractSPSPPS [[0x67, 1], [0x68, 2], [0x67, 1]] (demoServer\<lparr>gotParams := False, spsParam := None, ppsParam := None\<rparr>)
     = demoServer\<lparr>gotParams := False, spsParam := None, ppsParam := None\<rparr>"
  by (rule separate_params_never_combined) (simp_all add: naluType_def)

end
