(* ===== verification/Tlv8.thy ===== *)
theory Tlv8
  imports Prelude
begin

text \<open>
  The TLV8 codec of \<^verbatim>\<open>internal/hap/tlv8.go\<close>: items of a type byte and a value, values
  longer than 255 bytes split into consecutive fragments of the same type, and the
  decoder that joins them again. A value read by \<^verbatim>\<open>TLV8GetBytes\<close> is an option: \<^verbatim>\<open>nil\<close>
  (no such item) is \<open>None\<close>, and a present value of length zero is \<open>Some []\<close>.
\<close>

section \<open>Items, encoder, decoder, accessors\<close>

record TLV8Item =
  Type :: byte
  Value :: bytes

text \<open>The loop over one item: full fragments of 255 bytes while more than 255 remain.\<close>

fun TLV8EncodeItem :: "byte \<Rightarrow> bytes \<Rightarrow> bytes" where
  "TLV8EncodeItem t val =
     (if length val > 255
      then t # 255 # take 255 val @ TLV8EncodeItem t (drop 255 val)
      else t # of_nat (length val) # val)"

declare TLV8EncodeItem.simps [simp del]

definition TLV8Encode :: "TLV8Item list \<Rightarrow> bytes" where
  "TLV8Encode items = concat (map (\<lambda>item. TLV8EncodeItem (Type item) (Value item)) items)"

text \<open>What the decoder does with one fragment: join it to the last item or start a new one.\<close>

definition appendLast :: "TLV8Item list \<Rightarrow> bytes \<Rightarrow> TLV8Item list" where
  "appendLast items val = butlast items @ [(last items)\<lparr>Value := Value (last items) @ val\<rparr>]"

definition TLV8Merge :: "TLV8Item list \<Rightarrow> byte \<Rightarrow> byte \<Rightarrow> bytes \<Rightarrow> TLV8Item list" where
  "TLV8Merge items t len val =
     (if items \<noteq> [] \<and> Type (last items) = t \<and> len = 255 then appendLast items val
      else if items \<noteq> [] \<and> Type (last items) = t \<and> length (Value (last items)) mod 255 = 0
      then appendLast items val
      else items @ [\<lparr>Type = t, Value = val\<rparr>])"

text \<open>
  The reader loop. \<^verbatim>\<open>io.ReadFull\<close> fails with \<^verbatim>\<open>EOF\<close> when no byte is left and with
  \<^verbatim>\<open>unexpected EOF\<close> when some are.
\<close>

fun TLV8DecodeLoop :: "bytes \<Rightarrow> TLV8Item list \<Rightarrow> TLV8Item list result" where
  "TLV8DecodeLoop [] items = Inr items"
| "TLV8DecodeLoop [t] items = Inl ''tlv8: read length: EOF''"
| "TLV8DecodeLoop (t # len # rest) items =
     (if unat len > length rest
      then Inl (if rest = [] then ''tlv8: read value: EOF'' else ''tlv8: read value: unexpected EOF'')
      else TLV8DecodeLoop (drop (unat len) rest) (TLV8Merge items t len (take (unat len) rest)))"

definition TLV8Decode :: "bytes \<Rightarrow> TLV8Item list result" where
  "TLV8Decode data = TLV8DecodeLoop data []"

fun TLV8GetBytes :: "TLV8Item list \<Rightarrow> byte \<Rightarrow> bytes option" where
  "TLV8GetBytes [] t = None"
| "TLV8GetBytes (item # items) t =
     (if Type item = t then Some (Value item) else TLV8GetBytes items t)"

definition TLV8GetByte :: "TLV8Item list \<Rightarrow> byte \<Rightarrow> byte option" where
  "TLV8GetByte items t =
     (case TLV8GetBytes items t of Some (b # _) \<Rightarrow> Some b | _ \<Rightarrow> None)"

section \<open>Decoding what was encoded\<close>

lemma TLV8Item_eta [simp]: "\<lparr>Type = Type i, Value = Value i\<rparr> = i"
  by (cases i) simp

text \<open>
  Two neighbours of the same type stay apart exactly when the first does not end on a
  fragment boundary and the second does not begin with a full fragment.
\<close>

definition separate :: "TLV8Item \<Rightarrow> TLV8Item \<Rightarrow> bool" where
  "separate a b \<longleftrightarrow> Type a = Type b \<longrightarrow> length (Value a) mod 255 \<noteq> 0 \<and> length (Value b) < 255"

fun separable :: "TLV8Item list \<Rightarrow> bool" where
  "separable [] = True"
| "separable [a] = True"
| "separable (a # b # rest) = (separate a b \<and> separable (b # rest))"

lemma last_appendLast [simp]:
  "last (appendLast items val) = (last items)\<lparr>Value := Value (last items) @ val\<rparr>"
  and appendLast_ne [simp]: "appendLast items val \<noteq> []"
  by (simp_all add: appendLast_def)

lemma appendLast_snoc [simp]:
  "appendLast (items @ [i]) val = items @ [i\<lparr>Value := Value i @ val\<rparr>]"
  by (simp add: appendLast_def)

text \<open>One short fragment, and one full fragment, at the front of the input.\<close>

lemma decode_short:
  assumes "length val < 256"
  shows "TLV8DecodeLoop (t # of_nat (length val) # val @ rest) items
    = TLV8DecodeLoop rest (TLV8Merge items t (of_nat (length val)) val)"
  using assms by simp

lemma decode_full:
  assumes "length val \<ge> 255"
  shows "TLV8DecodeLoop (t # 255 # take 255 val @ rest) items
    = TLV8DecodeLoop rest (TLV8Merge items t 255 (take 255 val))"
  using assms by simp

lemma Merge_boundary:
  assumes "items \<noteq> []" "Type (last items) = t" "length (Value (last items)) mod 255 = 0"
  shows "TLV8Merge items t len val = appendLast items val"
  using assms by (simp add: TLV8Merge_def)

text \<open>Fragments that follow a fragment boundary of the same type are joined to it.\<close>

lemma decode_continue:
  assumes "length v mod 255 = 0"
  shows "TLV8DecodeLoop (TLV8EncodeItem t val @ rest) (items @ [\<lparr>Type = t, Value = v\<rparr>])
    = TLV8DecodeLoop rest (items @ [\<lparr>Type = t, Value = v @ val\<rparr>])"
  using assms
proof (induction t val arbitrary: v rule: TLV8EncodeItem.induct)
  case (1 t val)
  show ?case
  proof (cases "length val > 255")
    case True
    have "length (v @ take 255 val) mod 255 = 0"
      using "1.prems" True by simp
    then have "TLV8DecodeLoop (TLV8EncodeItem t (drop 255 val) @ rest)
        (items @ [\<lparr>Type = t, Value = v @ take 255 val\<rparr>])
      = TLV8DecodeLoop rest (items @ [\<lparr>Type = t, Value = (v @ take 255 val) @ drop 255 val\<rparr>])"
      by (rule "1.IH" [OF True])
    then show ?thesis
      using True "1.prems" decode_full [of val t "TLV8EncodeItem t (drop 255 val) @ rest"]
      by (simp add: TLV8EncodeItem.simps [of t val] Merge_boundary)
  next
    case False
    then show ?thesis
      using "1.prems" decode_short [of val t rest]
      by (simp add: TLV8EncodeItem.simps [of t val] Merge_boundary)
  qed
qed

text \<open>An item that is separate from the last one decoded is decoded as itself.\<close>

lemma decode_item:
  assumes "items \<noteq> [] \<Longrightarrow> separate (last items) i"
  shows "TLV8DecodeLoop (TLV8EncodeItem (Type i) (Value i) @ rest) items
    = TLV8DecodeLoop rest (items @ [i])"
proof (cases "length (Value i) > 255")
  case True
  have "TLV8Merge items (Type i) 255 (take 255 (Value i))
      = items @ [\<lparr>Type = Type i, Value = take 255 (Value i)\<rparr>]"
    using assms True by (auto simp: TLV8Merge_def separate_def)
  then show ?thesis
    using True decode_full [of "Value i" "Type i" "TLV8EncodeItem (Type i) (drop 255 (Value i)) @ rest" items]
      decode_continue [of "take 255 (Value i)" "Type i" "drop 255 (Value i)" rest items]
    by (subst TLV8EncodeItem.simps) simp
next
  case False
  have "of_nat (length (Value i)) = (255 :: byte) \<longleftrightarrow> length (Value i) = 255"
    using False by (subst word_unat_eq_iff) simp
  then have "TLV8Merge items (Type i) (of_nat (length (Value i))) (Value i) = items @ [i]"
    using assms by (cases i) (auto simp: TLV8Merge_def separate_def)
  then show ?thesis
    using False decode_short [of "Value i" "Type i" rest items]
    by (simp add: TLV8EncodeItem.simps [of "Type i" "Value i"])
qed

lemma TLV8Encode_Cons:
  "TLV8Encode (i # items) = TLV8EncodeItem (Type i) (Value i) @ TLV8Encode items"
  by (simp add: TLV8Encode_def)

lemma TLV8Encode_Nil [simp]: "TLV8Encode [] = []"
  by (simp add: TLV8Encode_def)

lemma decode_items:
  assumes "separable items" "acc \<noteq> [] \<Longrightarrow> items \<noteq> [] \<Longrightarrow> separate (last acc) (hd items)"
  shows "TLV8DecodeLoop (TLV8Encode items) acc = Inr (acc @ items)"
  using assms
proof (induction items arbitrary: acc)
  case Nil
  then show ?case by simp
next
  case (Cons i items)
  have "TLV8DecodeLoop (TLV8Encode (i # items)) acc = TLV8DecodeLoop (TLV8Encode items) (acc @ [i])"
    using Cons.prems by (simp add: TLV8Encode_Cons decode_item)
  also have "\<dots> = Inr ((acc @ [i]) @ items)"
    using Cons.prems by (intro Cons.IH) (cases items; auto)+
  finally show ?case by simp
qed

lemma separable_roundtrip: "separable items \<Longrightarrow> TLV8Decode (TLV8Encode items) = Inr items"
  using decode_items [of items "[]"] by (simp add: TLV8Decode_def)

section \<open>Nothing else round-trips\<close>

text \<open>
  The decoder only ever extends the last item or adds items after it, and one encoded
  item adds at most one item. So a neighbour that was merged can never come apart again.
\<close>

definition extends :: "TLV8Item list \<Rightarrow> TLV8Item list \<Rightarrow> bool" where
  "extends acc r \<longleftrightarrow>
     (\<exists>ext more. r = butlast acc @ (last acc)\<lparr>Value := Value (last acc) @ ext\<rparr> # more)"

lemma extends_refl: "acc \<noteq> [] \<Longrightarrow> extends acc acc"
  unfolding extends_def by (rule exI [of _ "[]"], rule exI [of _ "[]"]) simp

lemma extends_appendLast: "extends (appendLast acc v) r \<Longrightarrow> extends acc r"
  by (auto simp: extends_def appendLast_def)

lemma extends_snoc: "acc \<noteq> [] \<Longrightarrow> extends (acc @ [i]) r \<Longrightarrow> extends acc r"
proof (cases acc rule: rev_cases)
  case (snoc ys y)
  assume "extends (acc @ [i]) r"
  then obtain ext more where "r = ys @ y # i\<lparr>Value := Value i @ ext\<rparr> # more"
    using snoc by (auto simp: extends_def butlast_append)
  then show ?thesis
    unfolding extends_def using snoc
    by (intro exI [of _ "[]"] exI [of _ "i\<lparr>Value := Value i @ ext\<rparr> # more"]) simp
qed simp

lemma extends_Merge: "acc \<noteq> [] \<Longrightarrow> extends (TLV8Merge acc t l v) r \<Longrightarrow> extends acc r"
  by (auto simp: TLV8Merge_def split: if_splits intro: extends_appendLast extends_snoc)

lemma Merge_ne [simp]: "TLV8Merge acc t l v \<noteq> []"
  by (simp add: TLV8Merge_def)

lemma decode_extends: "TLV8DecodeLoop d acc = Inr r \<Longrightarrow> acc \<noteq> [] \<Longrightarrow> extends acc r"
  by (induction d acc rule: TLV8DecodeLoop.induct)
     (auto split: if_splits intro: extends_refl extends_Merge)

lemma extends_longer:
  assumes "extends (appendLast acc v) (acc @ xs)" "acc \<noteq> []"
  shows "v = []"
proof (cases acc rule: rev_cases)
  case (snoc ys y)
  with assms obtain ext where "y = y\<lparr>Value := Value y @ v @ ext\<rparr>"
    by (auto simp: extends_def)
  then have "Value y = Value y @ v @ ext"
    by (metis TLV8Item.select_convs(2) TLV8Item.surjective TLV8Item.update_convs(2))
  then show ?thesis by simp
qed (use assms in simp)

lemma decode_item_count:
  "\<exists>acc'. TLV8DecodeLoop (TLV8EncodeItem t v @ rest) acc = TLV8DecodeLoop rest acc'
     \<and> length acc' \<le> length acc + 1"
proof (induction t v arbitrary: acc rule: TLV8EncodeItem.induct)
  case (1 t v)
  show ?case
  proof (cases "length v > 255")
    case True
    let ?tl = "TLV8EncodeItem t (drop 255 v) @ rest"
    have loop: "TLV8DecodeLoop (TLV8EncodeItem t v @ rest) acc
        = TLV8DecodeLoop ?tl (TLV8Merge acc t 255 (take 255 v))"
      using True decode_full [of v t ?tl acc] by (simp add: TLV8EncodeItem.simps [of t v])
    show ?thesis
    proof (cases "acc \<noteq> [] \<and> Type (last acc) = t")
      case same: True
      then have "TLV8Merge acc t 255 (take 255 v) = appendLast acc (take 255 v)"
        by (simp add: TLV8Merge_def)
      then show ?thesis
        using "1.IH" [OF True, of "appendLast acc (take 255 v)"] loop same
        by (auto simp: appendLast_def)
    next
      case False
      then have "TLV8Merge acc t 255 (take 255 v) = acc @ [\<lparr>Type = t, Value = take 255 v\<rparr>]"
        by (auto simp: TLV8Merge_def)
      then show ?thesis
        using decode_continue [of "take 255 v" t "drop 255 v" rest acc] loop True by auto
    qed
  next
    case False
    then show ?thesis
      using decode_short [of v t rest acc]
      by (auto simp: TLV8EncodeItem.simps [of t v] TLV8Merge_def appendLast_def)
  qed
qed

lemma decode_count:
  "TLV8DecodeLoop (TLV8Encode items) acc = Inr r \<Longrightarrow> length r \<le> length acc + length items"
proof (induction items arbitrary: acc)
  case Nil
  then show ?case by simp
next
  case (Cons i items)
  obtain acc' where "TLV8DecodeLoop (TLV8Encode (i # items)) acc = TLV8DecodeLoop (TLV8Encode items) acc'"
    and "length acc' \<le> length acc + 1"
    using decode_item_count by (metis TLV8Encode_Cons)
  with Cons show ?case by fastforce
qed

text \<open>A neighbour that is not separate cannot be decoded as itself.\<close>

lemma not_separate_merges:
  assumes "acc \<noteq> []" "\<not> separate (last acc) i"
  shows "TLV8DecodeLoop (TLV8Encode (i # items)) acc \<noteq> Inr (acc @ i # items)"
proof
  assume dec: "TLV8DecodeLoop (TLV8Encode (i # items)) acc = Inr (acc @ i # items)"
  have same: "Type (last acc) = Type i"
    and cases: "length (Value (last acc)) mod 255 = 0 \<or> length (Value i) \<ge> 255"
    using assms(2) by (auto simp: separate_def)
  obtain c tl where enc: "TLV8DecodeLoop (TLV8Encode (i # items)) acc = TLV8DecodeLoop tl (appendLast acc c)"
    and c: "c = [] \<Longrightarrow> tl = TLV8Encode items"
  proof (cases "length (Value i) > 255")
    case True
    let ?tl = "TLV8EncodeItem (Type i) (drop 255 (Value i)) @ TLV8Encode items"
    have "TLV8DecodeLoop (TLV8Encode (i # items)) acc = TLV8DecodeLoop ?tl (appendLast acc (take 255 (Value i)))"
      using decode_full [of "Value i" "Type i" ?tl acc] True same assms(1)
      by (simp add: TLV8Encode_Cons TLV8EncodeItem.simps [of "Type i" "Value i"] TLV8Merge_def)
    moreover have "take 255 (Value i) \<noteq> []" using True by auto
    ultimately show ?thesis by (intro that [of ?tl "take 255 (Value i)"]) simp_all
  next
    case False
    then show ?thesis
      using that [of "TLV8Encode items" "Value i"] decode_short [of "Value i" "Type i" "TLV8Encode items" acc]
        same assms(1) cases
      by (auto simp: TLV8Encode_Cons TLV8EncodeItem.simps [of "Type i" "Value i"] TLV8Merge_def)
  qed
  have "extends (appendLast acc c) (acc @ i # items)"
    using dec enc by (auto intro: decode_extends)
  then have "c = []" using assms(1) by (rule extends_longer)
  then have "TLV8DecodeLoop (TLV8Encode items) acc = Inr (acc @ i # items)"
    using dec enc c assms(1) by (simp add: appendLast_def)
  then show False using decode_count by fastforce
qed

lemma roundtrip_separable:
  assumes "TLV8DecodeLoop (TLV8Encode items) acc = Inr (acc @ items)"
  shows "separable items \<and> (acc \<noteq> [] \<longrightarrow> items \<noteq> [] \<longrightarrow> separate (last acc) (hd items))"
  using assms
proof (induction items arbitrary: acc)
  case Nil
  then show ?case by simp
next
  case (Cons i items)
  have sep: "acc \<noteq> [] \<Longrightarrow> separate (last acc) i"
    using Cons.prems not_separate_merges by blast
  then have "TLV8DecodeLoop (TLV8Encode items) (acc @ [i]) = Inr ((acc @ [i]) @ items)"
    using Cons.prems by (simp add: TLV8Encode_Cons decode_item)
  then have "separable items \<and> (items \<noteq> [] \<longrightarrow> separate i (hd items))"
    using Cons.IH by fastforce
  then show ?case using sep by (cases items) auto
qed

section \<open>The codec as an interface\<close>

lemma distinct_distinct_adj: "distinct xs \<Longrightarrow> distinct_adj xs"
  by (induction xs rule: induct_list012) auto

text \<open>
  What the message builders rely on: a message whose neighbouring items differ in type
  decodes to itself, and a field is the value of the first item of its type.
\<close>

locale tlv_codec =
  fixes encode :: "TLV8Item list \<Rightarrow> bytes"
    and decode :: "bytes \<Rightarrow> TLV8Item list result"
    and get :: "TLV8Item list \<Rightarrow> byte \<Rightarrow> bytes option"
  assumes decode_encode: "distinct_adj (map Type items) \<Longrightarrow> decode (encode items) = Inr items"
    and get_map: "get items = map_of (map (\<lambda>i. (Type i, Value i)) items)"
begin

text \<open>Every field of a message with distinct types is read back from its encoding.\<close>

lemma field_of_message:
  assumes "distinct (map Type items)" "i \<in> set items"
  shows "\<exists>its. decode (encode items) = Inr its \<and> get its (Type i) = Some (Value i)"
proof (intro exI conjI)
  show "decode (encode items) = Inr items"
    using assms(1) by (intro decode_encode distinct_distinct_adj)
  show "get items (Type i) = Some (Value i)"
    using assms unfolding get_map by (intro map_of_is_SomeI) (auto simp: comp_def)
qed

lemma absent_field:
  assumes "distinct_adj (map Type items)" "t \<notin> Type ` set items"
  shows "\<exists>its. decode (encode items) = Inr its \<and> get its t = None"
  using assms by (auto simp: decode_encode get_map map_of_eq_None_iff image_image)

end

lemma distinct_adj_separable: "distinct_adj (map Type items) \<Longrightarrow> separable items"
  by (induction items rule: separable.induct) (auto simp: separate_def)

lemma TLV8GetBytes_map_of: "TLV8GetBytes items = map_of (map (\<lambda>i. (Type i, Value i)) items)"
proof
  show "TLV8GetBytes items t = map_of (map (\<lambda>i. (Type i, Value i)) items) t" for t
    by (induction items) auto
qed

interpretation tlv8: tlv_codec TLV8Encode TLV8Decode TLV8GetBytes
  by unfold_locales (auto intro: separable_roundtrip distinct_adj_separable TLV8GetBytes_map_of)

section \<open>Properties\<close>

text \<open>
  C10. The codec round-trips exactly the item lists in which two neighbours of the same
  type are separate: the first does not end on a multiple of 255 bytes (so an empty value
  counts as a boundary) and the second is shorter than 255 bytes. For every other list
  the decoder merges neighbours, so the result differs from what was encoded.
\<close>

theorem TLV8_roundtrip_iff:
  "TLV8Decode (TLV8Encode items) = Inr items \<longleftrightarrow> separable items"
  using separable_roundtrip roundtrip_separable [of items "[]"] by (auto simp: TLV8Decode_def)

lemma length_TLV8EncodeItem:
  "length (TLV8EncodeItem t v) = length v + 2 * max 1 ((length v + 254) div 255)"
proof (induction t v rule: TLV8EncodeItem.induct)
  case (1 t v)
  show ?case
  proof (cases "length v > 255")
    case True
    then have "length v + 254 = (length (drop 255 v) + 254) + 1 * 255" by simp
    then have "(length v + 254) div 255 = Suc ((length (drop 255 v) + 254) div 255)"
      by (simp only: div_mult_self1)
    with 1 True show ?thesis by (simp add: TLV8EncodeItem.simps [of t v])
  next
    case False
    then have "(length v + 254) div 255 \<le> 1" by (cases "length v") auto
    with False show ?thesis by (simp add: TLV8EncodeItem.simps [of t v] max_def)
  qed
qed

text \<open>
  Every fragmentation overhead is accounted for: an encoded message is exactly as long
  as its values plus two bytes for each started block of 255 value bytes, and at least
  one header per item.
\<close>

lemma TLV8Encode_length:
  "length (TLV8Encode items)
     = (\<Sum>i\<leftarrow>items. length (Value i) + 2 * max 1 ((length (Value i) + 254) div 255))"
  by (induction items) (simp_all add: TLV8Encode_Cons length_TLV8EncodeItem)

text \<open>The shape in which the other components use the codec.\<close>

definition item :: "byte \<Rightarrow> bytes \<Rightarrow> TLV8Item" where
  "item t v = \<lparr>Type = t, Value = v\<rparr>"

lemma item_simps [simp]: "Type (item t v) = t" "Value (item t v) = v"
  by (simp_all add: item_def)

lemma decode_message [simp]:
  "distinct (map Type items) \<Longrightarrow> TLV8Decode (TLV8Encode items) = Inr items"
  by (simp add: tlv8.decode_encode distinct_distinct_adj)

end
