(* ===== verification/Camera.thy ===== *)
theory Camera
  imports Tlv8 Net_IP
begin

text \<open>
  The CameraRTPStreamManagement messages of \<^verbatim>\<open>internal/hap/camera.go\<close>: the SetupEndpoints
  request and its response, and the SelectedRTPStreamConfiguration write. A \<^verbatim>\<open>float32\<close> is
  its IEEE bit pattern, which is all \<^verbatim>\<open>math.Float32bits\<close> reads.
\<close>

section \<open>Type codes\<close>

abbreviation TLVSessionID :: byte where "TLVSessionID \<equiv> 0x01"
abbreviation TLVStatus :: byte where "TLVStatus \<equiv> 0x02"
abbreviation TLVAddress :: byte where "TLVAddress \<equiv> 0x03"
abbreviation TLVVideoParams :: byte where "TLVVideoParams \<equiv> 0x04"
abbreviation TLVAudioParams :: byte where "TLVAudioParams \<equiv> 0x05"
abbreviation TLVSRTPCryptoSuite :: byte where "TLVSRTPCryptoSuite \<equiv> 0x06"
abbreviation TLVAddressVersion :: byte where "TLVAddressVersion \<equiv> 0x01"
abbreviation TLVAddressIP :: byte where "TLVAddressIP \<equiv> 0x02"
abbreviation TLVAddressVideoPort :: byte where "TLVAddressVideoPort \<equiv> 0x03"
abbreviation TLVAddressAudioPort :: byte where "TLVAddressAudioPort \<equiv> 0x04"
abbreviation TLVSRTPCryptoType :: byte where "TLVSRTPCryptoType \<equiv> 0x01"
abbreviation TLVSRTPMasterKey :: byte where "TLVSRTPMasterKey \<equiv> 0x02"
abbreviation TLVSRTPMasterSalt :: byte where "TLVSRTPMasterSalt \<equiv> 0x03"
abbreviation TLVSelectedSessionControl :: byte where "TLVSelectedSessionControl \<equiv> 0x01"
abbreviation TLVSelectedVideoParams :: byte where "TLVSelectedVideoParams \<equiv> 0x02"
abbreviation TLVSelectedAudioParams :: byte where "TLVSelectedAudioParams \<equiv> 0x03"
abbreviation TLVSessionControlID :: byte where "TLVSessionControlID \<equiv> 0x01"
abbreviation TLVSessionControlCommand :: byte where "TLVSessionControlCommand \<equiv> 0x02"
abbreviation SessionCommandEnd :: byte where "SessionCommandEnd \<equiv> 0x00"
abbreviation SessionCommandStart :: byte where "SessionCommandStart \<equiv> 0x01"
abbreviation SessionCommandSuspend :: byte where "SessionCommandSuspend \<equiv> 0x02"
abbreviation SessionCommandResume :: byte where "SessionCommandResume \<equiv> 0x03"
abbreviation SessionCommandReconfigure :: byte where "SessionCommandReconfigure \<equiv> 0x04"
abbreviation TLVVideoCodecType :: byte where "TLVVideoCodecType \<equiv> 0x01"
abbreviation TLVVideoCodecParams :: byte where "TLVVideoCodecParams \<equiv> 0x02"
abbreviation TLVVideoAttributes :: byte where "TLVVideoAttributes \<equiv> 0x03"
abbreviation TLVVideoRTPParams :: byte where "TLVVideoRTPParams \<equiv> 0x04"
abbreviation VideoCodecH264 :: byte where "VideoCodecH264 \<equiv> 0x00"
abbreviation H264ProfileBaseline :: byte where "H264ProfileBaseline \<equiv> 0x00"
abbreviation H264ProfileMain :: byte where "H264ProfileMain \<equiv> 0x01"
abbreviation H264ProfileHigh :: byte where "H264ProfileHigh \<equiv> 0x02"
abbreviation H264Level3_1 :: byte where "H264Level3_1 \<equiv> 0x00"
abbreviation H264Level3_2 :: byte where "H264Level3_2 \<equiv> 0x01"
abbreviation H264Level4_0 :: byte where "H264Level4_0 \<equiv> 0x02"
abbreviation TLVAudioCodecType :: byte where "TLVAudioCodecType \<equiv> 0x01"
abbreviation TLVAudioCodecParams :: byte where "TLVAudioCodecParams \<equiv> 0x02"
abbreviation TLVAudioRTPParams :: byte where "TLVAudioRTPParams \<equiv> 0x03"
abbreviation TLVAudioComfort :: byte where "TLVAudioComfort \<equiv> 0x04"
abbreviation AudioCodecPCMU :: byte where "AudioCodecPCMU \<equiv> 0x00"
abbreviation AudioCodecPCMA :: byte where "AudioCodecPCMA \<equiv> 0x01"
abbreviation AudioCodecAACELD :: byte where "AudioCodecAACELD \<equiv> 0x02"
abbreviation AudioCodecOpus :: byte where "AudioCodecOpus \<equiv> 0x03"
abbreviation TLVVideoProfileID :: byte where "TLVVideoProfileID \<equiv> 0x01"
abbreviation TLVVideoLevel :: byte where "TLVVideoLevel \<equiv> 0x02"
abbreviation TLVVideoPacketizationMode :: byte where "TLVVideoPacketizationMode \<equiv> 0x03"
abbreviation TLVAudioChannels :: byte where "TLVAudioChannels \<equiv> 0x01"
abbreviation TLVAudioBitRate :: byte where "TLVAudioBitRate \<equiv> 0x02"
abbreviation TLVAudioSampleRate :: byte where "TLVAudioSampleRate \<equiv> 0x03"
abbreviation TLVAudioPacketTime :: byte where "TLVAudioPacketTime \<equiv> 0x04"
abbreviation AudioSampleRate8kHz :: byte where "AudioSampleRate8kHz \<equiv> 0x00"
abbreviation AudioSampleRate16kHz :: byte where "AudioSampleRate16kHz \<equiv> 0x01"
abbreviation AudioSampleRate24kHz :: byte where "AudioSampleRate24kHz \<equiv> 0x02"
abbreviation TLVRTPPayloadType :: byte where "TLVRTPPayloadType \<equiv> 0x01"
abbreviation TLVRTPSSRC :: byte where "TLVRTPSSRC \<equiv> 0x02"
abbreviation TLVRTPMaxBitrate :: byte where "TLVRTPMaxBitrate \<equiv> 0x03"
abbreviation TLVRTPMinInterval :: byte where "TLVRTPMinInterval \<equiv> 0x04"
abbreviation TLVRTPMaxMTU :: byte where "TLVRTPMaxMTU \<equiv> 0x05"
abbreviation TLVStreamingStatus :: byte where "TLVStreamingStatus \<equiv> 0x01"
abbreviation StreamingStatusAvailable :: byte where "StreamingStatusAvailable \<equiv> 0x00"
abbreviation StreamingStatusInUse :: byte where "StreamingStatusInUse \<equiv> 0x01"
abbreviation StreamingStatusUnavailable :: byte where "StreamingStatusUnavailable \<equiv> 0x02"
abbreviation CryptoSuiteAES_CM_128_HMAC_SHA1_80 :: byte where "CryptoSuiteAES_CM_128_HMAC_SHA1_80 \<equiv> 0x00"
abbreviation CryptoSuiteAES_CM_256_HMAC_SHA1_80 :: byte where "CryptoSuiteAES_CM_256_HMAC_SHA1_80 \<equiv> 0x01"
abbreviation CryptoSuiteDisabled :: byte where "CryptoSuiteDisabled \<equiv> 0x02"

section \<open>Messages\<close>

record StreamEndpoints =
  EpSessionID :: bytes
  LocalIP :: ip
  LocalVideoPort :: u16
  LocalAudioPort :: u16
  EpVideoSRTPKey :: bytes
  EpVideoSRTPSalt :: bytes
  EpAudioSRTPKey :: bytes
  EpAudioSRTPSalt :: bytes

record StreamResponse =
  SessionID :: bytes
  Status :: byte
  RemoteIP :: "ip option"
  RemoteVideoPort :: u16
  RemoteAudioPort :: u16
  VideoSRTPKey :: "bytes option"
  VideoSRTPSalt :: "bytes option"
  AudioSRTPKey :: "bytes option"
  AudioSRTPSalt :: "bytes option"
  VideoSSRC :: u32
  AudioSSRC :: u32
  ControllerVideoKey :: bytes
  ControllerVideoSalt :: bytes
  ControllerVideoSSRC :: u32
  ControllerAudioKey :: bytes
  ControllerAudioSalt :: bytes
  ControllerAudioSSRC :: u32

record VideoSelection =
  Profile :: byte
  Level :: byte
  Width :: u16
  Height :: u16
  FPS :: int
  VMaxBitrate :: int
  VSSRC :: u32
  VPayloadType :: byte
  VRTCPInterval :: u32

record AudioSelection =
  CodecType :: byte
  ASampleRate :: byte
  BitRateMode :: byte
  PacketTime :: int
  AMaxBitrate :: int
  ASSRC :: u32
  APayloadType :: byte
  ARTCPInterval :: u32

text \<open>The zero value of the response struct.\<close>

definition emptyResponse :: StreamResponse where
  "emptyResponse =
     \<lparr>SessionID = replicate 16 0, Status = 0, RemoteIP = None, RemoteVideoPort = 0,
      RemoteAudioPort = 0, VideoSRTPKey = None, VideoSRTPSalt = None, AudioSRTPKey = None,
      AudioSRTPSalt = None, VideoSSRC = 0, AudioSSRC = 0, ControllerVideoKey = [],
      ControllerVideoSalt = [], ControllerVideoSSRC = 0, ControllerAudioKey = [],
      ControllerAudioSalt = [], ControllerAudioSSRC = 0\<rparr>"

text \<open>
  Five draws from the random source; \<open>rnd r n\<close> is \<^verbatim>\<open>rand.Read\<close> into an \<open>n\<close>-byte buffer and the
  next state of the source.
\<close>

definition GenerateStreamEndpoints ::
  "('r \<Rightarrow> nat \<Rightarrow> bytes result \<times> 'r) \<Rightarrow> 'r \<Rightarrow> ip \<Rightarrow> u16 \<Rightarrow> u16 \<Rightarrow> StreamEndpoints result \<times> 'r" where
  "GenerateStreamEndpoints rnd r0 localIP videoPort audioPort =
     (case rnd r0 16 of (Inl e, r1) \<Rightarrow> (Inl (''generate session ID: '' @ e), r1)
      | (Inr sid, r1) \<Rightarrow>
     (case rnd r1 16 of (Inl e, r2) \<Rightarrow> (Inl (''generate video SRTP key: '' @ e), r2)
      | (Inr vkey, r2) \<Rightarrow>
     (case rnd r2 14 of (Inl e, r3) \<Rightarrow> (Inl (''generate video SRTP salt: '' @ e), r3)
      | (Inr vsalt, r3) \<Rightarrow>
     (case rnd r3 16 of (Inl e, r4) \<Rightarrow> (Inl (''generate audio SRTP key: '' @ e), r4)
      | (Inr akey, r4) \<Rightarrow>
     (case rnd r4 14 of (Inl e, r5) \<Rightarrow> (Inl (''generate audio SRTP salt: '' @ e), r5)
      | (Inr asalt, r5) \<Rightarrow>
          (Inr \<lparr>EpSessionID = sid, LocalIP = localIP, LocalVideoPort = videoPort,
                LocalAudioPort = audioPort, EpVideoSRTPKey = vkey, EpVideoSRTPSalt = vsalt,
                EpAudioSRTPKey = akey, EpAudioSRTPSalt = asalt\<rparr>, r5))))))"

definition addressItems :: "(ip \<Rightarrow> string) \<Rightarrow> StreamEndpoints \<Rightarrow> TLV8Item list" where
  "addressItems showIPv6 ep =
     [item TLVAddressVersion [if To4 (LocalIP ep) = None then 0x01 else 0x00],
      item TLVAddressIP (stringBytes (IP_String showIPv6 (LocalIP ep))),
      item TLVAddressVideoPort (PutUint16LE (LocalVideoPort ep)),
      item TLVAddressAudioPort (PutUint16LE (LocalAudioPort ep))]"

definition srtpItems :: "bytes \<Rightarrow> bytes \<Rightarrow> TLV8Item list" where
  "srtpItems key salt =
     [item TLVSRTPCryptoType [CryptoSuiteAES_CM_128_HMAC_SHA1_80],
      item TLVSRTPMasterKey key, item TLVSRTPMasterSalt salt]"

definition setupItems :: "(ip \<Rightarrow> string) \<Rightarrow> StreamEndpoints \<Rightarrow> TLV8Item list" where
  "setupItems showIPv6 ep =
     [item TLVSessionID (EpSessionID ep),
      item TLVAddress (TLV8Encode (addressItems showIPv6 ep)),
      item TLVVideoParams (TLV8Encode (srtpItems (EpVideoSRTPKey ep) (EpVideoSRTPSalt ep))),
      item TLVAudioParams (TLV8Encode (srtpItems (EpAudioSRTPKey ep) (EpAudioSRTPSalt ep)))]"

definition EncodeSetupEndpoints :: "(ip \<Rightarrow> string) \<Rightarrow> StreamEndpoints \<Rightarrow> bytes" where
  "EncodeSetupEndpoints showIPv6 ep = TLV8Encode (setupItems showIPv6 ep)"

text \<open>
  The response decoder. A sub-message that does not decode is ignored, as the code
  ignores its error.
\<close>

definition decodeAddress :: "(string \<Rightarrow> ip option) \<Rightarrow> TLV8Item list \<Rightarrow> StreamResponse \<Rightarrow> StreamResponse" where
  "decodeAddress parseIPv6 items resp =
     (case TLV8GetBytes items TLVAddress of None \<Rightarrow> resp | Some addrData \<Rightarrow>
     (case TLV8Decode addrData of Inl _ \<Rightarrow> resp | Inr addrItems \<Rightarrow>
        let r1 = (case TLV8GetBytes addrItems TLVAddressIP of
                    None \<Rightarrow> resp
                  | Some a \<Rightarrow> resp\<lparr>RemoteIP := ParseIP parseIPv6 (bytesString a)\<rparr>);
            r2 = (case TLV8GetBytes addrItems TLVAddressVideoPort of
                    None \<Rightarrow> r1
                  | Some vp \<Rightarrow> if length vp = 2 then r1\<lparr>RemoteVideoPort := Uint16LE vp\<rparr> else r1)
        in (case TLV8GetBytes addrItems TLVAddressAudioPort of
              None \<Rightarrow> r2
            | Some vp \<Rightarrow> if length vp = 2 then r2\<lparr>RemoteAudioPort := Uint16LE vp\<rparr> else r2)))"

definition decodeVideoParams :: "TLV8Item list \<Rightarrow> StreamResponse \<Rightarrow> StreamResponse" where
  "decodeVideoParams items resp =
     (case TLV8GetBytes items TLVVideoParams of None \<Rightarrow> resp | Some d \<Rightarrow>
     (case TLV8Decode d of Inl _ \<Rightarrow> resp | Inr its \<Rightarrow>
        resp\<lparr>VideoSRTPKey := TLV8GetBytes its TLVSRTPMasterKey,
             VideoSRTPSalt := TLV8GetBytes its TLVSRTPMasterSalt\<rparr>))"

definition decodeAudioParams :: "TLV8Item list \<Rightarrow> StreamResponse \<Rightarrow> StreamResponse" where
  "decodeAudioParams items resp =
     (case TLV8GetBytes items TLVAudioParams of None \<Rightarrow> resp | Some d \<Rightarrow>
     (case TLV8Decode d of Inl _ \<Rightarrow> resp | Inr its \<Rightarrow>
        resp\<lparr>AudioSRTPKey := TLV8GetBytes its TLVSRTPMasterKey,
             AudioSRTPSalt := TLV8GetBytes its TLVSRTPMasterSalt\<rparr>))"

definition decodeHead :: "TLV8Item list \<Rightarrow> StreamResponse" where
  "decodeHead items =
     (let r0 = (case TLV8GetBytes items TLVSessionID of
                  Some sid \<Rightarrow> if length sid = 16 then emptyResponse\<lparr>SessionID := sid\<rparr> else emptyResponse
                | None \<Rightarrow> emptyResponse)
      in (case TLV8GetByte items TLVStatus of Some st \<Rightarrow> r0\<lparr>Status := st\<rparr> | None \<Rightarrow> r0))"

definition DecodeStreamResponse :: "(string \<Rightarrow> ip option) \<Rightarrow> bytes \<Rightarrow> StreamResponse result" where
  "DecodeStreamResponse parseIPv6 data =
     (case TLV8Decode data of
        Inl e \<Rightarrow> Inl (''decode response TLV8: '' @ e)
      | Inr items \<Rightarrow>
          Inr (decodeAudioParams items (decodeVideoParams items
            (decodeAddress parseIPv6 items (decodeHead items)))))"

section \<open>The selected configuration\<close>

definition uint16Bytes :: "u16 \<Rightarrow> bytes" where "uint16Bytes v = PutUint16LE v"
definition float32Bytes :: "u32 \<Rightarrow> bytes" where "float32Bytes v = PutUint32LE v"

definition sessionControlItems :: "bytes \<Rightarrow> byte \<Rightarrow> TLV8Item list" where
  "sessionControlItems sid command =
     [item TLVSessionControlID sid, item TLVSessionControlCommand [command]]"

definition videoCodecItems :: "VideoSelection \<Rightarrow> TLV8Item list" where
  "videoCodecItems v =
     [item TLVVideoProfileID [Profile v], item TLVVideoLevel [Level v],
      item TLVVideoPacketizationMode [0x00]]"

definition videoAttrItems :: "VideoSelection \<Rightarrow> TLV8Item list" where
  "videoAttrItems v =
     [item 0x01 (uint16Bytes (Width v)), item 0x02 (uint16Bytes (Height v)),
      item 0x03 [of_int (FPS v)]]"

definition videoRTPItems :: "VideoSelection \<Rightarrow> TLV8Item list" where
  "videoRTPItems v =
     [item TLVRTPPayloadType [VPayloadType v], item TLVRTPSSRC (PutUint32LE (VSSRC v)),
      item TLVRTPMaxBitrate (PutUint16LE (of_int (VMaxBitrate v))),
      item TLVRTPMinInterval (float32Bytes (VRTCPInterval v)),
      item TLVRTPMaxMTU (uint16Bytes 1378)]"

definition videoParamItems :: "VideoSelection \<Rightarrow> TLV8Item list" where
  "videoParamItems v =
     [item TLVVideoCodecType [VideoCodecH264],
      item TLVVideoCodecParams (TLV8Encode (videoCodecItems v)),
      item TLVVideoAttributes (TLV8Encode (videoAttrItems v)),
      item TLVVideoRTPParams (TLV8Encode (videoRTPItems v))]"

definition audioCodecItems :: "AudioSelection \<Rightarrow> TLV8Item list" where
  "audioCodecItems a =
     [item TLVAudioChannels [0x01], item TLVAudioBitRate [BitRateMode a],
      item TLVAudioSampleRate [ASampleRate a], item TLVAudioPacketTime [of_int (PacketTime a)]]"

definition audioRTPItems :: "AudioSelection \<Rightarrow> TLV8Item list" where
  "audioRTPItems a =
     [item TLVRTPPayloadType [APayloadType a], item TLVRTPSSRC (PutUint32LE (ASSRC a)),
      item TLVRTPMaxBitrate (uint16Bytes (of_int (AMaxBitrate a))),
      item TLVRTPMinInterval (float32Bytes (ARTCPInterval a)),
      item 0x06 [13]]"

definition audioParamItems :: "AudioSelection \<Rightarrow> TLV8Item list" where
  "audioParamItems a =
     [item TLVAudioCodecType [CodecType a],
      item TLVAudioCodecParams (TLV8Encode (audioCodecItems a)),
      item TLVAudioRTPParams (TLV8Encode (audioRTPItems a)),
      item TLVAudioComfort [0x00]]"

definition EncodeSelectedStreamConfig :: "bytes \<Rightarrow> byte \<Rightarrow> VideoSelection \<Rightarrow> AudioSelection \<Rightarrow> bytes" where
  "EncodeSelectedStreamConfig sid command video audio =
     TLV8Encode
       [item TLVSelectedSessionControl (TLV8Encode (sessionControlItems sid command)),
        item TLVSelectedVideoParams (TLV8Encode (videoParamItems video)),
        item TLVSelectedAudioParams (TLV8Encode (audioParamItems audio))]"

section \<open>Reading messages back\<close>

text \<open>A field of a nested message, by the path of its type codes.\<close>

fun tlvPath :: "bytes \<Rightarrow> byte list \<Rightarrow> bytes option" where
  "tlvPath d [] = Some d"
| "tlvPath d (t # ts) =
     (case TLV8Decode d of
        Inl _ \<Rightarrow> None
      | Inr items \<Rightarrow> (case TLV8GetBytes items t of None \<Rightarrow> None | Some v \<Rightarrow> tlvPath v ts))"

lemmas setup_messages = setupItems_def addressItems_def srtpItems_def

lemmas selected_messages = sessionControlItems_def videoParamItems_def videoCodecItems_def
  videoAttrItems_def videoRTPItems_def audioParamItems_def audioCodecItems_def audioRTPItems_def
  uint16Bytes_def float32Bytes_def

section \<open>Properties\<close>

text \<open>
  C31. The SetupEndpoints writer and reader agree: decoding what \<^verbatim>\<open>EncodeSetupEndpoints\<close>
  produced for a 16-byte session id and an IPv4 address recovers the session id, the
  address, both ports and both key/salt pairs, whatever their bytes, and leaves every
  other field at its zero value.
\<close>

theorem setup_endpoints_roundtrip:
  assumes "length (EpSessionID ep) = 16" "length (LocalIP ep) = 4"
  shows "DecodeStreamResponse parseIPv6 (EncodeSetupEndpoints showIPv6 ep) = Inr (emptyResponse\<lparr>
     SessionID := EpSessionID ep, RemoteIP := Some (v4InV6Prefix @ LocalIP ep),
     RemoteVideoPort := LocalVideoPort ep, RemoteAudioPort := LocalAudioPort ep,
     VideoSRTPKey := Some (EpVideoSRTPKey ep), VideoSRTPSalt := Some (EpVideoSRTPSalt ep),
     AudioSRTPKey := Some (EpAudioSRTPKey ep), AudioSRTPSalt := Some (EpAudioSRTPSalt ep)\<rparr>)"
proof -
  have head: "decodeHead (setupItems showIPv6 ep) = emptyResponse\<lparr>SessionID := EpSessionID ep\<rparr>"
    using assms(1) by (simp add: decodeHead_def setup_messages TLV8GetByte_def)
  have addr: "decodeAddress parseIPv6 (setupItems showIPv6 ep) r = r\<lparr>
      RemoteIP := Some (v4InV6Prefix @ LocalIP ep),
      RemoteVideoPort := LocalVideoPort ep, RemoteAudioPort := LocalAudioPort ep\<rparr>" for r
    using assms(2) by (simp add: decodeAddress_def setup_messages ParseIP_String)
  have crypto: "decodeAudioParams (setupItems showIPv6 ep) (decodeVideoParams (setupItems showIPv6 ep) r) = r\<lparr>
      VideoSRTPKey := Some (EpVideoSRTPKey ep), VideoSRTPSalt := Some (EpVideoSRTPSalt ep),
      AudioSRTPKey := Some (EpAudioSRTPKey ep), AudioSRTPSalt := Some (EpAudioSRTPSalt ep)\<rparr>" for r
    by (simp add: decodeVideoParams_def decodeAudioParams_def setup_messages)
  have "TLV8Decode (EncodeSetupEndpoints showIPv6 ep) = Inr (setupItems showIPv6 ep)"
    unfolding EncodeSetupEndpoints_def by (rule decode_message) (simp add: setupItems_def)
  then show ?thesis
    by (simp add: DecodeStreamResponse_def head addr crypto)
qed

definition sampleEndpoints :: StreamEndpoints where
  "sampleEndpoints =
     \<lparr>EpSessionID = replicate 16 7, LocalIP = [192, 168, 1, 10], LocalVideoPort = 5000,
      LocalAudioPort = 5001, EpVideoSRTPKey = replicate 16 1, EpVideoSRTPSalt = replicate 14 2,
      EpAudioSRTPKey = replicate 16 3, EpAudioSRTPSalt = replicate 14 4\<rparr>"

theorem setup_endpoints_roundtrip_witness:
  "\<exists>resp. DecodeStreamResponse (\<lambda>_. None) (EncodeSetupEndpoints (\<lambda>_. []) sampleEndpoints) = Inr resp
     \<and> RemoteVideoPort resp = 5000 \<and> SessionID resp = replicate 16 7"
  by (subst setup_endpoints_roundtrip) (simp_all add: sampleEndpoints_def emptyResponse_def)


end
