(* ===== verification/Base64.thy ===== *)
theory Base64
  imports Prelude
begin

text \<open>
  The standard base64 encoding of \<^verbatim>\<open>encoding/base64\<close> (\<^verbatim>\<open>StdEncoding\<close>), in which HAP carries TLV8 values inside JSON:
  the encoder, the decoder (which skips line breaks and requires padding), and that one inverts the other.
\<close>

definition encode6 :: "nat \<Rightarrow> char" where
  "encode6 n =
     (if n < 26 then char_of (65 + n) else if n < 52 then char_of (71 + n) else if n < 62 then char_of (n - 4)
      else if n = 62 then CHR ''+'' else CHR ''/'')"

definition decode6 :: "char \<Rightarrow> nat option" where
  "decode6 ch =
     (let c = of_char ch :: nat in
      if 65 \<le> c \<and> c \<le> 90 then Some (c - 65) else if 97 \<le> c \<and> c \<le> 122 then Some (c - 71)
      else if 48 \<le> c \<and> c \<le> 57 then Some (c + 4) else if ch = CHR ''+'' then Some 62 else if ch = CHR ''/'' then Some 63 else None)"

definition group4 :: "byte \<Rightarrow> byte \<Rightarrow> byte \<Rightarrow> string" where
  "group4 a b c =
     (let x = unat a; y = unat b; z = unat c in
      [encode6 (x div 4), encode6 (x mod 4 * 16 + y div 16), encode6 (y mod 16 * 4 + z div 64), encode6 (z mod 64)])"

fun EncodeToString :: "bytes \<Rightarrow> string" where
  "EncodeToString [] = []"
| "EncodeToString [a] = take 2 (group4 a 0 0) @ ''==''"
| "EncodeToString [a, b] = take 3 (group4 a b 0) @ ''=''"
| "EncodeToString (a # b # c # bs) = group4 a b c @ EncodeToString bs"

definition triple :: "nat \<Rightarrow> nat \<Rightarrow> nat \<Rightarrow> nat \<Rightarrow> bytes" where
  "triple p q r s = [of_nat (p * 4 + q div 16), of_nat (q mod 16 * 16 + r div 4), of_nat (r mod 4 * 64 + s)]"

fun decodeGroups :: "string \<Rightarrow> bytes result" where
  "decodeGroups [] = Inr []"
| "decodeGroups (w # x # y # z # cs) =
     (case (decode6 w, decode6 x, decode6 y, decode6 z) of
        (Some p, Some q, Some r, Some s) \<Rightarrow> bindR (decodeGroups cs) (\<lambda>bs. Inr (triple p q r s @ bs))
      | (Some p, Some q, Some r, None) \<Rightarrow>
          if z = CHR ''='' \<and> cs = [] then Inr (take 2 (triple p q r 0)) else Inl ''illegal base64 data''
      | (Some p, Some q, None, None) \<Rightarrow>
          if y = CHR ''='' \<and> z = CHR ''='' \<and> cs = [] then Inr (take 1 (triple p q 0 0)) else Inl ''illegal base64 data''
      | _ \<Rightarrow> Inl ''illegal base64 data'')"
| "decodeGroups _ = Inl ''illegal base64 data''"

definition DecodeString :: "string \<Rightarrow> bytes result" where
  "DecodeString s = decodeGroups (filter (\<lambda>c. c \<noteq> CHR 0x0A \<and> c \<noteq> CHR 0x0D) s)"

section \<open>Round trip\<close>

lemma decode6_encode6 [simp]: "n < 64 \<Longrightarrow> decode6 (encode6 n) = Some n"
proof -
  assume "n < 64"
  then consider "n < 26" | "26 \<le> n" "n < 52" | "52 \<le> n" "n < 62" | "n = 62" | "n = 63" by linarith
  then show ?thesis by cases (auto simp: encode6_def decode6_def Let_def)
qed

lemma decode6_others [simp]: "decode6 (CHR ''='') = None" "decode6 (CHR 0x0A) = None" "decode6 (CHR 0x0D) = None"
  by code_simp+

lemma encode6_no_newline [simp]: "n < 64 \<Longrightarrow> encode6 n \<noteq> CHR 0x0A" "n < 64 \<Longrightarrow> encode6 n \<noteq> CHR 0x0D"
  using decode6_encode6 decode6_others by (metis option.distinct(1))+

lemma digit_split:
  fixes q k m :: nat
  assumes "k < m"
  shows "(q * m + k) div m = q" "(q * m + k) mod m = k"
  using assms by simp_all

lemma sextets_less:
  fixes x y :: nat
  assumes "x < 256" "y < 256"
  shows "x div 4 < 64" "x mod 4 * 16 + y div 16 < 64" "x mod 16 * 4 + y div 64 < 64"
proof -
  have "x mod 4 < 4" "y div 16 < 16" "x mod 16 < 16" "y div 64 < 4" using assms by (simp_all add: less_mult_imp_div_less)
  then show "x div 4 < 64" "x mod 4 * 16 + y div 16 < 64" "x mod 16 * 4 + y div 64 < 64"
    using assms by (simp_all add: less_mult_imp_div_less)
qed

lemma first_sextet: "unat (a :: byte) div 4 < 64"
  using sextets_less(1) [of "unat a" 0] by simp

lemma triple_sextets:
  "triple (unat a div 4) (unat a mod 4 * 16 + unat b div 16) (unat b mod 16 * 4 + unat c div 64) (unat c mod 64) = [a, b, c]"
proof -
  have "unat b div 16 < 16" "unat c div 64 < 4"
    using unat_byte_less [of b] unat_byte_less [of c] by (simp_all add: less_mult_imp_div_less)
  then show ?thesis by (simp add: triple_def digit_split)
qed

lemma group4_sextets:
  obtains p q r s where "group4 a b c = [encode6 p, encode6 q, encode6 r, encode6 s]"
    "p < 64" "q < 64" "r < 64" "s < 64" "triple p q r s = [a, b, c]"
  by (rule that [of "unat a div 4" "unat a mod 4 * 16 + unat b div 16" "unat b mod 16 * 4 + unat c div 64" "unat c mod 64"])
     (simp_all add: group4_def Let_def first_sextet sextets_less triple_sextets)

lemma decodeGroups_group4: "decodeGroups (group4 a b c @ cs) = bindR (decodeGroups cs) (\<lambda>bs. Inr (a # b # c # bs))"
  by (rule group4_sextets [of a b c]) simp

lemma decodeGroups_tail2: "decodeGroups (take 3 (group4 a b 0) @ ''='') = Inr [a, b]"
proof -
  have "group4 a b 0 = [encode6 (unat a div 4), encode6 (unat a mod 4 * 16 + unat b div 16), encode6 (unat b mod 16 * 4), encode6 0]"
    by (simp add: group4_def Let_def)
  moreover have "take 2 (triple (unat a div 4) (unat a mod 4 * 16 + unat b div 16) (unat b mod 16 * 4) 0) = [a, b]"
    using triple_sextets [of a b 0] by simp
  ultimately show ?thesis using sextets_less [of "unat a" "unat b"] sextets_less(3) [of "unat b" 0] by simp
qed

lemma decodeGroups_tail1: "decodeGroups (take 2 (group4 a 0 0) @ ''=='') = Inr [a]"
proof -
  have "group4 a 0 0 = [encode6 (unat a div 4), encode6 (unat a mod 4 * 16), encode6 0, encode6 0]" by (simp add: group4_def Let_def)
  moreover have "take 1 (triple (unat a div 4) (unat a mod 4 * 16) 0 0) = [a]" using triple_sextets [of a 0 0] by simp
  ultimately show ?thesis using sextets_less [of "unat a" 0] by simp
qed

lemma decodeGroups_EncodeToString: "decodeGroups (EncodeToString bs) = Inr bs"
  by (induction bs rule: EncodeToString.induct)
     (simp_all add: decodeGroups_tail1 decodeGroups_tail2 decodeGroups_group4 del: take_append)

lemma EncodeToString_no_newline: "c \<in> set (EncodeToString bs) \<Longrightarrow> c \<noteq> CHR 0x0A \<and> c \<noteq> CHR 0x0D"
proof (induction bs rule: EncodeToString.induct)
  case (2 a)
  then show ?case using sextets_less [of "unat a" 0] by (auto simp: group4_def Let_def)
next
  case (3 a b)
  then show ?case using sextets_less [of "unat a" "unat b"] sextets_less(3) [of "unat b" 0] by (auto simp: group4_def Let_def numeral_3_eq_3)
next
  case (4 a b c bs)
  then show ?case using group4_sextets [of a b c] by (metis (no_types, lifting) EncodeToString.simps(4) Un_iff encode6_no_newline
    empty_iff empty_set set_ConsD set_append)
qed simp

lemma DecodeString_EncodeToString [simp]: "DecodeString (EncodeToString bs) = Inr bs"
proof -
  have "filter (\<lambda>c. c \<noteq> CHR 0x0A \<and> c \<noteq> CHR 0x0D) (EncodeToString bs) = EncodeToString bs"
    using EncodeToString_no_newline by (intro filter_True) blast
  then show ?thesis by (simp add: DecodeString_def decodeGroups_EncodeToString)
qed

end
