(* ===== verification/Hap_Client.thy ===== *)
theory Hap_Client
  imports Prelude Complex_Main
begin

text \<open>
  The HAP client of \<^verbatim>\<open>internal/hap/hap_client.go\<close>: the accessory database types, the requests over the encrypted connection and
  the treatment of their responses, and the concurrency of the reader goroutine with the requests. JSON and HTTP
  parsing are functions of the bytes; a reading is what one iteration of the reader loop gets from the
  connection.
\<close>

section \<open>The accessory database\<close>

datatype jvalue = JNull | JBool bool | JNumber rat | JString string | JOther

record Characteristic =
  AID :: int
  IID :: int
  charType :: string
  charValue :: jvalue
  Perms :: "string list"
  Format :: string
  Ev :: "bool option"

record Service =
  svcIID :: int
  svcType :: string
  Characteristics :: "Characteristic list"

record Accessory =
  accAID :: int
  Services :: "Service list"

record jsonLib =
  parseAccessories :: "bytes \<Rightarrow> Accessory list result"
  parseCharacteristics :: "bytes \<Rightarrow> Characteristic list result"
  parseStatuses :: "bytes \<Rightarrow> (int \<times> int \<times> int) list result"
  marshalCharacteristics :: "Characteristic list \<Rightarrow> bytes result"

definition charWrite :: "int \<Rightarrow> int \<Rightarrow> jvalue \<Rightarrow> Characteristic" where
  "charWrite aid iid v = \<lparr>AID = aid, IID = iid, charType = [], charValue = v, Perms = [], Format = [], Ev = None\<rparr>"

section \<open>Requests\<close>

type_synonym response = "nat \<times> bytes"

text \<open>A connection as its requests see it: what \<^verbatim>\<open>doRequest\<close> gives for the bytes it writes, and the peer's address.\<close>

record 'v transport =
  exchange :: "'v \<Rightarrow> bytes \<Rightarrow> response result \<times> 'v"
  remoteAddr :: "'v \<Rightarrow> string"

definition requestBytes :: "string \<Rightarrow> string \<Rightarrow> string \<Rightarrow> bytes option \<Rightarrow> bytes" where
  "requestBytes httpMethod path addr body =
     stringBytes (httpMethod @ '' '' @ path @ '' HTTP/1.1'' @ crlf @ ''Host: '' @ addr @ crlf
       @ (case body of
            None \<Rightarrow> []
          | Some b \<Rightarrow> ''Content-Type: application/hap+json'' @ crlf @ ''Content-Length: '' @ show_nat (length b) @ crlf)
       @ crlf)
     @ (case body of None \<Rightarrow> [] | Some b \<Rightarrow> b)"

definition doRequest :: "'v transport \<Rightarrow> string \<Rightarrow> string \<Rightarrow> bytes option \<Rightarrow> 'v \<Rightarrow> response result \<times> 'v" where
  "doRequest tr httpMethod path body v = exchange tr v (requestBytes httpMethod path (remoteAddr tr v) body)"

definition httpError :: "response \<Rightarrow> go_error" where
  "httpError r = ''HTTP '' @ show_nat (fst r) @ '': '' @ bytesString (snd r)"

definition GetAccessories :: "jsonLib \<Rightarrow> 'v transport \<Rightarrow> 'v \<Rightarrow> Accessory list result \<times> 'v" where
  "GetAccessories js tr v =
     (let (r, v') = doRequest tr ''GET'' ''/accessories'' None v in
      (bindR r (\<lambda>resp.
       bindR (failIf (fst resp \<noteq> 200) (httpError resp)) (\<lambda>_.
       wrapR ''parse accessories: '' (parseAccessories js (snd resp)))), v'))"

text \<open>\<^verbatim>\<open>strings.Join(ids, ",")\<close>.\<close>

fun joinComma :: "string list \<Rightarrow> string" where
  "joinComma [] = []"
| "joinComma [s] = s"
| "joinComma (s # t # ss) = s @ '','' @ joinComma (t # ss)"

definition GetCharacteristics :: "jsonLib \<Rightarrow> 'v transport \<Rightarrow> string list \<Rightarrow> 'v \<Rightarrow> Characteristic list result \<times> 'v" where
  "GetCharacteristics js tr ids v =
     (let (r, v') = doRequest tr ''GET'' (''/characteristics?id='' @ joinComma ids) None v in
      (bindR r (\<lambda>resp.
       bindR (failIf (fst resp \<noteq> 200 \<and> fst resp \<noteq> 207) (httpError resp)) (\<lambda>_.
       wrapR ''parse characteristics: '' (parseCharacteristics js (snd resp)))), v'))"

text \<open>The first characteristic of a multi-status response with a non-zero status, as an error.\<close>

fun statusError :: "(int \<times> int \<times> int) list \<Rightarrow> unit result" where
  "statusError [] = Inr ()"
| "statusError ((aid, iid, st) # chs) =
     (if st \<noteq> 0 then Inl (''characteristic '' @ showInt aid @ ''.'' @ showInt iid @ '' error status '' @ showInt st)
      else statusError chs)"

definition putResult :: "jsonLib \<Rightarrow> response \<Rightarrow> unit result" where
  "putResult js resp =
     (if fst resp = 204 \<or> fst resp = 200 then Inr ()
      else if fst resp = 207
      then (case parseStatuses js (snd resp) of Inl _ \<Rightarrow> Inr () | Inr chs \<Rightarrow> statusError chs)
      else Inl (httpError resp))"

definition PutCharacteristics :: "jsonLib \<Rightarrow> 'v transport \<Rightarrow> Characteristic list \<Rightarrow> 'v \<Rightarrow> unit result \<times> 'v" where
  "PutCharacteristics js tr chars v =
     (case marshalCharacteristics js chars of
        Inl e \<Rightarrow> (Inl (''marshal: '' @ e), v)
      | Inr body \<Rightarrow>
          let (r, v') = doRequest tr ''PUT'' ''/characteristics'' (Some body) v in (bindR r (putResult js), v'))"

definition SubscribeCharacteristic :: "jsonLib \<Rightarrow> 'v transport \<Rightarrow> int \<Rightarrow> int \<Rightarrow> 'v \<Rightarrow> unit result \<times> 'v" where
  "SubscribeCharacteristic js tr aid iid v =
     PutCharacteristics js tr [(charWrite aid iid JNull)\<lparr>Ev := Some True\<rparr>] v"

section \<open>The reader goroutine\<close>

datatype reading =
    PeekError go_error
  | ParseError bool go_error
  | BodyError bool go_error
  | Message bool response

text \<open>Where the reader is: reading, blocked in sending a result (and about to return after it or not), returning, gone.\<close>

datatype readerState = Reading | Sending "response result" bool | Returning | Gone

record HAPClient =
  respCh :: "response result option"
  eventCh :: "Characteristic list list"
  reader :: readerState
  doneClosed :: bool

definition NewHAPClient :: HAPClient where
  "NewHAPClient = \<lparr>respCh = None, eventCh = [], reader = Reading, doneClosed = False\<rparr>"

definition readLoop_read :: "jsonLib \<Rightarrow> reading \<Rightarrow> HAPClient \<Rightarrow> HAPClient" where
  "readLoop_read js rd c =
     (case rd of
        PeekError e \<Rightarrow> c\<lparr>reader := Sending (Inl e) True\<rparr>
      | ParseError isEvent e \<Rightarrow> if isEvent then c else c\<lparr>reader := Sending (Inl (''read HTTP response: '' @ e)) True\<rparr>
      | BodyError isEvent e \<Rightarrow> if isEvent then c else c\<lparr>reader := Sending (Inl (''read body: '' @ e)) True\<rparr>
      | Message isEvent resp \<Rightarrow>
          if isEvent
          then (case parseCharacteristics js (snd resp) of
                  Inl _ \<Rightarrow> c
                | Inr ev \<Rightarrow> if length (eventCh c) < 16 then c\<lparr>eventCh := eventCh c @ [ev]\<rparr> else c)
          else c\<lparr>reader := Sending (Inr resp) False\<rparr>)"

definition readLoop_send :: "HAPClient \<Rightarrow> HAPClient" where
  "readLoop_send c =
     (case (reader c, respCh c) of
        (Sending r exit, None) \<Rightarrow> c\<lparr>respCh := Some r, reader := (if exit then Returning else Reading)\<rparr>
      | _ \<Rightarrow> c)"

definition readLoop_return :: "HAPClient \<Rightarrow> HAPClient" where
  "readLoop_return c = (if reader c = Returning then c\<lparr>reader := Gone, doneClosed := True\<rparr> else c)"

text \<open>The three ways out of the wait in \<^verbatim>\<open>doRequest\<close>; each needs its channel to be ready.\<close>

datatype waitEnd = GotResult | TimedOut | ConnDone

definition doRequest_wait :: "waitEnd \<Rightarrow> HAPClient \<Rightarrow> (response result \<times> HAPClient) option" where
  "doRequest_wait w c =
     (case w of
        GotResult \<Rightarrow> (case respCh c of None \<Rightarrow> None | Some r \<Rightarrow> Some (r, c\<lparr>respCh := None\<rparr>))
      | TimedOut \<Rightarrow> Some (Inl ''HAP request timeout after 30s'', c)
      | ConnDone \<Rightarrow> if doneClosed c then Some (Inl ''HAP connection closed'', c) else None)"

section \<open>Requests and responses together\<close>

text \<open>
  The world of one connection: the client, how many requests were written and how many of them the accessory has
  answered, the messages on their way to the reader, whether a request holds \<^verbatim>\<open>reqMu\<close>, and the outcomes of the
  completed requests in order. \<open>answer k\<close> is the accessory's response to the request numbered \<open>k\<close>. A connection that breaks
  delivers one error and nothing after it.
\<close>

record hapWorld =
  hapClient :: HAPClient
  written :: nat
  answered :: nat
  incoming :: "reading list"
  broken :: bool
  busy :: bool
  outcomes :: "response result list"

inductive hapStep :: "(nat \<Rightarrow> response) \<Rightarrow> jsonLib \<Rightarrow> hapWorld \<Rightarrow> hapWorld \<Rightarrow> bool"
  for answer :: "nat \<Rightarrow> response" and js :: jsonLib where
  request: "\<not> busy w \<Longrightarrow> hapStep answer js w (w\<lparr>busy := True, written := written w + 1\<rparr>)"
| respond: "answered w < written w \<Longrightarrow> \<not> broken w \<Longrightarrow>
    hapStep answer js w (w\<lparr>answered := answered w + 1, incoming := incoming w @ [Message False (answer (answered w))]\<rparr>)"
| event: "rd \<in> {ParseError True e, BodyError True e, Message True resp} \<Longrightarrow> \<not> broken w \<Longrightarrow>
    hapStep answer js w (w\<lparr>incoming := incoming w @ [rd]\<rparr>)"
| break: "rd \<in> {PeekError e, ParseError False e, BodyError False e} \<Longrightarrow> \<not> broken w \<Longrightarrow>
    hapStep answer js w (w\<lparr>broken := True, incoming := incoming w @ [rd]\<rparr>)"
| read: "incoming w = rd # rest \<Longrightarrow> reader (hapClient w) = Reading \<Longrightarrow>
    hapStep answer js w (w\<lparr>incoming := rest, hapClient := readLoop_read js rd (hapClient w)\<rparr>)"
| send: "hapStep answer js w (w\<lparr>hapClient := readLoop_send (hapClient w)\<rparr>)"
| return: "hapStep answer js w (w\<lparr>hapClient := readLoop_return (hapClient w)\<rparr>)"
| take_event: "eventCh (hapClient w) = ev # evs \<Longrightarrow>
    hapStep answer js w (w\<lparr>hapClient := (hapClient w)\<lparr>eventCh := evs\<rparr>\<rparr>)"
| complete: "busy w \<Longrightarrow> doRequest_wait we (hapClient w) = Some (r, c) \<Longrightarrow>
    hapStep answer js w (w\<lparr>busy := False, hapClient := c, outcomes := outcomes w @ [r]\<rparr>)"

definition hapInit :: "hapWorld \<Rightarrow> bool" where
  "hapInit w \<longleftrightarrow> w = \<lparr>hapClient = NewHAPClient, written = 0, answered = 0, incoming = [], broken = False, busy = False, outcomes = []\<rparr>"

section \<open>Which response a request gets\<close>

fun responsesIn :: "reading list \<Rightarrow> response list" where
  "responsesIn [] = []"
| "responsesIn (Message False r # rds) = r # responsesIn rds"
| "responsesIn (_ # rds) = responsesIn rds"

fun successes :: "response result list \<Rightarrow> response list" where
  "successes [] = []"
| "successes (Inr r # rs) = r # successes rs"
| "successes (Inl _ # rs) = successes rs"

text \<open>The responses handed over, waiting in the channel, held by the reader, and on their way, in this order.\<close>

definition heldBy :: "readerState \<Rightarrow> response list" where
  "heldBy s = (case s of Sending (Inr r) _ \<Rightarrow> [r] | _ \<Rightarrow> [])"

definition pipeline :: "hapWorld \<Rightarrow> response list" where
  "pipeline w = successes (outcomes w)
     @ (case respCh (hapClient w) of Some (Inr r) \<Rightarrow> [r] | _ \<Rightarrow> [])
     @ heldBy (reader (hapClient w)) @ responsesIn (incoming w)"

definition hapInv :: "(nat \<Rightarrow> response) \<Rightarrow> hapWorld \<Rightarrow> bool" where
  "hapInv answer w \<longleftrightarrow> pipeline w = map answer [0..<answered w] \<and> answered w \<le> written w
     \<and> written w = length (outcomes w) + (if busy w then 1 else 0)"

lemma responsesIn_append [simp]: "responsesIn (xs @ ys) = responsesIn xs @ responsesIn ys"
  by (induction xs rule: responsesIn.induct) simp_all

lemma successes_append [simp]: "successes (xs @ ys) = successes xs @ successes ys"
  by (induction xs rule: successes.induct) simp_all

lemma heldBy_simps [simp]:
  "heldBy Reading = []" "heldBy Returning = []" "heldBy Gone = []" "heldBy (Sending (Inr r) b) = [r]" "heldBy (Sending (Inl e) b) = []"
  by (simp_all add: heldBy_def)

lemma hapInv_readLoop:
  assumes "hapInv answer w" "incoming w = rd # rest" "reader (hapClient w) = Reading"
  shows "hapInv answer (w\<lparr>incoming := rest, hapClient := readLoop_read js rd (hapClient w)\<rparr>)"
  using assms
  by (cases rd) (auto simp: hapInv_def pipeline_def readLoop_read_def split: sum.splits)

lemma hapInv_send: "hapInv answer w \<Longrightarrow> hapInv answer (w\<lparr>hapClient := readLoop_send (hapClient w)\<rparr>)"
  by (auto simp: hapInv_def pipeline_def readLoop_send_def split: readerState.splits option.splits sum.splits)

lemma hapInv_wait:
  assumes "hapInv answer w" "busy w" "doRequest_wait we (hapClient w) = Some (r, c)"
  shows "hapInv answer (w\<lparr>busy := False, hapClient := c, outcomes := outcomes w @ [r]\<rparr>)"
  using assms
  by (cases we; cases r) (auto simp: hapInv_def pipeline_def doRequest_wait_def split: option.splits if_splits)

interpretation hap: transition_system hapInit "hapStep answer js" "hapInv answer" for answer js
proof unfold_locales
  fix w assume "hapInit w"
  then show "hapInv answer w" by (simp add: hapInit_def hapInv_def pipeline_def NewHAPClient_def)
next
  fix w w' assume i: "hapInv answer w" and "hapStep answer js w w'"
  from this(2) show "hapInv answer w'"
  proof (cases rule: hapStep.cases)
    case read
    then show ?thesis using hapInv_readLoop [OF i] by simp
  next
    case send
    then show ?thesis using hapInv_send [OF i] by simp
  next
    case (complete we r c)
    then show ?thesis using hapInv_wait [OF i] by simp
  qed (use i in \<open>auto simp: hapInv_def pipeline_def readLoop_return_def\<close>)
qed

lemma successes_take:
  assumes "successes os @ rest = map f [0..<n]" "i < length os" "os ! i = Inr r"
  shows "r = f (length (successes (take i os)))"
proof -
  have "os = take i os @ Inr r # drop (Suc i) os" using assms(2,3) by (metis id_take_nth_drop)
  then have s: "successes os = successes (take i os) @ r # successes (drop (Suc i) os)"
    by (metis successes.simps(2) successes_append)
  let ?k = "length (successes (take i os))"
  have "?k < length (map f [0..<n])" unfolding assms(1) [symmetric] s by simp
  moreover have "map f [0..<n] ! ?k = r" unfolding assms(1) [symmetric] s by (simp add: nth_append)
  ultimately show ?thesis by simp
qed

lemma successes_all: "list_all (\<lambda>o'. \<exists>x. o' = Inr x) os \<Longrightarrow> length (successes os) = length os"
  by (induction os rule: successes.induct) auto

text \<open>
  C9. Responses go to requests in order. Under every interleaving of requests, the reader goroutine, events, timeouts and a
  breaking connection, the request that completes with a response gets the accessory's answer number \<open>k\<close>, where \<open>k\<close> counts
  the earlier requests that completed with a response. So as long as no earlier request failed, a
  request gets the answer to itself; after \<open>f\<close> failures (timeouts) it gets the answer to the request
  \<open>f\<close> places before it.
\<close>

theorem responses_in_order:
  assumes "reachable hapInit (hapStep answer js) w" "i < length (outcomes w)" "outcomes w ! i = Inr r"
  shows "r = answer (length (successes (take i (outcomes w))))
    \<and> (list_all (\<lambda>o'. \<exists>x. o' = Inr x) (take i (outcomes w)) \<longrightarrow> r = answer i)"
proof -
  have "pipeline w = map answer [0..<answered w]" using hap.reachable_inv [OF assms(1)] by (simp add: hapInv_def)
  then have r: "r = answer (length (successes (take i (outcomes w))))"
    unfolding pipeline_def by (rule successes_take [OF _ assms(2,3)])
  then show ?thesis using successes_all [of "take i (outcomes w)"] assms(2) by auto
qed

section \<open>Two runs\<close>

definition worldAt :: "HAPClient \<Rightarrow> nat \<Rightarrow> nat \<Rightarrow> reading list \<Rightarrow> bool \<Rightarrow> response result list \<Rightarrow> hapWorld" where
  "worldAt c n a inc b os =
     \<lparr>hapClient = c, written = n, answered = a, incoming = inc, broken = False, busy = b, outcomes = os\<rparr>"

text \<open>From a quiet state, the next pending request is answered and the answer is handed to the request that waits.\<close>

lemma answered_run:
  assumes "reachable hapInit (hapStep answer js) (worldAt NewHAPClient n a [] True os)" "a < n"
  shows "reachable hapInit (hapStep answer js) (worldAt NewHAPClient n (Suc a) [] False (os @ [Inr (answer a)]))"
proof -
  let ?R = "reachable hapInit (hapStep answer js)"
  have "?R (worldAt NewHAPClient n (Suc a) [Message False (answer a)] True os)"
    using reachable_step [OF assms(1) respond] assms(2) by (simp add: worldAt_def)
  from reachable_step [OF this read [where rd = "Message False (answer a)" and rest = "[]"]]
  have "?R (worldAt (NewHAPClient\<lparr>reader := Sending (Inr (answer a)) False\<rparr>) n (Suc a) [] True os)"
    by (simp add: worldAt_def NewHAPClient_def readLoop_read_def)
  from reachable_step [OF this send]
  have "?R (worldAt (NewHAPClient\<lparr>respCh := Some (Inr (answer a))\<rparr>) n (Suc a) [] True os)"
    by (simp add: worldAt_def NewHAPClient_def readLoop_send_def)
  from reachable_step [OF this complete [where we = GotResult and r = "Inr (answer a)" and c = NewHAPClient]]
  show ?thesis by (simp add: worldAt_def NewHAPClient_def doRequest_wait_def)
qed

lemma first_request: "reachable hapInit (hapStep answer js) (worldAt NewHAPClient 1 0 [] True [])"
proof -
  have "reachable hapInit (hapStep answer js) (worldAt NewHAPClient 0 0 [] False [])"
    by (rule reachable_init) (simp add: hapInit_def worldAt_def)
  from reachable_step [OF this request] show ?thesis by (simp add: worldAt_def)
qed

definition emptyJson :: jsonLib where
  "emptyJson = \<lparr>parseAccessories = \<lambda>_. Inr [], parseCharacteristics = \<lambda>_. Inr [], parseStatuses = \<lambda>_. Inr [],
     marshalCharacteristics = \<lambda>_. Inr []\<rparr>"

theorem responses_in_order_witness:
  "outcomes (worldAt NewHAPClient 1 1 [] False [Inr (200, [0])]) ! 0 = Inr ((\<lambda>k. (200, [of_nat k])) 0)"
proof -
  have "reachable hapInit (hapStep (\<lambda>k. (200, [of_nat k])) emptyJson) (worldAt NewHAPClient 1 1 [] False [Inr (200, [0])])"
    using answered_run [OF first_request, of "\<lambda>k. (200, [of_nat k])" emptyJson] by simp
  from responses_in_order [OF this, of 0] show ?thesis by (simp add: worldAt_def)
qed

text \<open>
  A timeout shifts the pairing: the answer that arrives late is handed to the next request, which asked
  something else.
\<close>

lemma late_answer_misdelivered:
  "\<exists>w. reachable hapInit (hapStep answer js) w \<and> outcomes w = [Inl ''HAP request timeout after 30s'', Inr (answer 0)]"
proof -
  have "reachable hapInit (hapStep answer js) (worldAt NewHAPClient 1 0 [] False [Inl ''HAP request timeout after 30s''])"
    using reachable_step [OF first_request complete [where we = TimedOut]] by (simp add: worldAt_def doRequest_wait_def)
  from reachable_step [OF this request]
  have "reachable hapInit (hapStep answer js) (worldAt NewHAPClient 2 0 [] True [Inl ''HAP request timeout after 30s''])"
    by (simp add: worldAt_def numeral_2_eq_2)
  from answered_run [OF this] show ?thesis by (intro exI conjI) (auto simp: worldAt_def)
qed

text \<open>
  A request on a connection whose reader has gone ends with either of two errors, the reader's error (once) or
  the closed connection, as the wait has both channels ready.
\<close>

lemma gone_reader_two_outcomes:
  assumes "respCh c = Some (Inl e)" "doneClosed c"
  shows "doRequest_wait GotResult c = Some (Inl e, c\<lparr>respCh := None\<rparr>) \<and> doRequest_wait ConnDone c = Some (Inl ''HAP connection closed'', c)"
  using assms by (simp add: doRequest_wait_def)

end
