(* ===== verification/Encrypted_Conn.thy ===== *)
theory Encrypted_Conn
  imports Prelude
begin

text \<open>
  The encrypted HAP connection of \<^verbatim>\<open>internal/hap/encrypted_conn.go\<close>: frames of at most 1024
  bytes, each sealed by ChaCha20-Poly1305 under a counter nonce with its length as additional
  data. The AEAD is a pair of functions (nonce, additional data, text); what is relied on is
  that opening undoes sealing and that a sealed text is 16 bytes longer (\<open>aeadOk\<close>).

  The network side of an endpoint is a sink whose calls may fail (\<open>failAt\<close> gives the error of the
  \<open>n\<close>-th call) and an input stream, with the error at its end when the peer has closed.
\<close>

record aead =
  Seal :: "bytes \<Rightarrow> bytes \<Rightarrow> bytes \<Rightarrow> bytes"
  Open :: "bytes \<Rightarrow> bytes \<Rightarrow> bytes \<Rightarrow> bytes result"

definition aeadOk :: "aead \<Rightarrow> aead \<Rightarrow> bool" where
  "aeadOk enc dec \<longleftrightarrow> (\<forall>n ad p. Open dec n ad (Seal enc n ad p) = Inr p \<and> length (Seal enc n ad p) = length p + 16)"

record sink =
  calls :: nat
  failAt :: "nat \<Rightarrow> go_error option"
  sent :: bytes

definition sinkWrite :: "bytes \<Rightarrow> sink \<Rightarrow> sink \<times> go_error option" where
  "sinkWrite bs k =
     (case failAt k (calls k) of
        Some e \<Rightarrow> (k\<lparr>calls := calls k + 1\<rparr>, Some e)
      | None \<Rightarrow> (k\<lparr>calls := calls k + 1, sent := sent k @ bs\<rparr>, None))"

record EncryptedConn =
  encryptAEAD :: aead
  decryptAEAD :: aead
  encryptCnt :: u64
  decryptCnt :: u64
  readBuf :: bytes
  rwOut :: sink
  rwIn :: bytes
  rwEnd :: "go_error option"

abbreviation packetSizeMax :: nat where "packetSizeMax \<equiv> 1024"
abbreviation authTagSize :: nat where "authTagSize \<equiv> 16"

text \<open>\<open>newAEAD\<close> is \<^verbatim>\<open>chacha20poly1305.New\<close>.\<close>

definition NewEncryptedConn ::
  "(bytes \<Rightarrow> aead result) \<Rightarrow> sink \<Rightarrow> bytes \<Rightarrow> go_error option \<Rightarrow> bytes \<Rightarrow> bytes \<Rightarrow> EncryptedConn result" where
  "NewEncryptedConn newAEAD out inp end readKey writeKey =
     (case newAEAD writeKey of
        Inl e \<Rightarrow> Inl (''create encrypt AEAD: '' @ e)
      | Inr enc \<Rightarrow>
          (case newAEAD readKey of
             Inl e \<Rightarrow> Inl (''create decrypt AEAD: '' @ e)
           | Inr dec \<Rightarrow>
               Inr \<lparr>encryptAEAD = enc, decryptAEAD = dec, encryptCnt = 0, decryptCnt = 0, readBuf = [],
                    rwOut = out, rwIn = inp, rwEnd = end\<rparr>))"

definition hapNonce :: "u64 \<Rightarrow> bytes" where
  "hapNonce cnt = replicate 4 0 @ PutUint64LE cnt"

function WriteLoop :: "bytes \<Rightarrow> nat \<Rightarrow> EncryptedConn \<Rightarrow> EncryptedConn \<times> nat \<times> go_error option" where
  "WriteLoop b written c =
     (if b = [] then (c, written, None)
      else let size = min (length b) packetSizeMax;
               lengthBytes = PutUint16LE (of_nat size)
           in case sinkWrite lengthBytes (rwOut c) of
                (k1, Some e) \<Rightarrow> (c\<lparr>rwOut := k1\<rparr>, written, Some (''write length: '' @ e))
              | (k1, None) \<Rightarrow>
                  (let nonce = hapNonce (encryptCnt c);
                       ciphertext = Seal (encryptAEAD c) nonce lengthBytes (take size b)
                   in case sinkWrite ciphertext k1 of
                        (k2, Some e) \<Rightarrow>
                          (c\<lparr>rwOut := k2, encryptCnt := encryptCnt c + 1\<rparr>, written, Some (''write ciphertext: '' @ e))
                      | (k2, None) \<Rightarrow>
                          WriteLoop (drop size b) (written + size) (c\<lparr>rwOut := k2, encryptCnt := encryptCnt c + 1\<rparr>)))"
  by auto
termination by (relation "measure (length \<circ> fst)") (auto simp: min_def)

declare WriteLoop.simps [simp del]

definition Write :: "bytes \<Rightarrow> EncryptedConn \<Rightarrow> EncryptedConn \<times> nat \<times> go_error option" where
  "Write b c =
     (case WriteLoop b 0 c of
        (c1, written, Some e) \<Rightarrow> (c1, written, Some e)
      | (c1, written, None) \<Rightarrow>
          (case sinkWrite [] (rwOut c1) of
             (k, Some e) \<Rightarrow> (c1\<lparr>rwOut := k\<rparr>, written, Some (''flush: '' @ e))
           | (k, None) \<Rightarrow> (c1\<lparr>rwOut := k\<rparr>, written, None)))"

text \<open>
  \<^verbatim>\<open>io.ReadFull\<close> of \<open>n\<close> bytes: \<open>None\<close> while it blocks. At the end of the stream it gives the end's
  error, \<^verbatim>\<open>io.ErrUnexpectedEOF\<close> if that is \<^verbatim>\<open>io.EOF\<close> and some bytes were read.
\<close>

definition ReadFull :: "nat \<Rightarrow> EncryptedConn \<Rightarrow> (EncryptedConn \<times> bytes result) option" where
  "ReadFull n c =
     (if n \<le> length (rwIn c) then Some (c\<lparr>rwIn := drop n (rwIn c)\<rparr>, Inr (take n (rwIn c)))
      else case rwEnd c of
        None \<Rightarrow> None
      | Some e \<Rightarrow>
          Some (c\<lparr>rwIn := []\<rparr>, Inl (if e = ''EOF'' \<and> rwIn c \<noteq> [] then ''unexpected EOF'' else e)))"

text \<open>\<^verbatim>\<open>Read\<close> into a buffer of \<open>n\<close> bytes; \<open>None\<close> while it blocks.\<close>

definition Read :: "nat \<Rightarrow> EncryptedConn \<Rightarrow> (EncryptedConn \<times> bytes result) option" where
  "Read n c =
     (if readBuf c \<noteq> []
      then Some (c\<lparr>readBuf := drop n (readBuf c)\<rparr>, Inr (take n (readBuf c)))
      else case ReadFull 2 c of
        None \<Rightarrow> None
      | Some (c1, Inl e) \<Rightarrow> Some (c1, Inl e)
      | Some (c1, Inr lengthBytes) \<Rightarrow>
          (let plaintextLen = unat (Uint16LE lengthBytes) in
           case ReadFull (plaintextLen + authTagSize) c1 of
             None \<Rightarrow> None
           | Some (c2, Inl e) \<Rightarrow> Some (c2, Inl (''read ciphertext: '' @ e))
           | Some (c2, Inr ciphertext) \<Rightarrow>
               (let nonce = hapNonce (decryptCnt c2); c3 = c2\<lparr>decryptCnt := decryptCnt c2 + 1\<rparr> in
                case Open (decryptAEAD c3) nonce lengthBytes ciphertext of
                  Inl e \<Rightarrow> Some (c3, Inl (''decrypt frame: '' @ e))
                | Inr plaintext \<Rightarrow>
                    Some (if n < length plaintext then c3\<lparr>readBuf := drop n plaintext\<rparr> else c3,
                          Inr (take n plaintext)))))"

section \<open>The frames on the wire\<close>

definition frame :: "aead \<Rightarrow> u64 \<Rightarrow> bytes \<Rightarrow> bytes" where
  "frame enc cnt p = PutUint16LE (of_nat (length p)) @ Seal enc (hapNonce cnt) (PutUint16LE (of_nat (length p))) p"

fun frames :: "aead \<Rightarrow> u64 \<Rightarrow> bytes list \<Rightarrow> bytes" where
  "frames enc cnt [] = []"
| "frames enc cnt (p # ps) = frame enc cnt p @ frames enc (cnt + 1) ps"

function chunks :: "bytes \<Rightarrow> bytes list" where
  "chunks b = (if b = [] then [] else take packetSizeMax b # chunks (drop packetSizeMax b))"
  by auto
termination by (relation "measure length") auto

declare chunks.simps [simp del]

lemma frames_append: "frames enc cnt (ps @ qs) = frames enc cnt ps @ frames enc (cnt + of_nat (length ps)) qs"
  by (induction ps arbitrary: cnt) (simp_all add: algebra_simps)

lemma concat_chunks [simp]: "concat (chunks b) = b"
  by (induction b rule: chunks.induct) (subst chunks.simps, simp)

lemma chunks_sizes: "p \<in> set (chunks b) \<Longrightarrow> p \<noteq> [] \<and> length p \<le> packetSizeMax"
  by (induction b rule: chunks.induct) (subst (asm) (2) chunks.simps, auto split: if_splits)

lemma length_chunks: "length (chunks b) = (length b + 1023) div 1024"
proof (induction b rule: chunks.induct)
  case (1 b)
  show ?case
  proof (cases "b = []")
    case False
    define n where "n = length b"
    have n: "0 < n" using False by (simp add: n_def)
    have "length (chunks b) = Suc ((n - 1024 + 1023) div 1024)" using 1 False by (simp add: chunks.simps [of b] n_def)
    also have "\<dots> = (n + 1023) div 1024" using n by (cases "n \<le> 1024") (auto simp: le_div_geq)
    finally show ?thesis by (simp add: n_def)
  qed (simp add: chunks.simps)
qed

text \<open>A sink that never fails.\<close>

definition reliable :: "EncryptedConn \<Rightarrow> bool" where
  "reliable c \<longleftrightarrow> (\<forall>n. failAt (rwOut c) n = None)"

lemma WriteLoop_reliable:
  assumes "reliable c"
  shows "\<exists>k. WriteLoop b written c =
     (c\<lparr>encryptCnt := encryptCnt c + of_nat (length (chunks b)),
        rwOut := (rwOut c)\<lparr>calls := k, sent := sent (rwOut c) @ frames (encryptAEAD c) (encryptCnt c) (chunks b)\<rparr>\<rparr>,
      written + length b, None)"
  using assms
proof (induction b arbitrary: written c rule: length_induct)
  case (1 b)
  show ?case
  proof (cases "b = []")
    case True
    then show ?thesis by (intro exI [of _ "calls (rwOut c)"]) (simp add: WriteLoop.simps chunks.simps)
  next
    case False
    define size where "size = min (length b) packetSizeMax"
    have t: "take size b = take packetSizeMax b" "drop size b = drop packetSizeMax b" "length (take packetSizeMax b) = size"
      by (auto simp: size_def min_def)
    define c' where "c' = c\<lparr>rwOut := (rwOut c)\<lparr>calls := calls (rwOut c) + 2,
       sent := sent (rwOut c) @ frame (encryptAEAD c) (encryptCnt c) (take size b)\<rparr>, encryptCnt := encryptCnt c + 1\<rparr>"
    have step: "WriteLoop b written c = WriteLoop (drop size b) (written + size) c'"
      using False "1.prems" t
      by (subst WriteLoop.simps) (simp add: sinkWrite_def reliable_def frame_def c'_def Let_def size_def)
    have "reliable c'" using "1.prems" by (simp add: reliable_def c'_def)
    then obtain k where k: "WriteLoop (drop size b) (written + size) c' =
     (c'\<lparr>encryptCnt := encryptCnt c' + of_nat (length (chunks (drop size b))),
        rwOut := (rwOut c')\<lparr>calls := k, sent := sent (rwOut c') @ frames (encryptAEAD c') (encryptCnt c') (chunks (drop size b))\<rparr>\<rparr>,
      written + size + length (drop size b), None)"
      using "1.IH" [rule_format, of "drop size b" c' "written + size"] False by (auto simp: size_def)
    then show ?thesis unfolding step
      using False t by (intro exI [of _ k]) (simp add: chunks.simps [of b] c'_def algebra_simps size_def)
  qed
qed

lemma Write_reliable:
  assumes "reliable c"
  shows "\<exists>k. Write b c =
     (c\<lparr>encryptCnt := encryptCnt c + of_nat (length (chunks b)),
        rwOut := (rwOut c)\<lparr>calls := k, sent := sent (rwOut c) @ frames (encryptAEAD c) (encryptCnt c) (chunks b)\<rparr>\<rparr>,
      length b, None)"
proof -
  obtain k where k: "WriteLoop b 0 c =
     (c\<lparr>encryptCnt := encryptCnt c + of_nat (length (chunks b)),
        rwOut := (rwOut c)\<lparr>calls := k, sent := sent (rwOut c) @ frames (encryptAEAD c) (encryptCnt c) (chunks b)\<rparr>\<rparr>,
      0 + length b, None)" using WriteLoop_reliable [OF assms] by blast
  then show ?thesis
    using assms by (intro exI [of _ "k + 1"]) (simp add: Write_def k sinkWrite_def reliable_def)
qed

text \<open>Every frame on the wire holds between 1 and 1024 bytes.\<close>

definition frameSizes :: "bytes list \<Rightarrow> bool" where
  "frameSizes ps \<longleftrightarrow> (\<forall>p\<in>set ps. p \<noteq> [] \<and> length p \<le> packetSizeMax)"

lemma frameSizes_chunks [simp]: "frameSizes (chunks b)"
  using chunks_sizes by (auto simp: frameSizes_def)

lemma frameSizes_simps [simp]:
  "frameSizes []" "frameSizes (p # ps) \<longleftrightarrow> p \<noteq> [] \<and> length p \<le> packetSizeMax \<and> frameSizes ps"
  "frameSizes (ps @ qs) \<longleftrightarrow> frameSizes ps \<and> frameSizes qs"
  by (auto simp: frameSizes_def)

text \<open>Reading the first frame off the wire.\<close>

lemma Read_frame:
  assumes "aeadOk enc (decryptAEAD c)" "readBuf c = []" "rwIn c = frame enc (decryptCnt c) p @ rest" "length p \<le> packetSizeMax"
  shows "Read n c = Some (c\<lparr>rwIn := rest, decryptCnt := decryptCnt c + 1, readBuf := drop n p\<rparr>, Inr (take n p))"
proof -
  define lb where "lb = PutUint16LE (of_nat (length p))"
  define ct where "ct = Seal enc (hapNonce (decryptCnt c)) lb p"
  have ct: "length ct = length p + 16" "Open (decryptAEAD c) (hapNonce (decryptCnt c)) lb ct = Inr p"
    using assms(1) by (simp_all add: aeadOk_def ct_def)
  have inp: "rwIn c = lb @ ct @ rest" using assms(3) by (simp add: frame_def lb_def ct_def)
  have lb: "length lb = 2" "unat (Uint16LE lb) = length p"
    using assms(4) by (simp_all add: lb_def)
  have r1: "ReadFull 2 c = Some (c\<lparr>rwIn := ct @ rest\<rparr>, Inr lb)" by (simp add: ReadFull_def inp lb(1))
  have r2: "ReadFull (length p + 16) (c\<lparr>rwIn := ct @ rest\<rparr>) = Some (c\<lparr>rwIn := rest\<rparr>, Inr ct)"
    by (simp add: ReadFull_def ct(1))
  show ?thesis
    by (simp add: Read_def assms(2) r1 lb(2) r2 ct(2) Let_def)
qed

section \<open>The connection as a byte pipe\<close>

text \<open>
  What a transport promises: bytes come out in the order they went in, none lost, none added.
  \<open>content\<close> are the bytes under way; receiving may return fewer bytes than asked for, but at least one
  when there are any.
\<close>

fun pipeRun :: "(bytes \<Rightarrow> 's \<Rightarrow> 's) \<Rightarrow> (nat \<Rightarrow> 's \<Rightarrow> ('s \<times> bytes) option) \<Rightarrow> (bytes + nat) list \<Rightarrow> 's \<Rightarrow> 's \<times> bytes" where
  "pipeRun send recv [] s = (s, [])"
| "pipeRun send recv (Inl b # os) s = pipeRun send recv os (send b s)"
| "pipeRun send recv (Inr n # os) s =
     (case recv n s of
        None \<Rightarrow> pipeRun send recv os s
      | Some (s1, b) \<Rightarrow> (let (t, bs) = pipeRun send recv os s1 in (t, b @ bs)))"

fun sentBytes :: "(bytes + nat) list \<Rightarrow> bytes" where
  "sentBytes [] = []"
| "sentBytes (Inl b # os) = b @ sentBytes os"
| "sentBytes (Inr _ # os) = sentBytes os"

locale byte_pipe =
  fixes inv :: "'s \<Rightarrow> bool"
    and content :: "'s \<Rightarrow> bytes"
    and send :: "bytes \<Rightarrow> 's \<Rightarrow> 's"
    and recv :: "nat \<Rightarrow> 's \<Rightarrow> ('s \<times> bytes) option"
  assumes send_inv: "inv s \<Longrightarrow> inv (send b s)"
    and send_content: "inv s \<Longrightarrow> content (send b s) = content s @ b"
    and recv_inv: "inv s \<Longrightarrow> recv n s = Some (s', b) \<Longrightarrow> inv s'"
    and recv_content: "inv s \<Longrightarrow> recv n s = Some (s', b) \<Longrightarrow> content s = b @ content s' \<and> length b \<le> n"
    and recv_progress: "inv s \<Longrightarrow> content s \<noteq> [] \<Longrightarrow> 0 < n \<Longrightarrow> \<exists>s' b. recv n s = Some (s', b) \<and> b \<noteq> []"
begin

text \<open>Any mixture of sends (\<open>Inl\<close>) and receives (\<open>Inr\<close>).\<close>

lemma run_content:
  assumes "inv s" "pipeRun send recv os s = (t, received)"
  shows "content s @ sentBytes os = received @ content t \<and> inv t"
  using assms
proof (induction os arbitrary: s received)
  case (Cons a os)
  show ?case
  proof (cases a)
    case (Inl b)
    then show ?thesis using Cons.IH [of "send b s"] Cons.prems by (simp add: send_inv send_content)
  next
    case (Inr n)
    show ?thesis
    proof (cases "recv n s")
      case None
      then show ?thesis using Inr Cons by simp
    next
      case (Some r)
      then obtain s' b where r: "recv n s = Some (s', b)" by (cases r) auto
      obtain bs where t: "pipeRun send recv os s' = (t, bs)" "received = b @ bs"
        using Cons.prems(2) Inr r by (auto simp: Let_def split: prod.splits)
      show ?thesis
        using Cons.IH [OF recv_inv [OF Cons.prems(1) r] t(1)] recv_content [OF Cons.prems(1) r] Inr t(2) by simp
    qed
  qed
qed simp

text \<open>Enough receives of a non-empty buffer drain the pipe.\<close>

lemma drain:
  assumes "inv s" "0 < n" "length (content s) \<le> k"
  shows "snd (pipeRun send recv (replicate k (Inr n)) s) = content s \<and> content (fst (pipeRun send recv (replicate k (Inr n)) s)) = []"
  using assms(1,3)
proof (induction k arbitrary: s)
  case (Suc k)
  show ?case
  proof (cases "recv n s")
    case None
    then have "content s = []" using recv_progress [OF Suc.prems(1) _ assms(2)] by auto
    then show ?thesis using None Suc by simp
  next
    case (Some r)
    then obtain s' b where r: "recv n s = Some (s', b)" by (cases r) auto
    note C = recv_content [OF Suc.prems(1) r]
    have "content s = [] \<or> b \<noteq> []" using recv_progress [OF Suc.prems(1) _ assms(2)] r by auto
    then have "length (content s') \<le> k" using C Suc.prems(2) by (cases b) auto
    from Suc.IH [OF recv_inv [OF Suc.prems(1) r] this] show ?thesis using C r by (auto simp: Let_def split: prod.split)
  qed
qed simp

end

text \<open>Two endpoints, and what one writes arriving at the other.\<close>

record hapLink =
  sender :: EncryptedConn
  receiver :: EncryptedConn

definition linkSend :: "bytes \<Rightarrow> hapLink \<Rightarrow> hapLink" where
  "linkSend b l =
     (let c = fst (Write b (sender l)); new = drop (length (sent (rwOut (sender l)))) (sent (rwOut c))
      in l\<lparr>sender := c, receiver := (receiver l)\<lparr>rwIn := rwIn (receiver l) @ new\<rparr>\<rparr>)"

definition linkRecv :: "nat \<Rightarrow> hapLink \<Rightarrow> (hapLink \<times> bytes) option" where
  "linkRecv n l = (case Read n (receiver l) of Some (c, Inr b) \<Rightarrow> Some (l\<lparr>receiver := c\<rparr>, b) | _ \<Rightarrow> None)"

text \<open>The bytes under way: those decrypted and not yet read, and those in the frames on the wire.\<close>

function wireContent :: "aead \<Rightarrow> u64 \<Rightarrow> bytes \<Rightarrow> bytes" where
  "wireContent dec cnt w =
     (if length w < 2 then []
      else let n = unat (Uint16LE (take 2 w)) + authTagSize; rest = drop 2 w in
           if length rest < n then []
           else case Open dec (hapNonce cnt) (take 2 w) (take n rest) of
                  Inl _ \<Rightarrow> []
                | Inr p \<Rightarrow> p @ wireContent dec (cnt + 1) (drop n rest))"
  by auto
termination by (relation "measure (\<lambda>(_, _, w). length w)") auto

declare wireContent.simps [simp del]

definition linkContent :: "hapLink \<Rightarrow> bytes" where
  "linkContent l = readBuf (receiver l) @ wireContent (decryptAEAD (receiver l)) (decryptCnt (receiver l)) (rwIn (receiver l))"

definition linkInv :: "hapLink \<Rightarrow> bool" where
  "linkInv l \<longleftrightarrow> aeadOk (encryptAEAD (sender l)) (decryptAEAD (receiver l)) \<and> reliable (sender l)
     \<and> (\<exists>ps. frameSizes ps \<and> rwIn (receiver l) = frames (encryptAEAD (sender l)) (decryptCnt (receiver l)) ps
          \<and> encryptCnt (sender l) = decryptCnt (receiver l) + of_nat (length ps))"

lemma wireContent_frames:
  assumes "aeadOk enc dec" "frameSizes ps"
  shows "wireContent dec cnt (frames enc cnt ps) = concat ps"
  using assms(2)
proof (induction ps arbitrary: cnt)
  case (Cons p ps)
  define lb where "lb = PutUint16LE (of_nat (length p))"
  define ct where "ct = Seal enc (hapNonce cnt) lb p"
  have ct: "length ct = length p + 16" "Open dec (hapNonce cnt) lb ct = Inr p"
    using assms(1) by (simp_all add: aeadOk_def ct_def)
  have lb: "length lb = 2" "unat (Uint16LE lb) = length p" using Cons.prems by (simp_all add: lb_def)
  have "frames enc cnt (p # ps) = lb @ ct @ frames enc (cnt + 1) ps" by (simp add: frame_def lb_def ct_def)
  then show ?case
    using Cons ct lb by (subst wireContent.simps) (simp add: Let_def)
qed (simp add: wireContent.simps)

lemma linkContentI:
  assumes "aeadOk (encryptAEAD (sender l)) (decryptAEAD (receiver l))" "frameSizes ps"
    and "rwIn (receiver l) = frames (encryptAEAD (sender l)) (decryptCnt (receiver l)) ps"
  shows "linkContent l = readBuf (receiver l) @ concat ps"
  using wireContent_frames [OF assms(1,2)] assms(3) by (simp add: linkContent_def)

lemma linkSend_spec:
  assumes "linkInv l"
  shows "linkInv (linkSend b l) \<and> linkContent (linkSend b l) = linkContent l @ b"
proof -
  define S R where "S = sender l" and "R = receiver l"
  obtain ps where ps: "frameSizes ps" "rwIn R = frames (encryptAEAD S) (decryptCnt R) ps"
    "encryptCnt S = decryptCnt R + of_nat (length ps)" and ok: "aeadOk (encryptAEAD S) (decryptAEAD R)" "reliable S"
    using assms by (auto simp: linkInv_def S_def R_def)
  obtain k where k: "Write b S = (S\<lparr>encryptCnt := encryptCnt S + of_nat (length (chunks b)),
        rwOut := (rwOut S)\<lparr>calls := k, sent := sent (rwOut S) @ frames (encryptAEAD S) (encryptCnt S) (chunks b)\<rparr>\<rparr>,
      length b, None)" using Write_reliable [OF ok(2)] by blast
  define l' where "l' = linkSend b l"
  have l': "encryptAEAD (sender l') = encryptAEAD S" "decryptAEAD (receiver l') = decryptAEAD R" "reliable (sender l')"
    "encryptCnt (sender l') = encryptCnt S + of_nat (length (chunks b))" "decryptCnt (receiver l') = decryptCnt R"
    "readBuf (receiver l') = readBuf R" "rwIn (receiver l') = frames (encryptAEAD S) (decryptCnt R) (ps @ chunks b)"
    using ok(2) ps by (simp_all add: l'_def linkSend_def S_def [symmetric] R_def [symmetric] k Let_def reliable_def frames_append)
  have "linkInv l'"
    using l' ok ps by (auto simp: linkInv_def intro!: exI [of _ "ps @ chunks b"])
  moreover have "linkContent l' = readBuf R @ concat (ps @ chunks b)"
    using linkContentI [of l' "ps @ chunks b"] l' ok ps(1) by simp
  moreover have "linkContent l = readBuf R @ concat ps"
    using linkContentI [of l ps] ok ps(1,2) by (simp add: S_def R_def)
  ultimately show ?thesis by (simp add: l'_def)
qed

lemma linkRecv_spec:
  assumes "linkInv l"
  shows "(linkRecv n l = Some (l', b) \<longrightarrow> linkInv l' \<and> linkContent l = b @ linkContent l' \<and> length b \<le> n)
    \<and> (linkContent l \<noteq> [] \<and> 0 < n \<longrightarrow> (\<exists>l' b. linkRecv n l = Some (l', b) \<and> b \<noteq> []))"
proof -
  define S R where "S = sender l" and "R = receiver l"
  obtain ps where ps: "frameSizes ps" "rwIn R = frames (encryptAEAD S) (decryptCnt R) ps"
    "encryptCnt S = decryptCnt R + of_nat (length ps)" and ok: "aeadOk (encryptAEAD S) (decryptAEAD R)" "reliable S"
    using assms by (auto simp: linkInv_def S_def R_def)
  have c: "linkContent l = readBuf R @ concat ps"
    using linkContentI [of l ps] ok ps(1,2) by (simp add: S_def R_def)
  show ?thesis
  proof (cases "readBuf R = []")
    case False
    define m where "m = l\<lparr>receiver := R\<lparr>readBuf := drop n (readBuf R)\<rparr>\<rparr>"
    have r: "linkRecv n l = Some (m, take n (readBuf R))"
      using False by (simp add: linkRecv_def Read_def R_def m_def)
    have "linkInv m" using assms by (simp add: linkInv_def m_def R_def)
    moreover have "linkContent m = drop n (readBuf R) @ concat ps"
      using linkContentI [of m ps] ok ps(1,2) by (simp add: m_def S_def R_def)
    ultimately show ?thesis using r c False by auto
  next
    case empty: True
    show ?thesis
    proof (cases ps)
      case Nil
      have "Read n R = (case rwEnd R of None \<Rightarrow> None | Some e \<Rightarrow> Some (R\<lparr>rwIn := []\<rparr>, Inl e))"
        using empty ps(2) Nil by (auto simp: Read_def ReadFull_def split: option.split)
      then have "linkRecv n l = None" by (simp add: linkRecv_def R_def split: option.split)
      then show ?thesis using c empty Nil by simp
    next
      case (Cons p qs)
      define m where "m = l\<lparr>receiver := R\<lparr>rwIn := frames (encryptAEAD S) (decryptCnt R + 1) qs, decryptCnt := decryptCnt R + 1, readBuf := drop n p\<rparr>\<rparr>"
      have "Read n R = Some (receiver m, Inr (take n p))"
        using Read_frame [OF ok(1) empty, of p "frames (encryptAEAD S) (decryptCnt R + 1) qs"] ps(1,2) Cons by (simp add: m_def)
      then have r: "linkRecv n l = Some (m, take n p)" by (simp add: linkRecv_def R_def m_def)
      have m: "linkInv m"
        using ok ps Cons by (auto simp: linkInv_def m_def S_def [symmetric] intro!: exI [of _ qs])
      moreover have "linkContent m = drop n p @ concat qs"
        using linkContentI [of m qs] ok ps(1) Cons by (simp add: m_def S_def [symmetric])
      moreover have "p \<noteq> []" using ps(1) Cons by simp
      ultimately show ?thesis using r c empty Cons by auto
    qed
  qed
qed

interpretation hap_link: byte_pipe linkInv linkContent linkSend linkRecv
  using linkSend_spec linkRecv_spec by unfold_locales blast+

section \<open>Properties\<close>

text \<open>
  C6. The encrypted connection is a faithful byte pipe. Between two endpoints with matching keys, over a
  network that delivers what was written, every interleaving of writes (of any lengths) and
  reads (into buffers of any sizes) gives the reader exactly the bytes written, in order: what
  was read, followed by what is still under way, is what was under way before followed by what
  was written.
\<close>

theorem encrypted_conn_fifo:
  assumes "linkInv l" "pipeRun linkSend linkRecv os l = (l', received)"
  shows "linkContent l @ sentBytes os = received @ linkContent l'"
  using hap_link.run_content [OF assms] by blast


fun writeAll :: "bytes list \<Rightarrow> EncryptedConn \<Rightarrow> EncryptedConn" where
  "writeAll [] c = c"
| "writeAll (b # bs) c = writeAll bs (fst (Write b c))"

lemma hapNonce_distinct:
  assumes "n \<le> 2 ^ 64"
  shows "distinct (map (\<lambda>i. hapNonce (cnt + of_nat i)) [0..<n])"
proof -
  have "i = j" if "i < n" "j < n" "hapNonce (cnt + of_nat i) = hapNonce (cnt + of_nat j)" for i j
  proof -
    have "PutUint64LE (cnt + of_nat i) = PutUint64LE (cnt + of_nat j)" using that(3) by (simp add: hapNonce_def)
    then have "cnt + of_nat i = cnt + of_nat j" unfolding PutUint64LE_def by (rule le_bytes_inj [rotated]) simp
    then have "(of_nat i :: u64) = of_nat j" by simp
    moreover have "i < 2 ^ LENGTH(64)" "j < 2 ^ LENGTH(64)" using that assms by simp_all
    ultimately show ?thesis by (metis unat_of_nat_small)
  qed
  then show ?thesis by (auto simp: distinct_map inj_on_def)
qed

text \<open>
  The wire format keeps the protocol's limits. Over any sequence of writes the connection puts frames of 1
  to 1024 plaintext bytes on the wire, one after the other, sealed under consecutive counter
  values, carrying exactly the bytes written; and no nonce is used twice within $2^{64}$ frames.
\<close>

lemma frames_and_nonces:
  assumes "reliable c"
  shows "\<exists>ps. sent (rwOut (writeAll bs c)) = sent (rwOut c) @ frames (encryptAEAD c) (encryptCnt c) ps
      \<and> frameSizes ps \<and> concat ps = concat bs \<and> encryptCnt (writeAll bs c) = encryptCnt c + of_nat (length ps)
      \<and> (length ps \<le> 2 ^ 64 \<longrightarrow> distinct (map (\<lambda>i. hapNonce (encryptCnt c + of_nat i)) [0..<length ps]))"
proof -
  have "\<exists>ps. sent (rwOut (writeAll bs c)) = sent (rwOut c) @ frames (encryptAEAD c) (encryptCnt c) ps
      \<and> frameSizes ps \<and> concat ps = concat bs \<and> encryptCnt (writeAll bs c) = encryptCnt c + of_nat (length ps)"
    using assms
  proof (induction bs arbitrary: c)
    case Nil
    then show ?case by (intro exI [of _ "[]"]) simp
  next
    case (Cons b bs)
    obtain k where k: "Write b c = (c\<lparr>encryptCnt := encryptCnt c + of_nat (length (chunks b)),
        rwOut := (rwOut c)\<lparr>calls := k, sent := sent (rwOut c) @ frames (encryptAEAD c) (encryptCnt c) (chunks b)\<rparr>\<rparr>,
      length b, None)" using Write_reliable [OF Cons.prems] by blast
    define c' where "c' = fst (Write b c)"
    have "reliable c'" using Cons.prems by (simp add: c'_def k reliable_def)
    from Cons.IH [OF this] obtain ps where
      "sent (rwOut (writeAll bs c')) = sent (rwOut c') @ frames (encryptAEAD c') (encryptCnt c') ps"
      "frameSizes ps" "concat ps = concat bs" "encryptCnt (writeAll bs c') = encryptCnt c' + of_nat (length ps)" by blast
    then show ?case by (intro exI [of _ "chunks b @ ps"]) (simp add: c'_def k frames_append algebra_simps)
  qed
  then show ?thesis using hapNonce_distinct by blast
qed

section \<open>A worked run\<close>

definition plainAEAD :: aead where
  "plainAEAD = \<lparr>Seal = \<lambda>_ _ p. p @ replicate 16 0, Open = \<lambda>_ _ c. Inr (take (length c - 16) c)\<rparr>"

definition plainConn :: EncryptedConn where
  "plainConn = \<lparr>encryptAEAD = plainAEAD, decryptAEAD = plainAEAD, encryptCnt = 0, decryptCnt = 0, readBuf = [],
     rwOut = \<lparr>calls = 0, failAt = \<lambda>_. None, sent = []\<rparr>, rwIn = [], rwEnd = None\<rparr>"

definition plainLink :: hapLink where
  "plainLink = \<lparr>sender = plainConn, receiver = plainConn\<rparr>"

lemma plainLink_ok: "linkInv plainLink" "linkContent plainLink = []" "reliable plainConn"
  by (auto simp: linkInv_def plainLink_def plainConn_def plainAEAD_def aeadOk_def reliable_def linkContent_def wireContent.simps
      intro!: exI [of _ "[]"])

theorem encrypted_conn_fifo_witness:
  "[1, 2, 3, 4, 5] = snd (pipeRun linkSend linkRecv [Inl [1, 2, 3], Inr 2, Inl [4, 5], Inr 9] plainLink)
     @ linkContent (fst (pipeRun linkSend linkRecv [Inl [1, 2, 3], Inr 2, Inl [4, 5], Inr 9] plainLink))"
  using encrypted_conn_fifo [OF plainLink_ok(1) prod.collapse [symmetric], of "[Inl [1, 2, 3], Inr 2, Inl [4, 5], Inr 9]"]
  by (simp add: plainLink_ok(2) del: pipeRun.simps)


lemma frames_and_nonces_witness:
  "\<exists>ps. concat ps = [1, 2, 3] \<and> frameSizes ps \<and> encryptCnt (writeAll [[1], [2, 3]] plainConn) = encryptCnt plainConn + of_nat (length ps)"
  using frames_and_nonces [OF plainLink_ok(3), of "[[1], [2, 3]]"] by (auto simp del: writeAll.simps)

end
