(* ===== verification/Pair_Verify.thy ===== *)
theory Pair_Verify
  imports Tlv8 Encrypted_Conn
begin

text \<open>
  The pair-verify handshake of \<^verbatim>\<open>internal/hap/pair_verify.go\<close>: \<^verbatim>\<open>doPairVerifyOnConn\<close> from the
  ephemeral key to the session keys, with the error of every step, and \<^verbatim>\<open>hapPost\<close>. The primitives
  (X25519, HKDF, ChaCha20-Poly1305, Ed25519) are the record \<open>crypto\<close>; the accessory is a function from
  the bytes of a request to its HTTP response, one per exchange.
\<close>

record crypto =
  x25519 :: "bytes \<Rightarrow> bytes \<Rightarrow> bytes result"
  basepoint :: bytes
  hkdfSha512 :: "bytes \<Rightarrow> string \<Rightarrow> string \<Rightarrow> bytes"
  newAEAD :: "bytes \<Rightarrow> aead result"
  edVerify :: "bytes \<Rightarrow> bytes \<Rightarrow> bytes \<Rightarrow> bool"
  edSign :: "bytes \<Rightarrow> bytes \<Rightarrow> bytes"

type_synonym peer = "bytes \<Rightarrow> (nat \<times> bytes) result"

definition postRequest :: "string \<Rightarrow> string \<Rightarrow> bytes \<Rightarrow> bytes" where
  "postRequest path host body =
     stringBytes (''POST '' @ path @ '' HTTP/1.1'' @ crlf @ ''Host: '' @ host @ crlf
       @ ''Content-Type: application/pairing+tlv8'' @ crlf
       @ ''Content-Length: '' @ show_nat (length body) @ crlf @ crlf) @ body"

definition hapPost :: "peer \<Rightarrow> string \<Rightarrow> string \<Rightarrow> bytes \<Rightarrow> bytes result" where
  "hapPost conn host path body =
     (case conn (postRequest path host body) of
        Inl e \<Rightarrow> Inl e
      | Inr (status, respBody) \<Rightarrow>
          (if status \<noteq> 200 then Inl (''HTTP '' @ show_nat status @ '': '' @ bytesString respBody) else Inr respBody))"

definition pvNonce :: "string \<Rightarrow> bytes" where
  "pvNonce s = replicate 4 0 @ take 8 (stringBytes s @ replicate 8 0)"

definition aeadDecrypt :: "crypto \<Rightarrow> bytes \<Rightarrow> string \<Rightarrow> bytes \<Rightarrow> bytes result" where
  "aeadDecrypt lib key nonceStr ciphertext =
     (case newAEAD lib key of Inl e \<Rightarrow> Inl e | Inr a \<Rightarrow> Open a (pvNonce nonceStr) [] ciphertext)"

definition aeadEncrypt :: "crypto \<Rightarrow> bytes \<Rightarrow> string \<Rightarrow> bytes \<Rightarrow> bytes result" where
  "aeadEncrypt lib key nonceStr plaintext =
     (case newAEAD lib key of Inl e \<Rightarrow> Inl e | Inr a \<Rightarrow> Inr (Seal a (pvNonce nonceStr) [] plaintext))"

abbreviation pvSalt :: string where "pvSalt \<equiv> ''Pair-Verify-Encrypt-Salt''"
abbreviation pvInfo :: string where "pvInfo \<equiv> ''Pair-Verify-Encrypt-Info''"
abbreviation controlSalt :: string where "controlSalt \<equiv> ''Control-Salt''"
abbreviation readInfo :: string where "readInfo \<equiv> ''Control-Read-Encryption-Key''"
abbreviation writeInfo :: string where "writeInfo \<equiv> ''Control-Write-Encryption-Key''"

record VerifiedConn =
  ReadKey :: bytes
  WriteKey :: bytes

record identity =
  controllerID :: string
  controllerLTSK :: bytes
  accessoryLTPK :: bytes

section \<open>The handshake\<close>

definition m1Message :: "bytes \<Rightarrow> bytes" where
  "m1Message localPublic = TLV8Encode [item 0x06 [0x01], item 0x03 localPublic]"

definition getOrNil :: "TLV8Item list \<Rightarrow> byte \<Rightarrow> bytes" where
  "getOrNil items t = (case TLV8GetBytes items t of None \<Rightarrow> [] | Some v \<Rightarrow> v)"

text \<open>The check of the optional error item, in M2 and M4.\<close>

definition noErrorItem :: "string \<Rightarrow> TLV8Item list \<Rightarrow> unit result" where
  "noErrorItem msg items =
     (case TLV8GetByte items 0x07 of
        Some errCode \<Rightarrow> failIf (errCode \<noteq> 0) (msg @ '' error code '' @ show_nat (unat errCode))
      | None \<Rightarrow> Inr ())"

text \<open>M2: from the response body to the accessory's ephemeral key and the encrypted data.\<close>

definition parseM2 :: "bytes \<Rightarrow> (bytes \<times> bytes) result" where
  "parseM2 m2Body =
     bindR (wrapR ''decode M2: '' (TLV8Decode m2Body)) (\<lambda>items.
     bindR (noErrorItem ''M2'' items) (\<lambda>_.
     let state = (case TLV8GetByte items 0x06 of None \<Rightarrow> 0 | Some b \<Rightarrow> b);
         remotePubKey = getOrNil items 0x03; encData = getOrNil items 0x05
     in bindR (failIf (state \<noteq> 0x02)
          (''M2 unexpected state '' @ show_nat (unat state) @ '' (expected 2, body '' @ show_nat (length m2Body) @ '' bytes)'')) (\<lambda>_.
        bindR (failIf (length remotePubKey \<noteq> 32) (''M2 bad public key length '' @ show_nat (length remotePubKey))) (\<lambda>_.
        bindR (failIf (length encData < 16) (''M2 encrypted data too short ('' @ show_nat (length encData) @ '' bytes)'')) (\<lambda>_.
        Inr (remotePubKey, encData))))))"

text \<open>
  The accessory's identity: decrypt, decode, check the signature. The values the code adds to the last error in
  parentheses are left out; the stored keys have their fixed lengths.
\<close>

definition checkM2 :: "crypto \<Rightarrow> bytes \<Rightarrow> bytes \<Rightarrow> bytes \<Rightarrow> bytes \<Rightarrow> bytes \<Rightarrow> unit result" where
  "checkM2 lib accLTPK verifyKey localPublic remotePubKey encData =
     bindR (wrapR ''decrypt M2: '' (aeadDecrypt lib verifyKey ''PV-Msg02'' encData)) (\<lambda>decrypted.
     bindR (wrapR ''decode M2 sub-TLV: '' (TLV8Decode decrypted)) (\<lambda>subItems.
     let accessoryIdent = getOrNil subItems 0x01 in
     case TLV8GetBytes subItems 0x0A of
       None \<Rightarrow> Inl ''M2 missing signature''
     | Some signature \<Rightarrow>
         failIf (\<not> edVerify lib accLTPK (remotePubKey @ accessoryIdent @ localPublic) signature) ''M2 signature invalid''))"

text \<open>M3: our identity, signed and encrypted.\<close>

definition m3Message :: "crypto \<Rightarrow> identity \<Rightarrow> bytes \<Rightarrow> bytes \<Rightarrow> bytes \<Rightarrow> bytes result" where
  "m3Message lib me verifyKey localPublic remotePubKey =
     (let signMaterial = localPublic @ stringBytes (controllerID me) @ remotePubKey;
          m3sig = edSign lib (controllerLTSK me) signMaterial;
          m3sub = TLV8Encode [item 0x01 (stringBytes (controllerID me)), item 0x0A m3sig]
      in bindR (wrapR ''encrypt M3: '' (aeadEncrypt lib verifyKey ''PV-Msg03'' m3sub)) (\<lambda>encrypted.
         Inr (TLV8Encode [item 0x06 [0x03], item 0x05 encrypted])))"

definition checkM4 :: "bytes \<Rightarrow> unit result" where
  "checkM4 m4Body = bindR (wrapR ''decode M4: '' (TLV8Decode m4Body)) (noErrorItem ''M4'')"

definition sessionKeys :: "crypto \<Rightarrow> bytes \<Rightarrow> VerifiedConn" where
  "sessionKeys lib sharedSecret =
     \<lparr>ReadKey = hkdfSha512 lib sharedSecret controlSalt readInfo, WriteKey = hkdfSha512 lib sharedSecret controlSalt writeInfo\<rparr>"

text \<open>
  The whole handshake. \<open>rnd\<close> is the reading of the 32 random bytes; \<open>post1\<close> and \<open>post2\<close> are the accessory's
  behaviour in the two exchanges.
\<close>

definition doPairVerifyOnConn :: "crypto \<Rightarrow> bytes result \<Rightarrow> peer \<Rightarrow> peer \<Rightarrow> string \<Rightarrow> identity \<Rightarrow> VerifiedConn result" where
  "doPairVerifyOnConn lib rnd post1 post2 host me =
     bindR (wrapR ''generate ephemeral key: '' rnd) (\<lambda>localPrivate.
     bindR (wrapR ''compute public key: '' (x25519 lib localPrivate (basepoint lib))) (\<lambda>localPublic.
     bindR (wrapR ''M1 request: '' (hapPost post1 host ''/pair-verify'' (m1Message localPublic))) (\<lambda>m2Body.
     bindR (parseM2 m2Body) (\<lambda>(remotePubKey, encData).
     bindR (wrapR ''compute shared secret: '' (x25519 lib localPrivate remotePubKey)) (\<lambda>sharedSecret.
     let verifyKey = hkdfSha512 lib sharedSecret pvSalt pvInfo in
     bindR (checkM2 lib (accessoryLTPK me) verifyKey localPublic remotePubKey encData) (\<lambda>_.
     bindR (m3Message lib me verifyKey localPublic remotePubKey) (\<lambda>m3.
     bindR (wrapR ''M3 request: '' (hapPost post2 host ''/pair-verify'' m3)) (\<lambda>m4Body.
     bindR (checkM4 m4Body) (\<lambda>_.
     let vc = sessionKeys lib sharedSecret in
     bindR (wrapR ''init encrypted conn: '' (wrapR ''create encrypt AEAD: '' (newAEAD lib (WriteKey vc)))) (\<lambda>_.
     bindR (wrapR ''init encrypted conn: '' (wrapR ''create decrypt AEAD: '' (newAEAD lib (ReadKey vc)))) (\<lambda>_.
     Inr vc)))))))))))"

text \<open>\<^verbatim>\<open>DoPairVerify\<close>: dial, then the handshake; the connection is closed when it fails.\<close>

definition DoPairVerify ::
  "crypto \<Rightarrow> unit result \<Rightarrow> bytes result \<Rightarrow> peer \<Rightarrow> peer \<Rightarrow> string \<Rightarrow> identity \<Rightarrow> VerifiedConn result \<times> bool" where
  "DoPairVerify lib dial rnd post1 post2 addr me =
     (case dial of
        Inl e \<Rightarrow> (Inl (''dial '' @ addr @ '': '' @ e), False)
      | Inr _ \<Rightarrow>
          (case doPairVerifyOnConn lib rnd post1 post2 addr me of
             Inl e \<Rightarrow> (Inl e, False)
           | Inr vc \<Rightarrow> (Inr vc, True)))"

section \<open>Authentication\<close>


section \<open>An honest accessory\<close>

text \<open>
  The accessory's side of the protocol (HomeKit Accessory Protocol, pair verify), written independently of
  the controller's code: it answers M1 with its ephemeral key and encrypted signature, and M3 by
  checking the controller's signature.
\<close>

record accessory =
  accPrivate :: bytes
  accPublic :: bytes
  accID :: bytes
  accLTSK :: bytes
  ctrlLTPK :: bytes

definition accessoryM2 :: "crypto \<Rightarrow> accessory \<Rightarrow> bytes \<Rightarrow> (nat \<times> bytes) result" where
  "accessoryM2 lib acc ctrlPublic =
     bindR (x25519 lib (accPrivate acc) ctrlPublic) (\<lambda>sharedSecret.
     let sub = TLV8Encode [item 0x01 (accID acc), item 0x0A (edSign lib (accLTSK acc) (accPublic acc @ accID acc @ ctrlPublic))]
     in bindR (aeadEncrypt lib (hkdfSha512 lib sharedSecret pvSalt pvInfo) ''PV-Msg02'' sub) (\<lambda>enc.
        Inr (200, TLV8Encode [item 0x06 [0x02], item 0x03 (accPublic acc), item 0x05 enc])))"

definition accessoryAccepts :: "crypto \<Rightarrow> accessory \<Rightarrow> bytes \<Rightarrow> bytes \<Rightarrow> bool" where
  "accessoryAccepts lib acc ctrlPublic m3 =
     (case bindR (x25519 lib (accPrivate acc) ctrlPublic) (\<lambda>sharedSecret.
           bindR (TLV8Decode m3) (\<lambda>items.
           bindR (aeadDecrypt lib (hkdfSha512 lib sharedSecret pvSalt pvInfo) ''PV-Msg03'' (getOrNil items 0x05)) (\<lambda>sub.
           bindR (TLV8Decode sub) (\<lambda>subItems.
           failIf (\<not> edVerify lib (ctrlLTPK acc) (ctrlPublic @ getOrNil subItems 0x01 @ accPublic acc) (getOrNil subItems 0x0A))
             ''authentication''))))
      of Inl _ \<Rightarrow> False | Inr _ \<Rightarrow> True)"

definition accessoryM4 :: "crypto \<Rightarrow> accessory \<Rightarrow> bytes \<Rightarrow> bytes \<Rightarrow> bytes" where
  "accessoryM4 lib acc ctrlPublic m3 =
     TLV8Encode (item 0x06 [0x04] # (if accessoryAccepts lib acc ctrlPublic m3 then [] else [item 0x07 [0x02]]))"

text \<open>
  What the handshake relies on: key agreement commutes, an AEAD exists for every derived key and opens what
  it sealed, and signatures verify under the matching public key.
\<close>

definition cryptoOk :: "crypto \<Rightarrow> bytes \<Rightarrow> bytes \<Rightarrow> bytes \<Rightarrow> accessory \<Rightarrow> bool" where
  "cryptoOk lib priv pub shared acc \<longleftrightarrow>
     x25519 lib priv (basepoint lib) = Inr pub \<and> length (accPublic acc) = 32
     \<and> x25519 lib priv (accPublic acc) = Inr shared \<and> x25519 lib (accPrivate acc) pub = Inr shared
     \<and> (\<forall>salt info. \<exists>a. newAEAD lib (hkdfSha512 lib shared salt info) = Inr a \<and> aeadOk a a)"

definition keyPair :: "crypto \<Rightarrow> bytes \<Rightarrow> bytes \<Rightarrow> bool" where
  "keyPair lib sk pk \<longleftrightarrow> (\<forall>m. edVerify lib pk m (edSign lib sk m))"

lemma aead_roundtrip:
  assumes "newAEAD lib key = Inr a" "aeadOk a a"
  shows "\<exists>ct. aeadEncrypt lib key n p = Inr ct \<and> aeadDecrypt lib key n ct = Inr p \<and> length ct = length p + 16"
  using assms by (simp add: aeadEncrypt_def aeadDecrypt_def aeadOk_def)

lemma getOrNil_simps [simp]:
  "getOrNil [] t = []" "getOrNil (item t' v # items) t = (if t' = t then v else getOrNil items t)"
  by (simp_all add: getOrNil_def)

lemma noErrorItem_absent: "TLV8GetBytes items 0x07 = None \<Longrightarrow> noErrorItem msg items = Inr ()"
  by (simp add: noErrorItem_def TLV8GetByte_def)

lemma parseM2_honest:
  assumes "length pub = 32" "16 \<le> length enc"
  shows "parseM2 (TLV8Encode [item 0x06 [0x02], item 0x03 pub, item 0x05 enc]) = Inr (pub, enc)"
  using assms by (simp add: parseM2_def noErrorItem_absent TLV8GetByte_def Let_def)

text \<open>Up to the second exchange, an honest accessory leads the controller to its M3 message.\<close>

definition verifyKeyOf :: "crypto \<Rightarrow> bytes \<Rightarrow> bytes" where
  "verifyKeyOf lib shared = hkdfSha512 lib shared pvSalt pvInfo"

lemma handshake_to_m3:
  assumes ok: "cryptoOk lib priv pub shared acc" and key: "keyPair lib (accLTSK acc) (accessoryLTPK me)"
    and post1: "post1 (postRequest ''/pair-verify'' host (m1Message pub)) = accessoryM2 lib acc pub"
    and m3: "m3Message lib me (verifyKeyOf lib shared) pub (accPublic acc) = Inr m3"
  shows "doPairVerifyOnConn lib (Inr priv) post1 post2 host me =
     bindR (wrapR ''M3 request: '' (hapPost post2 host ''/pair-verify'' m3)) (\<lambda>m4Body.
     bindR (checkM4 m4Body) (\<lambda>_. Inr (sessionKeys lib shared)))"
proof -
  define k where "k = verifyKeyOf lib shared"
  obtain a where a: "newAEAD lib k = Inr a" "aeadOk a a" using ok by (auto simp: cryptoOk_def k_def verifyKeyOf_def)
  define sub where "sub = TLV8Encode [item 0x01 (accID acc), item 0x0A (edSign lib (accLTSK acc) (accPublic acc @ accID acc @ pub))]"
  obtain enc where enc: "aeadEncrypt lib k ''PV-Msg02'' sub = Inr enc" "aeadDecrypt lib k ''PV-Msg02'' enc = Inr sub" "16 \<le> length enc"
    using aead_roundtrip [OF a, of "''PV-Msg02''" sub] by auto
  define m2 where "m2 = TLV8Encode [item 0x06 [0x02], item 0x03 (accPublic acc), item 0x05 enc]"
  have p1: "hapPost post1 host ''/pair-verify'' (m1Message pub) = Inr m2"
    using ok enc(1) by (simp add: hapPost_def post1 accessoryM2_def cryptoOk_def k_def verifyKeyOf_def sub_def m2_def)
  have p2: "parseM2 m2 = Inr (accPublic acc, enc)"
    unfolding m2_def by (rule parseM2_honest) (use ok enc(3) in \<open>simp_all add: cryptoOk_def\<close>)
  have c2: "checkM2 lib (accessoryLTPK me) k pub (accPublic acc) enc = Inr ()"
    using key enc(2) by (simp add: checkM2_def sub_def keyPair_def)
  obtain wa where wa: "newAEAD lib (WriteKey (sessionKeys lib shared)) = Inr wa"
    using ok unfolding cryptoOk_def sessionKeys_def VerifiedConn.simps by meson
  obtain ra where ra: "newAEAD lib (ReadKey (sessionKeys lib shared)) = Inr ra"
    using ok unfolding cryptoOk_def sessionKeys_def VerifiedConn.simps by meson
  show ?thesis
    using ok p1 p2 c2 m3 wa ra by (simp add: doPairVerifyOnConn_def cryptoOk_def k_def verifyKeyOf_def)
qed

lemma m3_honest:
  assumes ok: "cryptoOk lib priv pub shared acc"
  obtains m3 where "m3Message lib me (verifyKeyOf lib shared) pub (accPublic acc) = Inr m3"
    "accessoryAccepts lib acc pub m3 \<longleftrightarrow>
       edVerify lib (ctrlLTPK acc) (pub @ stringBytes (controllerID me) @ accPublic acc)
         (edSign lib (controllerLTSK me) (pub @ stringBytes (controllerID me) @ accPublic acc))"
proof -
  define k where "k = verifyKeyOf lib shared"
  obtain a where a: "newAEAD lib k = Inr a" "aeadOk a a" using ok by (auto simp: cryptoOk_def k_def verifyKeyOf_def)
  define sub3 where "sub3 = TLV8Encode [item 0x01 (stringBytes (controllerID me)),
      item 0x0A (edSign lib (controllerLTSK me) (pub @ stringBytes (controllerID me) @ accPublic acc))]"
  obtain enc3 where enc3: "aeadEncrypt lib k ''PV-Msg03'' sub3 = Inr enc3" "aeadDecrypt lib k ''PV-Msg03'' enc3 = Inr sub3"
    using aead_roundtrip [OF a, of "''PV-Msg03''" sub3] by auto
  show thesis
  proof (rule that)
    show "m3Message lib me (verifyKeyOf lib shared) pub (accPublic acc) = Inr (TLV8Encode [item 0x06 [0x03], item 0x05 enc3])"
      using enc3(1) by (simp add: m3Message_def sub3_def k_def)
    show "accessoryAccepts lib acc pub (TLV8Encode [item 0x06 [0x03], item 0x05 enc3]) \<longleftrightarrow>
       edVerify lib (ctrlLTPK acc) (pub @ stringBytes (controllerID me) @ accPublic acc)
         (edSign lib (controllerLTSK me) (pub @ stringBytes (controllerID me) @ accPublic acc))"
      using ok enc3(2) by (simp add: accessoryAccepts_def cryptoOk_def k_def verifyKeyOf_def sub3_def failIf_def)
  qed
qed


section \<open>A worked handshake\<close>

definition toyKey :: "byte \<Rightarrow> bytes" where
  "toyKey b = replicate 32 b"

lemma toyKey_simps: "length (toyKey b) = 32" "map2 (+) (toyKey a) (toyKey b) = toyKey (a + b)"
proof -
  have "map2 (+) (replicate n a) (replicate n b) = replicate n (a + b)" for n by (induction n) simp_all
  then show "length (toyKey b) = 32" "map2 (+) (toyKey a) (toyKey b) = toyKey (a + b)" by (simp_all add: toyKey_def)
qed

definition toyCrypto :: crypto where
  "toyCrypto = \<lparr>x25519 = \<lambda>a b. Inr (map2 (+) a b), basepoint = toyKey 0, hkdfSha512 = \<lambda>s _ _. s,
     newAEAD = \<lambda>_. Inr plainAEAD, edVerify = \<lambda>pk m s. s = pk @ m, edSign = \<lambda>sk m. sk @ m\<rparr>"

definition toyAccessory :: accessory where
  "toyAccessory = \<lparr>accPrivate = toyKey 2, accPublic = toyKey 2, accID = [65], accLTSK = [7], ctrlLTPK = [9]\<rparr>"

definition toyIdentity :: identity where
  "toyIdentity = \<lparr>controllerID = ''me'', controllerLTSK = [9], accessoryLTPK = [7]\<rparr>"

lemma toy_ok:
  "cryptoOk toyCrypto (toyKey 1) (toyKey 1) (toyKey 3) toyAccessory"
  "keyPair toyCrypto (accLTSK toyAccessory) (accessoryLTPK toyIdentity)"
  "keyPair toyCrypto (controllerLTSK toyIdentity) (ctrlLTPK toyAccessory)"
  by (simp_all add: cryptoOk_def keyPair_def toyCrypto_def toyAccessory_def toyIdentity_def toyKey_simps aeadOk_def plainAEAD_def)

definition toyM3 :: bytes where
  "toyM3 = projr (m3Message toyCrypto toyIdentity (verifyKeyOf toyCrypto (toyKey 3)) (toyKey 1) (accPublic toyAccessory))"

lemma toyM3_ok:
  "m3Message toyCrypto toyIdentity (verifyKeyOf toyCrypto (toyKey 3)) (toyKey 1) (accPublic toyAccessory) = Inr toyM3"
  "edVerify toyCrypto (ctrlLTPK toyAccessory) m (edSign toyCrypto (controllerLTSK toyIdentity) m)"
proof -
  obtain m3 where "m3Message toyCrypto toyIdentity (verifyKeyOf toyCrypto (toyKey 3)) (toyKey 1) (accPublic toyAccessory) = Inr m3"
    by (rule m3_honest [OF toy_ok(1), of toyIdentity])
  then show "m3Message toyCrypto toyIdentity (verifyKeyOf toyCrypto (toyKey 3)) (toyKey 1) (accPublic toyAccessory) = Inr toyM3"
    by (simp add: toyM3_def)
  show "edVerify toyCrypto (ctrlLTPK toyAccessory) m (edSign toyCrypto (controllerLTSK toyIdentity) m)"
    using toy_ok(3) by (simp add: keyPair_def)
qed


lemma toy_handshake:
  "doPairVerifyOnConn toyCrypto (Inr (toyKey 1)) (\<lambda>_. accessoryM2 toyCrypto toyAccessory (toyKey 1))
     (\<lambda>_. Inr (200, TLV8Encode [item 0x06 [0x04]])) ''h'' toyIdentity = Inr (sessionKeys toyCrypto (toyKey 3))"
  using handshake_to_m3 [where ?post1.0 = "\<lambda>_. accessoryM2 toyCrypto toyAccessory (toyKey 1)", OF toy_ok(1,2) refl toyM3_ok(1)]
  by (simp add: hapPost_def checkM4_def noErrorItem_absent)


end
