(* ===== verification/Hap_Controller.thy ===== *)
theory Hap_Controller
  imports Camera Base64 Hap_Client Pair_Verify
begin

text \<open>
  The HAP controller of \<^verbatim>\<open>internal/hap/controller.go\<close>: finding a camera's characteristics, addresses, connecting and reconnecting,
  starting and stopping streams, motion subscriptions, and recovery after a camera was lost. A verified connection is
  a state \<open>'v\<close> that requests update; the environment (JSON and HTTP, random source, addresses, the key file, the
  library's device table, the outcome of each pair-verify attempt) is a record of functions.
\<close>

section \<open>Data\<close>

record device =
  devName :: string
  isPaired :: bool
  accessoryKey :: bytes
  dnssdIPs :: "ip list"
  dnssdPort :: nat

record cameraCharIDs =
  aid :: int
  setupEndpointsIID :: int
  selectedConfigIID :: int
  streamingStatusIID :: int
  supportedAudioCfgIID :: int
  motionDetectedAID :: int
  motionDetectedIID :: int

record 'v Controller =
  devices :: "string \<rightharpoonup> device"
  verified :: "string \<rightharpoonup> 'v"
  charIDs :: "string \<rightharpoonup> cameraCharIDs"
  motionCallbacks :: "string set"
  motionCtx :: bool
  recoveredCallback :: bool

record ('v, 'r) hapEnv =
  json :: jsonLib
  trans :: "'v transport"
  rand :: "'r \<Rightarrow> nat \<Rightarrow> bytes result \<times> 'r"
  formatIPv6 :: "ip \<Rightarrow> string"
  readIPv6 :: "string \<Rightarrow> ip option"
  connIP :: "'v \<Rightarrow> ip option"
  keypairFile :: "bytes result"
  parseKeypair :: "bytes \<Rightarrow> (bytes \<times> bytes) result"
  getDevice :: "string \<Rightarrow> device option"
  pairVerify :: "string \<Rightarrow> identity \<Rightarrow> nat \<Rightarrow> 'v result"

definition NewController :: "'v Controller" where
  "NewController = \<lparr>devices = Map.empty, verified = Map.empty, charIDs = Map.empty, motionCallbacks = {}, motionCtx = False,
     recoveredCallback = False\<rparr>"

definition SetRecoveredCallback :: "'v Controller \<Rightarrow> 'v Controller" where
  "SetRecoveredCallback c = c\<lparr>recoveredCallback := True\<rparr>"

text \<open>\<^verbatim>\<open>%q\<close> of a name without characters that need escaping.\<close>

definition quoted :: "string \<Rightarrow> string" where
  "quoted s = [CHR 0x22] @ s @ [CHR 0x22]"

section \<open>Finding the characteristics\<close>

definition trimHAPUUID :: "string \<Rightarrow> string" where
  "trimHAPUUID s =
     (if \<not> Contains s ''-'' then s
      else let short = dropWhile (\<lambda>c. c = CHR ''0'') (takeWhile (\<lambda>c. c \<noteq> CHR ''-'') s) in
           if short = [] then ''0'' else short)"

definition charTypeOf :: "Characteristic \<Rightarrow> string" where
  "charTypeOf ch = trimHAPUUID (TrimPrefix (charType ch) ''public.hap.characteristic.'')"

definition svcTypeOf :: "Service \<Rightarrow> string" where
  "svcTypeOf svc = trimHAPUUID (TrimPrefix (svcType svc) ''public.hap.service.'')"

abbreviation ServiceCameraRTPStreamMgmt :: string where "ServiceCameraRTPStreamMgmt \<equiv> ''110''"
abbreviation CharSetupEndpoints :: string where "CharSetupEndpoints \<equiv> ''118''"
abbreviation CharSelectedRTPConfig :: string where "CharSelectedRTPConfig \<equiv> ''117''"
abbreviation CharStreamingStatus :: string where "CharStreamingStatus \<equiv> ''120''"
abbreviation CharSupportedVideoConfig :: string where "CharSupportedVideoConfig \<equiv> ''114''"
abbreviation CharSupportedAudioConfig :: string where "CharSupportedAudioConfig \<equiv> ''115''"
abbreviation ServiceMotionSensor :: string where "ServiceMotionSensor \<equiv> ''85''"
abbreviation CharMotionDetected :: string where "CharMotionDetected \<equiv> ''22''"

definition streamChar :: "Characteristic \<Rightarrow> cameraCharIDs \<Rightarrow> cameraCharIDs" where
  "streamChar ch ids =
     (if charTypeOf ch = CharSetupEndpoints then ids\<lparr>setupEndpointsIID := IID ch\<rparr>
      else if charTypeOf ch = CharSelectedRTPConfig then ids\<lparr>selectedConfigIID := IID ch\<rparr>
      else if charTypeOf ch = CharStreamingStatus then ids\<lparr>streamingStatusIID := IID ch\<rparr>
      else if charTypeOf ch = CharSupportedAudioConfig then ids\<lparr>supportedAudioCfgIID := IID ch\<rparr>
      else ids)"

definition motionChar :: "int \<Rightarrow> Characteristic \<Rightarrow> cameraCharIDs \<Rightarrow> cameraCharIDs" where
  "motionChar acc ch ids =
     (if charTypeOf ch = CharMotionDetected then ids\<lparr>motionDetectedAID := acc, motionDetectedIID := IID ch\<rparr> else ids)"

definition scanService :: "int \<Rightarrow> Service \<Rightarrow> cameraCharIDs \<Rightarrow> cameraCharIDs" where
  "scanService acc svc ids0 =
     (let ids = (if svcTypeOf svc = ServiceCameraRTPStreamMgmt \<and> setupEndpointsIID ids0 = 0
                 then fold streamChar (Characteristics svc) (ids0\<lparr>aid := acc\<rparr>) else ids0)
      in if svcTypeOf svc = ServiceMotionSensor then fold (motionChar acc) (Characteristics svc) ids else ids)"

definition noIDs :: cameraCharIDs where
  "noIDs = \<lparr>aid = 0, setupEndpointsIID = 0, selectedConfigIID = 0, streamingStatusIID = 0, supportedAudioCfgIID = 0,
     motionDetectedAID = 0, motionDetectedIID = 0\<rparr>"

definition findCameraCharIDs :: "Accessory list \<Rightarrow> cameraCharIDs result" where
  "findCameraCharIDs accs =
     (let ids = fold (\<lambda>acc. fold (scanService (accAID acc)) (Services acc)) accs noIDs in
      if setupEndpointsIID ids = 0 \<or> selectedConfigIID ids = 0
      then Inl ''camera streaming characteristics not found in accessory database'' else Inr ids)"

section \<open>Addresses\<close>

text \<open>\<open>order\<close> is the order in which Go's map iteration visits the device names.\<close>

definition mdnsCandidates :: "('v, 'r) hapEnv \<Rightarrow> string list \<Rightarrow> string \<Rightarrow> 'v Controller \<Rightarrow> device list" where
  "mdnsCandidates env order deviceName c =
     (let cands = (case devices c deviceName of None \<Rightarrow> [] | Some d \<Rightarrow> [d])
                  @ map (\<lambda>n. the (devices c n)) (filter (\<lambda>n. devices c n \<noteq> None \<and> n \<noteq> deviceName \<and> HasPrefix n deviceName) order)
      in if cands = [] then (case getDevice env deviceName of None \<Rightarrow> [] | Some d \<Rightarrow> [d]) else cands)"

fun firstIPv4 :: "ip list \<Rightarrow> ip option" where
  "firstIPv4 [] = None"
| "firstIPv4 (a # as) = (case To4 a of Some a4 \<Rightarrow> Some a4 | None \<Rightarrow> firstIPv4 as)"

fun firstEndpoint :: "device list \<Rightarrow> (ip \<times> nat) option" where
  "firstEndpoint [] = None"
| "firstEndpoint (d # ds) = (case firstIPv4 (dnssdIPs d) of Some a \<Rightarrow> Some (a, dnssdPort d) | None \<Rightarrow> firstEndpoint ds)"

definition mdnsEndpoint :: "('v, 'r) hapEnv \<Rightarrow> string list \<Rightarrow> string \<Rightarrow> 'v Controller \<Rightarrow> (ip \<times> nat) option" where
  "mdnsEndpoint env order deviceName c = firstEndpoint (mdnsCandidates env order deviceName c)"

definition GetCameraIP :: "('v, 'r) hapEnv \<Rightarrow> string list \<Rightarrow> string \<Rightarrow> 'v Controller \<Rightarrow> ip result" where
  "GetCameraIP env order deviceName c =
     (case Option.bind (verified c deviceName) (\<lambda>v. Option.bind (connIP env v) To4) of
        Some ip4 \<Rightarrow> Inr ip4
      | None \<Rightarrow>
          (case mdnsEndpoint env order deviceName c of
             Some (a, _) \<Rightarrow> Inr a
           | None \<Rightarrow> Inl (''no IPv4 address known for '' @ quoted deviceName)))"

section \<open>Connecting\<close>

definition readControllerKeys :: "('v, 'r) hapEnv \<Rightarrow> (string \<times> bytes \<times> bytes) result" where
  "readControllerKeys env =
     bindR (wrapR ''read keypair: '' (keypairFile env)) (\<lambda>data.
     bindR (wrapR ''parse keypair: '' (parseKeypair env data)) (\<lambda>(pub, priv).
     Inr (''homekit-rtsp-proxy'', priv, pub)))"

text \<open>Up to three pair-verify attempts; the result of the last one counts.\<close>

definition verifyAttempts :: "(nat \<Rightarrow> 'v result) \<Rightarrow> 'v result" where
  "verifyAttempts attempt =
     (case attempt 1 of Inr v \<Rightarrow> Inr v | Inl _ \<Rightarrow>
     (case attempt 2 of Inr v \<Rightarrow> Inr v | Inl _ \<Rightarrow> attempt 3))"

definition addrString :: "('v, 'r) hapEnv \<Rightarrow> ip \<times> nat \<Rightarrow> string" where
  "addrString env ep = IP_String (formatIPv6 env) (fst ep) @ '':'' @ show_nat (snd ep)"

text \<open>Fetching the database over a new connection and locating the characteristics.\<close>

definition discoverIDs :: "('v, 'r) hapEnv \<Rightarrow> 'v \<Rightarrow> cameraCharIDs result \<times> 'v" where
  "discoverIDs env =
     bindS (wrapS ''get accessories: '' (GetAccessories (json env) (trans env))) (\<lambda>accs.
     liftR (wrapR ''find camera characteristics: '' (findCameraCharIDs accs)))"

definition doSubscribeMotion :: "('v, 'r) hapEnv \<Rightarrow> string \<Rightarrow> 'v Controller \<Rightarrow> unit result \<times> 'v Controller" where
  "doSubscribeMotion env deviceName c =
     (case verified c deviceName of
        None \<Rightarrow> (Inl (''device '' @ quoted deviceName @ '' not verified''), c)
      | Some v \<Rightarrow>
          (case charIDs c deviceName of
             None \<Rightarrow> (Inl (''device '' @ quoted deviceName @ '' has no motion sensor''), c)
           | Some ids \<Rightarrow>
               (if motionDetectedIID ids = 0 then (Inl (''device '' @ quoted deviceName @ '' has no motion sensor''), c)
                else case SubscribeCharacteristic (json env) (trans env) (motionDetectedAID ids) (motionDetectedIID ids) v of
                       (r, v') \<Rightarrow> (wrapR ''subscribe motion: '' r, c\<lparr>verified := (verified c)(deviceName \<mapsto> v')\<rparr>))))"

definition SubscribeMotionSensor :: "('v, 'r) hapEnv \<Rightarrow> string \<Rightarrow> 'v Controller \<Rightarrow> unit result \<times> 'v Controller" where
  "SubscribeMotionSensor env deviceName c =
     doSubscribeMotion env deviceName (c\<lparr>motionCallbacks := insert deviceName (motionCallbacks c), motionCtx := True\<rparr>)"

definition reconnectAddr :: "('v, 'r) hapEnv \<Rightarrow> string list \<Rightarrow> string \<Rightarrow> 'v Controller \<Rightarrow> string result" where
  "reconnectAddr env order deviceName c =
     (let deviceAddr = (case mdnsEndpoint env order deviceName c of
                          Some ep \<Rightarrow> addrString env ep
                        | None \<Rightarrow> (case verified c deviceName of None \<Rightarrow> [] | Some v \<Rightarrow> remoteAddr (trans env) v))
      in if deviceAddr = [] then Inl (''no address known for '' @ quoted deviceName) else Inr deviceAddr)"

definition reconnectDevice :: "('v, 'r) hapEnv \<Rightarrow> string \<Rightarrow> 'v Controller \<Rightarrow> device result" where
  "reconnectDevice env deviceName c =
     (case devices c deviceName of
        Some d \<Rightarrow> Inr d
      | None \<Rightarrow> (case getDevice env deviceName of Some d \<Rightarrow> Inr d | None \<Rightarrow> Inl (''device '' @ quoted deviceName @ '' not found via mDNS'')))"

definition installConnection :: "('v, 'r) hapEnv \<Rightarrow> string \<Rightarrow> 'v \<Rightarrow> cameraCharIDs \<Rightarrow> 'v Controller \<Rightarrow> 'v Controller" where
  "installConnection env deviceName v ids c =
     (let c' = c\<lparr>verified := (verified c)(deviceName \<mapsto> v), charIDs := (charIDs c)(deviceName \<mapsto> ids)\<rparr> in
      if deviceName \<in> motionCallbacks c' \<and> motionCtx c' then snd (doSubscribeMotion env deviceName c') else c')"

definition reconnect :: "('v, 'r) hapEnv \<Rightarrow> string list \<Rightarrow> string \<Rightarrow> 'v Controller \<Rightarrow> unit result \<times> 'v Controller" where
  "reconnect env order deviceName c =
     (case bindR (wrapR ''read controller keys: '' (readControllerKeys env)) (\<lambda>(cid, ltsk, ltpk).
           bindR (reconnectDevice env deviceName c) (\<lambda>d.
           bindR (failIf (accessoryKey d = []) (''no accessory public key for '' @ quoted deviceName)) (\<lambda>_.
           bindR (reconnectAddr env order deviceName c) (\<lambda>addr.
           wrapR ''pair verify: ''
             (verifyAttempts (pairVerify env addr \<lparr>controllerID = cid, controllerLTSK = ltsk, accessoryLTPK = accessoryKey d\<rparr>)))))) of
        Inl e \<Rightarrow> (Inl e, c)
      | Inr v \<Rightarrow>
          (case discoverIDs env v of
             (Inl e, _) \<Rightarrow> (Inl e, c)
           | (Inr ids, v') \<Rightarrow> (Inr (), installConnection env deviceName v' ids c)))"

definition isConnError :: "go_error \<Rightarrow> bool" where
  "isConnError s \<longleftrightarrow> Contains s ''broken pipe'' \<or> Contains s ''connection reset'' \<or> Contains s ''EOF''
     \<or> Contains s ''use of closed network connection''"

section \<open>Streams\<close>

definition valueTypeName :: "jvalue \<Rightarrow> string" where
  "valueTypeName v = (case v of JNull \<Rightarrow> ''<nil>'' | JBool _ \<Rightarrow> ''bool'' | JNumber _ \<Rightarrow> ''float64'' | JString _ \<Rightarrow> ''string''
     | JOther \<Rightarrow> ''map[string]interface {}'')"

text \<open>From the characteristics read back to the camera's response.\<close>

definition setupResponse :: "('v, 'r) hapEnv \<Rightarrow> Characteristic list \<Rightarrow> StreamResponse result" where
  "setupResponse env chs =
     (case chs of
        [] \<Rightarrow> Inl ''empty SetupEndpoints response''
      | ch # _ \<Rightarrow>
          (case charValue ch of
             JString respB64 \<Rightarrow>
               bindR (wrapR ''decode response base64: '' (DecodeString respB64)) (\<lambda>respTLV.
               bindR (wrapR ''decode stream response: '' (DecodeStreamResponse (readIPv6 env) respTLV)) (\<lambda>resp.
               bindR (failIf (Status resp \<noteq> 0) (''camera rejected stream setup (status='' @ show_nat (unat (Status resp)) @ '')'')) (\<lambda>_.
               Inr resp)))
           | v \<Rightarrow> Inl (''SetupEndpoints response not a string: '' @ valueTypeName v)))"

definition noKey :: "bytes option \<Rightarrow> bool" where
  "noKey k \<longleftrightarrow> (case k of None \<Rightarrow> True | Some b \<Rightarrow> b = [])"

definition withKeys :: "StreamEndpoints \<Rightarrow> u32 \<Rightarrow> u32 \<Rightarrow> StreamResponse \<Rightarrow> StreamResponse" where
  "withKeys ep vssrc assrc resp =
     (let r1 = (if noKey (VideoSRTPKey resp)
                then resp\<lparr>VideoSRTPKey := Some (EpVideoSRTPKey ep), VideoSRTPSalt := Some (EpVideoSRTPSalt ep)\<rparr> else resp);
          r2 = (if noKey (AudioSRTPKey r1)
                then r1\<lparr>AudioSRTPKey := Some (EpAudioSRTPKey ep), AudioSRTPSalt := Some (EpAudioSRTPSalt ep)\<rparr> else r1)
      in r2\<lparr>ControllerVideoKey := EpVideoSRTPKey ep, ControllerVideoSalt := EpVideoSRTPSalt ep, ControllerVideoSSRC := vssrc,
            ControllerAudioKey := EpAudioSRTPKey ep, ControllerAudioSalt := EpAudioSRTPSalt ep, ControllerAudioSSRC := assrc\<rparr>)"

text \<open>\<^verbatim>\<open>randomUint32\<close> ignores a failing random source and keeps the zeroed buffer.\<close>

definition randomUint32 :: "('v, 'r) hapEnv \<Rightarrow> 'v \<times> 'r \<Rightarrow> u32 result \<times> 'v \<times> 'r" where
  "randomUint32 env s =
     (case rand env (snd s) 4 of (Inl _, r) \<Rightarrow> (Inr 0, fst s, r) | (Inr b, r) \<Rightarrow> (Inr (Uint32LE b), fst s, r))"

definition onConn :: "('v \<Rightarrow> 'a result \<times> 'v) \<Rightarrow> 'v \<times> 'r \<Rightarrow> 'a result \<times> 'v \<times> 'r" where
  "onConn m s = (case m (fst s) of (x, v) \<Rightarrow> (x, v, snd s))"

definition onRand :: "('r \<Rightarrow> 'a result \<times> 'r) \<Rightarrow> 'v \<times> 'r \<Rightarrow> 'a result \<times> 'v \<times> 'r" where
  "onRand m s = (case m (snd s) of (x, r) \<Rightarrow> (x, fst s, r))"

definition writeChar :: "('v, 'r) hapEnv \<Rightarrow> int \<Rightarrow> int \<Rightarrow> bytes \<Rightarrow> 'v \<Rightarrow> unit result \<times> 'v" where
  "writeChar env a i tlv = PutCharacteristics (json env) (trans env) [charWrite a i (JString (EncodeToString tlv))]"

definition readChar :: "('v, 'r) hapEnv \<Rightarrow> int \<Rightarrow> int \<Rightarrow> 'v \<Rightarrow> Characteristic list result \<times> 'v" where
  "readChar env a i = GetCharacteristics (json env) (trans env) [showInt a @ ''.'' @ showInt i]"

definition startStreamOn ::
  "('v, 'r) hapEnv \<Rightarrow> cameraCharIDs \<Rightarrow> ip \<Rightarrow> u16 \<Rightarrow> u16 \<Rightarrow> VideoSelection \<Rightarrow> AudioSelection \<Rightarrow> 'v \<times> 'r \<Rightarrow> StreamResponse result \<times> 'v \<times> 'r" where
  "startStreamOn env ids localIP videoPort audioPort video audio =
     bindS (wrapS ''generate endpoints: '' (onRand (\<lambda>r. GenerateStreamEndpoints (rand env) r localIP videoPort audioPort))) (\<lambda>ep.
     bindS (wrapS ''write SetupEndpoints: ''
       (onConn (writeChar env (aid ids) (setupEndpointsIID ids) (EncodeSetupEndpoints (formatIPv6 env) ep)))) (\<lambda>_.
     bindS (wrapS ''read SetupEndpoints response: '' (onConn (readChar env (aid ids) (setupEndpointsIID ids)))) (\<lambda>chs.
     bindS (liftR (setupResponse env chs)) (\<lambda>resp.
     bindS (randomUint32 env) (\<lambda>vssrc.
     bindS (randomUint32 env) (\<lambda>assrc.
     bindS (wrapS ''write SelectedRTPStreamConfiguration: ''
       (onConn (writeChar env (aid ids) (selectedConfigIID ids)
         (EncodeSelectedStreamConfig (EpSessionID ep) SessionCommandStart (video\<lparr>VSSRC := vssrc\<rparr>) (audio\<lparr>ASSRC := assrc\<rparr>))))) (\<lambda>_.
     liftR (Inr (withKeys ep vssrc assrc resp)))))))))"

text \<open>The lookups at the beginning of \<^verbatim>\<open>doStartStream\<close> and \<^verbatim>\<open>StopStream\<close>; the connection's new state is stored back.\<close>

definition onDevice :: "string \<Rightarrow> (cameraCharIDs \<Rightarrow> 'v \<times> 'r \<Rightarrow> 'a result \<times> 'v \<times> 'r) \<Rightarrow> 'v Controller \<times> 'r \<Rightarrow> 'a result \<times> 'v Controller \<times> 'r" where
  "onDevice deviceName f s =
     (let (c, r) = s in
      case verified c deviceName of
        None \<Rightarrow> (Inl (''device '' @ quoted deviceName @ '' not verified''), s)
      | Some v \<Rightarrow>
          (case charIDs c deviceName of
             None \<Rightarrow> (Inl (''device '' @ quoted deviceName @ '' characteristics not discovered''), s)
           | Some ids \<Rightarrow> (case f ids (v, r) of (x, v', r') \<Rightarrow> (x, c\<lparr>verified := (verified c)(deviceName \<mapsto> v')\<rparr>, r'))))"

definition doStartStream ::
  "('v, 'r) hapEnv \<Rightarrow> string \<Rightarrow> ip \<Rightarrow> u16 \<Rightarrow> u16 \<Rightarrow> VideoSelection \<Rightarrow> AudioSelection \<Rightarrow> 'v Controller \<times> 'r \<Rightarrow> StreamResponse result \<times> 'v Controller \<times> 'r" where
  "doStartStream env deviceName localIP videoPort audioPort video audio =
     onDevice deviceName (\<lambda>ids. startStreamOn env ids localIP videoPort audioPort video audio)"

definition StartStream ::
  "('v, 'r) hapEnv \<Rightarrow> string list \<Rightarrow> string \<Rightarrow> ip \<Rightarrow> u16 \<Rightarrow> u16 \<Rightarrow> VideoSelection \<Rightarrow> AudioSelection \<Rightarrow> 'v Controller \<times> 'r \<Rightarrow> StreamResponse result \<times> 'v Controller \<times> 'r" where
  "StartStream env order deviceName localIP videoPort audioPort video audio s =
     (case doStartStream env deviceName localIP videoPort audioPort video audio s of
        (Inl err, c, r) \<Rightarrow>
          (if isConnError err
           then (case reconnect env order deviceName c of
                   (Inl reconErr, c') \<Rightarrow> (Inl (''reconnect failed: '' @ reconErr @ '' (original: '' @ err @ '')''), c', r)
                 | (Inr _, c') \<Rightarrow> doStartStream env deviceName localIP videoPort audioPort video audio (c', r))
           else (Inl err, c, r))
      | ok \<Rightarrow> ok)"

definition endMessage :: "bytes \<Rightarrow> bytes" where
  "endMessage sid =
     TLV8Encode [item TLVSelectedSessionControl (TLV8Encode [item TLVSessionControlID sid, item TLVSessionControlCommand [SessionCommandEnd]])]"

definition StopStream :: "('v, 'r) hapEnv \<Rightarrow> string \<Rightarrow> bytes \<Rightarrow> 'v Controller \<times> 'r \<Rightarrow> unit result \<times> 'v Controller \<times> 'r" where
  "StopStream env deviceName sid =
     onDevice deviceName (\<lambda>ids. wrapS ''write end command: '' (onConn (writeChar env (aid ids) (selectedConfigIID ids) (endMessage sid))))"

section \<open>Motion\<close>

text \<open>The truth value of a characteristic; other types are ignored.\<close>

definition motionValue :: "jvalue \<Rightarrow> bool option" where
  "motionValue v = (case v of JBool b \<Rightarrow> Some b | JNumber n \<Rightarrow> Some (n \<noteq> 0) | _ \<Rightarrow> None)"

text \<open>One event notification: the callbacks it causes.\<close>

definition motionEvent :: "cameraCharIDs \<Rightarrow> Characteristic list \<Rightarrow> bool list" where
  "motionEvent ids chs =
     concat (map (\<lambda>ch. if AID ch = motionDetectedAID ids \<and> IID ch = motionDetectedIID ids
                       then (case motionValue (charValue ch) of None \<Rightarrow> [] | Some b \<Rightarrow> [b]) else []) chs)"

text \<open>
  One poll: the new value of \<^verbatim>\<open>lastDetected\<close>, the callbacks it causes, and whether the poll loop ends; the argument is
  what \<^verbatim>\<open>GetCharacteristics\<close> returned.
\<close>

definition motionPoll :: "Characteristic list result \<Rightarrow> bool option \<Rightarrow> bool option \<times> bool list \<times> bool" where
  "motionPoll res lastDetected =
     (case res of
        Inl e \<Rightarrow> (lastDetected, [], isConnError e)
      | Inr [] \<Rightarrow> (lastDetected, [], False)
      | Inr (ch # _) \<Rightarrow>
          (case motionValue (charValue ch) of
             None \<Rightarrow> (lastDetected, [], False)
           | Some detected \<Rightarrow>
               (if lastDetected = None \<or> lastDetected \<noteq> Some detected then (Some detected, [detected], False)
                else (lastDetected, [], False))))"

fun motionPolls :: "Characteristic list result list \<Rightarrow> bool option \<Rightarrow> bool list" where
  "motionPolls [] lastDetected = []"
| "motionPolls (res # rs) lastDetected =
     (case motionPoll res lastDetected of
        (l, cbs, ends) \<Rightarrow> cbs @ (if ends then [] else motionPolls rs l))"

section \<open>Discovery and recovery\<close>

datatype discovery = Discovered device | LostDevice device

text \<open>
  One iteration of \<^verbatim>\<open>discoveryLoop\<close>: the lost names and the devices are updated, and at most one recovery is started.
  \<open>order\<close> is the iteration order of the lost names.
\<close>

definition discoveryStep :: "string list \<Rightarrow> discovery \<Rightarrow> string set \<times> 'v Controller \<Rightarrow> (string set \<times> 'v Controller) \<times> string list" where
  "discoveryStep order ev s =
     (let (lost, c) = s in
      case ev of
        LostDevice d \<Rightarrow> ((insert (devName d) lost, c), [])
      | Discovered d \<Rightarrow>
          (let wasLost = devName d \<in> lost;
               lost1 = lost - {devName d};
               c1 = c\<lparr>devices := (devices c)(devName d \<mapsto> d)\<rparr>
           in if wasLost \<and> isPaired d then ((lost1, c1), [devName d])
              else if wasLost then ((lost1, c1), [])
              else (case filter (\<lambda>n. n \<in> lost1 \<and> n \<noteq> devName d \<and> HasPrefix (devName d) n) order of
                      [] \<Rightarrow> ((lost1, c1), [])
                    | n # _ \<Rightarrow> ((lost1 - {n}, c1), [n]))))"

text \<open>
  \<^verbatim>\<open>recoverDevice\<close>: up to five attempts, after 0, 5, 15, 30 and 60 seconds. \<open>world k\<close> is what attempt \<open>k\<close> finds: its environment and
  map iteration order, or nothing when the context is cancelled during the wait before it. The result
  tells whether the recovered callback is called.
\<close>

abbreviation backoff :: "int list" where "backoff \<equiv> [0, 5, 15, 30, 60]"

fun recoverAttempts :: "(nat \<Rightarrow> (('v, 'r) hapEnv \<times> string list) option) \<Rightarrow> int list \<Rightarrow> nat \<Rightarrow> string \<Rightarrow> 'v Controller \<Rightarrow> 'v Controller \<times> bool" where
  "recoverAttempts world [] k deviceName c = (c, False)"
| "recoverAttempts world (wait # waits) k deviceName c =
     (case world k of
        None \<Rightarrow> (c, False)
      | Some (env, order) \<Rightarrow>
          (case reconnect env order deviceName c of
             (Inl _, c') \<Rightarrow> recoverAttempts world waits (k + 1) deviceName c'
           | (Inr _, c') \<Rightarrow> (c', recoveredCallback c')))"

definition recoverDevice :: "(nat \<Rightarrow> (('v, 'r) hapEnv \<times> string list) option) \<Rightarrow> string \<Rightarrow> 'v Controller \<Rightarrow> 'v Controller \<times> bool" where
  "recoverDevice world deviceName c = recoverAttempts world backoff 0 deviceName c"

section \<open>Pairing\<close>

text \<open>
  The library's side of pairing: all devices it knows, and pair-setup, which gives the device its pairing or
  fails. Names are compared without the backslashes of escaped mDNS names.
\<close>

record pairLib =
  allDevices :: "device list"
  pairSetup :: "device \<Rightarrow> string \<Rightarrow> device result"

definition cleanName :: "string \<Rightarrow> string" where
  "cleanName n = filter (\<lambda>ch. ch \<noteq> CHR 0x5C) n"

definition lookupDevice :: "('v, 'r) hapEnv \<Rightarrow> pairLib \<Rightarrow> string list \<Rightarrow> string \<Rightarrow> 'v Controller \<Rightarrow> (string option \<times> device) result" where
  "lookupDevice env lib order deviceName c =
     (case devices c deviceName of
        Some d \<Rightarrow> Inr (Some deviceName, d)
      | None \<Rightarrow>
          (case filter (\<lambda>n. devices c n \<noteq> None \<and> cleanName n = deviceName) order of
             n # _ \<Rightarrow> Inr (Some n, the (devices c n))
           | [] \<Rightarrow>
               (case getDevice env deviceName of
                  Some d \<Rightarrow> Inr (None, d)
                | None \<Rightarrow>
                    (case filter (\<lambda>d. cleanName (devName d) = deviceName \<or> devName d = deviceName) (allDevices lib) of
                       d # _ \<Rightarrow> Inr (None, d)
                     | [] \<Rightarrow> Inl (''device '' @ quoted deviceName @ '' not found via mDNS'')))))"

text \<open>Step 1: pair-setup when needed. The table holds the same device object, so it sees the new pairing.\<close>

definition ensurePaired :: "pairLib \<Rightarrow> string \<Rightarrow> string option \<times> device \<Rightarrow> 'v Controller \<Rightarrow> device result \<times> 'v Controller" where
  "ensurePaired lib code kd c =
     (if isPaired (snd kd) then (Inr (snd kd), c)
      else case pairSetup lib (snd kd) code of
             Inl e \<Rightarrow> (Inl (''pair setup: '' @ e), c)
           | Inr d' \<Rightarrow>
               (Inr d', case fst kd of None \<Rightarrow> c | Some k \<Rightarrow> c\<lparr>devices := (devices c)(k \<mapsto> d')\<rparr>))"

definition verifyDevice :: "('v, 'r) hapEnv \<Rightarrow> string list \<Rightarrow> string \<Rightarrow> device \<Rightarrow> 'v Controller \<Rightarrow> 'v result" where
  "verifyDevice env order deviceName d c =
     bindR (wrapR ''read controller keys: '' (readControllerKeys env)) (\<lambda>(cid, ltsk, ltpk).
     bindR (failIf (accessoryKey d = []) (''no accessory public key for '' @ quoted deviceName @ '' (not paired?)'')) (\<lambda>_.
     bindR (case mdnsEndpoint env order deviceName c of None \<Rightarrow> Inl (''no IPs known for '' @ quoted deviceName) | Some ep \<Rightarrow> Inr ep) (\<lambda>ep.
     wrapR ''pair verify: ''
       (verifyAttempts (pairVerify env (addrString env ep) \<lparr>controllerID = cid, controllerLTSK = ltsk, accessoryLTPK = accessoryKey d\<rparr>)))))"

definition readAudioConfig :: "('v, 'r) hapEnv \<Rightarrow> cameraCharIDs \<Rightarrow> 'v \<Rightarrow> 'v" where
  "readAudioConfig env ids v =
     (if supportedAudioCfgIID ids \<noteq> 0 then snd (readChar env (aid ids) (supportedAudioCfgIID ids) v) else v)"

definition PairCamera :: "('v, 'r) hapEnv \<Rightarrow> pairLib \<Rightarrow> string list \<Rightarrow> string \<Rightarrow> string \<Rightarrow> 'v Controller \<Rightarrow> unit result \<times> 'v Controller" where
  "PairCamera env lib order deviceName code c0 =
     (case lookupDevice env lib order deviceName c0 of
        Inl e \<Rightarrow> (Inl e, c0)
      | Inr kd \<Rightarrow>
          (case ensurePaired lib code kd c0 of
             (Inl e, c) \<Rightarrow> (Inl e, c)
           | (Inr d, c) \<Rightarrow>
               (case verifyDevice env order deviceName d c of
                  Inl e \<Rightarrow> (Inl e, c)
                | Inr v \<Rightarrow>
                    (case discoverIDs env v of
                       (Inl e, _) \<Rightarrow> (Inl e, c)
                     | (Inr ids, v') \<Rightarrow>
                         (Inr (), c\<lparr>verified := (verified c)(deviceName \<mapsto> readAudioConfig env ids v'),
                                    charIDs := (charIDs c)(deviceName \<mapsto> ids)\<rparr>)))))"

end
