(* ===== verification/Controller_Props.thy ===== *)
theory Controller_Props
  imports Hap_Controller
begin

text \<open>
  What the HAP controller guarantees: after a successful start the camera and the proxy agree on session, keys and SSRCs; the
  characteristics come from the first streaming service; connections and characteristics are known together;
  motion callbacks report changes; recoveries answer losses.
\<close>

section \<open>Starting a stream\<close>

lemma onConn_Inr [simp]: "onConn m (v, r) = (Inr x, v', r') \<longleftrightarrow> m v = (Inr x, v') \<and> r = r'"
  by (auto simp: onConn_def split: prod.splits)

lemma onRand_Inr [simp]: "onRand m (v, r) = (Inr x, v', r') \<longleftrightarrow> m r = (Inr x, r') \<and> v = v'"
  by (auto simp: onRand_def split: prod.splits)

lemma randomUint32_conn: "randomUint32 env (v, r) = (Inr x, v', r') \<Longrightarrow> v' = v"
  by (auto simp: randomUint32_def split: prod.splits sum.splits)

lemma startStreamOn_success:
  assumes "startStreamOn env ids localIP vp ap video audio (v0, r0) = (Inr resp, v3, r3)"
  obtains ep vssrc assrc v1 v2 chs answer where
    "writeChar env (aid ids) (setupEndpointsIID ids) (EncodeSetupEndpoints (formatIPv6 env) ep) v0 = (Inr (), v1)"
    "readChar env (aid ids) (setupEndpointsIID ids) v1 = (Inr chs, v2)" "setupResponse env chs = Inr answer"
    "writeChar env (aid ids) (selectedConfigIID ids)
       (EncodeSelectedStreamConfig (EpSessionID ep) SessionCommandStart (video\<lparr>VSSRC := vssrc\<rparr>) (audio\<lparr>ASSRC := assrc\<rparr>)) v2 = (Inr (), v3)"
    "resp = withKeys ep vssrc assrc answer"
  using assms that by (fastforce simp: startStreamOn_def dest: randomUint32_conn)

lemma setup_fields:
  "tlvPath (EncodeSetupEndpoints sh ep) [TLVSessionID] = Some (EpSessionID ep)"
  "tlvPath (EncodeSetupEndpoints sh ep) [TLVVideoParams, TLVSRTPMasterKey] = Some (EpVideoSRTPKey ep)"
  "tlvPath (EncodeSetupEndpoints sh ep) [TLVVideoParams, TLVSRTPMasterSalt] = Some (EpVideoSRTPSalt ep)"
  "tlvPath (EncodeSetupEndpoints sh ep) [TLVAudioParams, TLVSRTPMasterKey] = Some (EpAudioSRTPKey ep)"
  "tlvPath (EncodeSetupEndpoints sh ep) [TLVAudioParams, TLVSRTPMasterSalt] = Some (EpAudioSRTPSalt ep)"
  by (simp_all add: EncodeSetupEndpoints_def setup_messages)

lemma start_fields:
  "tlvPath (EncodeSelectedStreamConfig sid cmd video audio) [1, 1] = Some sid"
  "tlvPath (EncodeSelectedStreamConfig sid cmd video audio) [1, 2] = Some [cmd]"
  "tlvPath (EncodeSelectedStreamConfig sid cmd video audio) [2, 4, 2] = Some (PutUint32LE (VSSRC video))"
  "tlvPath (EncodeSelectedStreamConfig sid cmd video audio) [3, 3, 2] = Some (PutUint32LE (ASSRC audio))"
  by (simp_all add: EncodeSelectedStreamConfig_def selected_messages)

text \<open>What the two messages written to the camera say, next to what the proxy is given.\<close>

definition streamAgreed :: "bytes \<Rightarrow> bytes \<Rightarrow> StreamResponse \<Rightarrow> StreamResponse \<Rightarrow> bool" where
  "streamAgreed setupMsg startMsg answer resp \<longleftrightarrow>
     tlvPath startMsg [1, 1] = tlvPath setupMsg [TLVSessionID] \<and> tlvPath startMsg [1, 2] = Some [SessionCommandStart]
   \<and> tlvPath startMsg [2, 4, 2] = Some (PutUint32LE (ControllerVideoSSRC resp))
   \<and> tlvPath startMsg [3, 3, 2] = Some (PutUint32LE (ControllerAudioSSRC resp))
   \<and> tlvPath setupMsg [TLVVideoParams, TLVSRTPMasterKey] = Some (ControllerVideoKey resp)
   \<and> tlvPath setupMsg [TLVVideoParams, TLVSRTPMasterSalt] = Some (ControllerVideoSalt resp)
   \<and> tlvPath setupMsg [TLVAudioParams, TLVSRTPMasterKey] = Some (ControllerAudioKey resp)
   \<and> tlvPath setupMsg [TLVAudioParams, TLVSRTPMasterSalt] = Some (ControllerAudioSalt resp)
   \<and> (if noKey (VideoSRTPKey answer)
      then VideoSRTPKey resp = Some (ControllerVideoKey resp) \<and> VideoSRTPSalt resp = Some (ControllerVideoSalt resp)
      else VideoSRTPKey resp = VideoSRTPKey answer \<and> VideoSRTPSalt resp = VideoSRTPSalt answer)
   \<and> (if noKey (AudioSRTPKey answer)
      then AudioSRTPKey resp = Some (ControllerAudioKey resp) \<and> AudioSRTPSalt resp = Some (ControllerAudioSalt resp)
      else AudioSRTPKey resp = AudioSRTPKey answer \<and> AudioSRTPSalt resp = AudioSRTPSalt answer)
   \<and> RemoteIP resp = RemoteIP answer \<and> RemoteVideoPort resp = RemoteVideoPort answer \<and> RemoteAudioPort resp = RemoteAudioPort answer"

lemma streamAgreed_withKeys:
  "streamAgreed (EncodeSetupEndpoints sh ep)
     (EncodeSelectedStreamConfig (EpSessionID ep) SessionCommandStart (video\<lparr>VSSRC := vssrc\<rparr>) (audio\<lparr>ASSRC := assrc\<rparr>))
     answer (withKeys ep vssrc assrc answer)"
  unfolding streamAgreed_def setup_fields start_fields by (simp add: withKeys_def Let_def)

text \<open>A start that succeeded, as the connection saw it.\<close>

definition startedOn :: "('v, 'r) hapEnv \<Rightarrow> string \<Rightarrow> StreamResponse \<Rightarrow> 'v Controller \<Rightarrow> bool" where
  "startedOn env deviceName resp c \<longleftrightarrow>
     (\<exists>ids setupMsg startMsg v0 v1 v2 v3 chs answer.
        writeChar env (aid ids) (setupEndpointsIID ids) setupMsg v0 = (Inr (), v1)
      \<and> readChar env (aid ids) (setupEndpointsIID ids) v1 = (Inr chs, v2) \<and> setupResponse env chs = Inr answer \<and> Status answer = 0
      \<and> writeChar env (aid ids) (selectedConfigIID ids) startMsg v2 = (Inr (), v3)
      \<and> verified c deviceName = Some v3 \<and> charIDs c deviceName = Some ids
      \<and> streamAgreed setupMsg startMsg answer resp)"

lemma setupResponse_status: "setupResponse env chs = Inr answer \<Longrightarrow> Status answer = 0"
  by (auto simp: setupResponse_def split: list.splits jvalue.splits)

lemma doStartStream_started:
  assumes "doStartStream env deviceName localIP vp ap video audio (c, r) = (Inr resp, c', r')"
  shows "startedOn env deviceName resp c'"
proof -
  from assms obtain v ids v3 where v: "verified c deviceName = Some v" "charIDs c deviceName = Some ids"
    and s: "startStreamOn env ids localIP vp ap video audio (v, r) = (Inr resp, v3, r')"
    and c': "c' = c\<lparr>verified := (verified c)(deviceName \<mapsto> v3)\<rparr>"
    by (auto simp: doStartStream_def onDevice_def split: option.splits prod.splits)
  from s obtain ep vssrc assrc v1 v2 chs answer where
    w: "writeChar env (aid ids) (setupEndpointsIID ids) (EncodeSetupEndpoints (formatIPv6 env) ep) v = (Inr (), v1)"
      "readChar env (aid ids) (setupEndpointsIID ids) v1 = (Inr chs, v2)" "setupResponse env chs = Inr answer"
      "writeChar env (aid ids) (selectedConfigIID ids)
         (EncodeSelectedStreamConfig (EpSessionID ep) SessionCommandStart (video\<lparr>VSSRC := vssrc\<rparr>) (audio\<lparr>ASSRC := assrc\<rparr>)) v2 = (Inr (), v3)"
    and resp: "resp = withKeys ep vssrc assrc answer"
    by (rule startStreamOn_success)
  have "verified c' deviceName = Some v3" "charIDs c' deviceName = Some ids" using v(2) by (simp_all add: c')
  then show ?thesis
    unfolding startedOn_def resp using w setupResponse_status [OF w(3)] streamAgreed_withKeys by blast
qed

lemma StartStream_started:
  assumes "StartStream env order deviceName localIP vp ap video audio (c, r) = (Inr resp, c', r')"
  shows "startedOn env deviceName resp c'"
  using assms
  by (auto simp: StartStream_def split: prod.splits sum.splits if_splits intro: doStartStream_started)

text \<open>
  C8. When a stream start succeeds, directly or after a reconnection, the camera and the proxy agree. Over the connection the
  controller wrote a setup message, read back an answer with status 0, and wrote a start message, such
  that: the start message names the session of the setup message and carries the SSRCs the proxy is given; the keys
  the proxy will encrypt with are those of the setup message; the keys it will decrypt with are
  the camera's, or those of the setup message where the camera sent none; and the address is the camera's.
\<close>

theorem start_stream_agreement:
  assumes "StartStream env order deviceName localIP vp ap video audio (c, r) = (Inr resp, c', r')"
  shows "startedOn env deviceName resp c'"
  using assms by (rule StartStream_started)

text \<open>A camera that accepts every request and sends no keys of its own.\<close>

definition plainJson :: jsonLib where
  "plainJson = emptyJson\<lparr>parseCharacteristics := \<lambda>_. Inr [charWrite 1 9 (JString [])]\<rparr>"

definition plainEnv :: "(nat, unit) hapEnv" where
  "plainEnv =
     \<lparr>json = plainJson, trans = \<lparr>exchange = \<lambda>v req. (Inr (200, []), v + 1), remoteAddr = \<lambda>_. ''10.0.0.2:5001''\<rparr>,
      rand = \<lambda>r n. (Inr (replicate n 7), r), formatIPv6 = \<lambda>_. [], readIPv6 = \<lambda>_. None, connIP = \<lambda>_. None,
      keypairFile = Inl ''no file'', parseKeypair = \<lambda>_. Inl ''no keys'', getDevice = \<lambda>_. None, pairVerify = \<lambda>_ _ _. Inl ''EOF''\<rparr>"

definition plainIDs :: cameraCharIDs where
  "plainIDs = noIDs\<lparr>aid := 1, setupEndpointsIID := 9, selectedConfigIID := 10\<rparr>"

definition plainController :: "nat Controller" where
  "plainController = NewController\<lparr>verified := [''cam'' \<mapsto> 0], charIDs := [''cam'' \<mapsto> plainIDs]\<rparr>"

lemmas plain_defs = plainEnv_def plainJson_def emptyJson_def plainIDs_def noIDs_def plainController_def NewController_def charWrite_def

lemma plainEnv_write: "writeChar plainEnv a i tlv v = (Inr (), v + 1)"
  by (simp add: writeChar_def PutCharacteristics_def doRequest_def putResult_def plain_defs)

lemma plainEnv_read: "readChar plainEnv a i v = (Inr [charWrite 1 9 (JString [])], v + 1)"
  by (simp add: readChar_def GetCharacteristics_def doRequest_def plain_defs)

lemma plainEnv_response: "setupResponse plainEnv [charWrite 1 9 (JString [])] = Inr emptyResponse"
  by (simp add: setupResponse_def charWrite_def DecodeString_def DecodeStreamResponse_def TLV8Decode_def decodeHead_def decodeAddress_def
      decodeVideoParams_def decodeAudioParams_def TLV8GetByte_def emptyResponse_def)

lemma plain_start:
  "\<exists>resp c'. StartStream plainEnv [] ''cam'' ip vp ap video audio (plainController, ()) = (Inr resp, c', ())
     \<and> ControllerVideoKey resp = replicate 16 7"
proof -
  have "\<exists>ep. GenerateStreamEndpoints (rand plainEnv) () ip vp ap = (Inr ep, ()) \<and> EpVideoSRTPKey ep = replicate 16 7"
    by (simp add: GenerateStreamEndpoints_def plainEnv_def)
  then obtain ep where g: "GenerateStreamEndpoints (rand plainEnv) () ip vp ap = (Inr ep, ())" "EpVideoSRTPKey ep = replicate 16 7" by blast
  obtain x where x: "randomUint32 plainEnv (v, ()) = (Inr x, v, ())" for v by (simp add: randomUint32_def plainEnv_def)
  have "startStreamOn plainEnv plainIDs ip vp ap video audio (0, ()) = (Inr (withKeys ep x x emptyResponse), 3, ())"
    by (simp add: startStreamOn_def bindS_def wrapS_def onRand_def onConn_def liftR_def g plainEnv_write plainEnv_read plainEnv_response x)
  then show ?thesis
    using g(2) by (auto simp: StartStream_def doStartStream_def onDevice_def plainController_def NewController_def withKeys_def Let_def)
qed

definition plainVideo :: VideoSelection where
  "plainVideo = \<lparr>Profile = 1, Level = 2, Width = 1920, Height = 1080, FPS = 30, VMaxBitrate = 2000, VSSRC = 0, VPayloadType = 99,
     VRTCPInterval = 0x3F000000\<rparr>"

definition plainAudio :: AudioSelection where
  "plainAudio = \<lparr>CodecType = 2, ASampleRate = 1, BitRateMode = 0, PacketTime = 30, AMaxBitrate = 24, ASSRC = 0, APayloadType = 110,
     ARTCPInterval = 0x40A00000\<rparr>"

theorem start_stream_agreement_witness:
  "\<exists>resp c'. startedOn plainEnv ''cam'' resp c' \<and> ControllerVideoKey resp = replicate 16 7"
proof -
  obtain resp c' where
    s: "StartStream plainEnv [] ''cam'' [192, 168, 1, 10] 5000 5001 plainVideo plainAudio (plainController, ()) = (Inr resp, c', ())"
    and k: "ControllerVideoKey resp = replicate 16 7" using plain_start by blast
  from start_stream_agreement [OF s] k show ?thesis by blast
qed

text \<open>
  The error of a request on a connection whose reader has gone does not count as a connection error, so a
  start that fails with it is not retried over a new connection. The same goes for a timeout.
\<close>

lemma closed_not_conn_error:
  "\<not> isConnError ''write SetupEndpoints: HAP connection closed''"
  "\<not> isConnError ''write SetupEndpoints: HAP request timeout after 30s''"
  "isConnError ''write SetupEndpoints: EOF''"
  by code_simp+

lemma closed_connection_not_retried:
  assumes "doStartStream env deviceName localIP vp ap video audio s = (Inl ''write SetupEndpoints: HAP connection closed'', c, r)"
  shows "StartStream env order deviceName localIP vp ap video audio s = (Inl ''write SetupEndpoints: HAP connection closed'', c, r)"
  using assms closed_not_conn_error by (simp add: StartStream_def)

section \<open>Finding the characteristics\<close>

definition iidFrom :: "string \<Rightarrow> Characteristic list \<Rightarrow> int \<Rightarrow> int" where
  "iidFrom t chs i = fold (\<lambda>ch j. if charTypeOf ch = t then IID ch else j) chs i"

definition services :: "Accessory list \<Rightarrow> (int \<times> Service) list" where
  "services accs = concat (map (\<lambda>acc. map (Pair (accAID acc)) (Services acc)) accs)"

definition motionFrom :: "(int \<times> Service) list \<Rightarrow> int \<times> int \<Rightarrow> int \<times> int" where
  "motionFrom svcs m = fold (\<lambda>(a, svc) m. if svcTypeOf svc = ''85''
     then fold (\<lambda>ch m. if charTypeOf ch = ''22'' then (a, IID ch) else m) (Characteristics svc) m else m) svcs m"

definition withMotion :: "int \<times> int \<Rightarrow> cameraCharIDs \<Rightarrow> cameraCharIDs" where
  "withMotion m ids = ids\<lparr>motionDetectedAID := fst m, motionDetectedIID := snd m\<rparr>"

lemma fold_streamChar:
  "fold streamChar chs ids = ids\<lparr>setupEndpointsIID := iidFrom ''118'' chs (setupEndpointsIID ids),
     selectedConfigIID := iidFrom ''117'' chs (selectedConfigIID ids), streamingStatusIID := iidFrom ''120'' chs (streamingStatusIID ids),
     supportedAudioCfgIID := iidFrom ''115'' chs (supportedAudioCfgIID ids)\<rparr>"
  by (induction chs arbitrary: ids) (simp_all add: iidFrom_def streamChar_def)

lemma fold_motionChar:
  "fold (motionChar a) chs ids =
     withMotion (fold (\<lambda>ch m. if charTypeOf ch = ''22'' then (a, IID ch) else m) chs (motionDetectedAID ids, motionDetectedIID ids)) ids"
  by (induction chs arbitrary: ids) (simp_all add: withMotion_def motionChar_def)

lemma fold_services: "fold (\<lambda>acc. fold (scanService (accAID acc)) (Services acc)) accs ids = fold (\<lambda>(a, svc). scanService a svc) (services accs) ids"
  by (induction accs arbitrary: ids) (simp_all add: services_def fold_map comp_def)

text \<open>Once the setup characteristic is known, and before any streaming service is seen, only the motion sensor is noted.\<close>

lemma fold_scan_motion:
  assumes "setupEndpointsIID ids \<noteq> 0 \<or> (\<forall>s\<in>set svcs. svcTypeOf (snd s) \<noteq> ''110'')"
  shows "fold (\<lambda>(a, svc). scanService a svc) svcs ids = withMotion (motionFrom svcs (motionDetectedAID ids, motionDetectedIID ids)) ids"
  using assms
proof (induction svcs arbitrary: ids)
  case Nil
  then show ?case by (simp add: motionFrom_def withMotion_def)
next
  case (Cons s svcs)
  obtain a svc where s: "s = (a, svc)" by fastforce
  have scan: "scanService a svc ids = withMotion (motionFrom [s] (motionDetectedAID ids, motionDetectedIID ids)) ids"
    using Cons.prems by (auto simp: s scanService_def fold_motionChar motionFrom_def withMotion_def)
  have "setupEndpointsIID (withMotion m ids) = setupEndpointsIID ids" for m by (simp add: withMotion_def)
  then have "fold (\<lambda>(a, svc). scanService a svc) svcs (scanService a svc ids)
      = withMotion (motionFrom svcs (motionFrom [s] (motionDetectedAID ids, motionDetectedIID ids))) ids"
    unfolding scan using Cons.IH Cons.prems by (simp add: withMotion_def)
  then show ?case by (simp add: s motionFrom_def)
qed


definition plainChar :: "string \<Rightarrow> int \<Rightarrow> Characteristic" where
  "plainChar t i = (charWrite 0 i JNull)\<lparr>charType := t\<rparr>"

definition plainDatabase :: "Accessory list" where
  "plainDatabase =
     [\<lparr>accAID = 1, Services = [\<lparr>svcIID = 1, svcType = ''3E'', Characteristics = []\<rparr>]\<rparr>,
      \<lparr>accAID = 2, Services =
         [\<lparr>svcIID = 8, svcType = ''00000110-0000-1000-8000-0026BB765291'', Characteristics = [plainChar ''118'' 9, plainChar ''117'' 10]\<rparr>,
          \<lparr>svcIID = 16, svcType = ''110'', Characteristics = [plainChar ''118'' 17, plainChar ''117'' 18]\<rparr>,
          \<lparr>svcIID = 20, svcType = ''85'', Characteristics = [plainChar ''22'' 21]\<rparr>]\<rparr>]"


section \<open>Motion reports\<close>

text \<open>The truth values the polls read, up to the poll that ends the loop with a connection error.\<close>

fun observed :: "Characteristic list result list \<Rightarrow> bool list" where
  "observed [] = []"
| "observed (Inl e # rs) = (if isConnError e then [] else observed rs)"
| "observed (Inr [] # rs) = observed rs"
| "observed (Inr (ch # _) # rs) = (case motionValue (charValue ch) of None \<Rightarrow> observed rs | Some b \<Rightarrow> b # observed rs)"

lemma motionPolls_changes:
  "motionPolls rs prev = (case prev of None \<Rightarrow> remdups_adj (observed rs) | Some b \<Rightarrow> tl (remdups_adj (b # observed rs)))"
proof (induction rs arbitrary: prev rule: observed.induct)
  case (4 ch chs rs)
  show ?case
  proof (cases "motionValue (charValue ch)")
    case None
    then show ?thesis using 4(1) by (cases prev) (simp_all add: motionPoll_def)
  next
    case (Some b)
    have "motionPolls rs (Some b) = tl (remdups_adj (b # observed rs))" using 4(2) [OF Some] by simp
    moreover have "remdups_adj (b # observed rs) = b # tl (remdups_adj (b # observed rs))" by (cases "observed rs") auto
    ultimately show ?thesis using Some by (auto simp: motionPoll_def split: option.splits)
  qed
qed (auto simp: motionPoll_def split: option.splits)

text \<open>
  The motion poll reports changes and only changes: the callbacks it makes are the values it reads, with every value
  that repeats the one before it left out, until a connection error ends it; other errors, empty answers
  and values of other types are skipped.
\<close>

lemma motion_poll_reports_changes: "motionPolls rs None = remdups_adj (observed rs)"
  by (simp add: motionPolls_changes)

section \<open>Connections and characteristics\<close>

definition idsKnown :: "'v Controller \<Rightarrow> bool" where
  "idsKnown c \<longleftrightarrow> (\<forall>n. (verified c n = None \<longleftrightarrow> charIDs c n = None)
     \<and> (\<forall>ids. charIDs c n = Some ids \<longrightarrow> setupEndpointsIID ids \<noteq> 0 \<and> selectedConfigIID ids \<noteq> 0))"

text \<open>The operations of the controller that other goroutines may call, in any environment and with any outcome.\<close>

inductive ctlStep :: "'v Controller \<Rightarrow> 'v Controller \<Rightarrow> bool" where
  pair: "PairCamera (env :: ('v, unit) hapEnv) lib order n code c = (r, c') \<Longrightarrow> ctlStep c c'"
| reconnect: "reconnect (env :: ('v, unit) hapEnv) order n c = (r, c') \<Longrightarrow> ctlStep c c'"
| start: "StartStream env order n ip vp ap video audio (c, rnd :: nat) = (r, c', rnd') \<Longrightarrow> ctlStep c c'"
| stop: "StopStream env n sid (c, rnd :: nat) = (r, c', rnd') \<Longrightarrow> ctlStep c c'"
| motion: "SubscribeMotionSensor (env :: ('v, unit) hapEnv) n c = (r, c') \<Longrightarrow> ctlStep c c'"
| discover: "discoveryStep order ev (lost, c) = ((lost', c'), rec) \<Longrightarrow> ctlStep c c'"
| callback: "ctlStep c (SetRecoveredCallback c)"

lemma discoverIDs_ok: "discoverIDs env v = (Inr ids, v') \<Longrightarrow> setupEndpointsIID ids \<noteq> 0 \<and> selectedConfigIID ids \<noteq> 0"
  by (auto simp: discoverIDs_def findCameraCharIDs_def Let_def split: if_splits)

lemma idsKnown_update [intro]:
  "idsKnown c \<Longrightarrow> setupEndpointsIID ids \<noteq> 0 \<and> selectedConfigIID ids \<noteq> 0 \<Longrightarrow>
   idsKnown (c\<lparr>verified := (verified c)(n \<mapsto> v), charIDs := (charIDs c)(n \<mapsto> ids)\<rparr>)"
  by (auto simp: idsKnown_def)

lemma idsKnown_conn [intro]:
  "idsKnown c \<Longrightarrow> verified c n \<noteq> None \<Longrightarrow> idsKnown (c\<lparr>verified := (verified c)(n \<mapsto> v)\<rparr>)"
  by (auto simp: idsKnown_def)

lemma idsKnown_devices [simp]:
  "idsKnown (c\<lparr>devices := d\<rparr>) = idsKnown c" "idsKnown (c\<lparr>motionCallbacks := m, motionCtx := b\<rparr>) = idsKnown c"
  "idsKnown (SetRecoveredCallback c) = idsKnown c"
  by (simp_all add: idsKnown_def SetRecoveredCallback_def)

lemma idsKnown_subscribe: "idsKnown c \<Longrightarrow> idsKnown (snd (doSubscribeMotion env n c))"
  by (auto simp: doSubscribeMotion_def split: option.splits prod.splits)

lemma idsKnown_reconnect:
  assumes "idsKnown c" "reconnect env order n c = (r, c')"
  shows "idsKnown c'"
proof -
  have "idsKnown (installConnection env n v ids c)" if "setupEndpointsIID ids \<noteq> 0 \<and> selectedConfigIID ids \<noteq> 0" for v ids
    using idsKnown_update [OF assms(1) that] by (auto simp: installConnection_def Let_def intro: idsKnown_subscribe)
  then show ?thesis
    using assms by (auto simp: reconnect_def dest: discoverIDs_ok split: sum.splits prod.splits)
qed

lemma idsKnown_onDevice:
  "idsKnown c \<Longrightarrow> onDevice n f (c, r) = (x, c', r') \<Longrightarrow> idsKnown c'"
  by (auto simp: onDevice_def split: option.splits prod.splits)

lemma idsKnown_doStartStream:
  "idsKnown c \<Longrightarrow> doStartStream env n ip vp ap video audio (c, r) = (x, c', r') \<Longrightarrow> idsKnown c'"
  by (auto simp: doStartStream_def intro: idsKnown_onDevice)

lemma idsKnown_StartStream:
  assumes "idsKnown c" "StartStream env order n ip vp ap video audio (c, r) = (x, c', r')"
  shows "idsKnown c'"
proof -
  obtain y c1 r1 where d: "doStartStream env n ip vp ap video audio (c, r) = (y, c1, r1)" by (metis prod.collapse)
  note c1 = idsKnown_doStartStream [OF assms(1) d]
  obtain z c2 where e: "reconnect env order n c1 = (z, c2)" by fastforce
  show ?thesis
    using assms(2) c1 d e idsKnown_reconnect [OF c1 e] idsKnown_doStartStream
    by (auto simp: StartStream_def split: sum.splits if_splits)
qed

lemma idsKnown_PairCamera:
  assumes "idsKnown c" "PairCamera env lib order n code c = (r, c')"
  shows "idsKnown c'"
proof -
  have "ensurePaired lib code kd c = (d, c1) \<Longrightarrow> idsKnown c1" for kd d c1
    using assms(1) by (auto simp: ensurePaired_def split: if_splits sum.splits option.splits)
  then show ?thesis
    using assms(2) assms(1) by (auto simp: PairCamera_def dest: discoverIDs_ok split: sum.splits prod.splits)
qed

interpretation ctl: transition_system "\<lambda>c. c = NewController" ctlStep idsKnown
proof unfold_locales
  fix c :: "'v Controller" assume "c = NewController"
  then show "idsKnown c" by (simp add: idsKnown_def NewController_def)
next
  fix c c' :: "'v Controller" assume i: "idsKnown c" and "ctlStep c c'"
  from this(2) show "idsKnown c'"
  proof (cases rule: ctlStep.cases)
    case (motion env n r)
    then show ?thesis using idsKnown_subscribe [of "c\<lparr>motionCallbacks := insert n (motionCallbacks c), motionCtx := True\<rparr>" env n] i
      by (simp add: SubscribeMotionSensor_def)
  next
    case discover
    then show ?thesis using i by (auto simp: discoveryStep_def Let_def split: discovery.splits if_splits list.splits)
  qed (use i in \<open>auto simp: StopStream_def intro: idsKnown_PairCamera idsKnown_reconnect idsKnown_StartStream idsKnown_onDevice\<close>)
qed

text \<open>
  C40. A connection is never without its characteristics. In every state the controller can reach by pairing, reconnecting,
  starting and stopping streams, subscribing and discovery, with any answers of the camera, exactly the cameras
  with a verified connection have characteristic ids, with the two ids that streaming needs set; so a
  start never fails because characteristics are missing.
\<close>

theorem connections_have_characteristics:
  assumes "reachable (\<lambda>c. c = NewController) ctlStep c"
  shows "(verified c n = None \<longleftrightarrow> charIDs c n = None)
    \<and> (\<forall>ids. charIDs c n = Some ids \<longrightarrow> setupEndpointsIID ids \<noteq> 0 \<and> selectedConfigIID ids \<noteq> 0)
    \<and> onDevice n f (c, rnd) = (case verified c n of None \<Rightarrow> (Inl (''device '' @ quoted n @ '' not verified''), c, rnd)
        | Some v \<Rightarrow> (case f (the (charIDs c n)) (v, rnd) of (x, v', r') \<Rightarrow> (x, c\<lparr>verified := (verified c)(n \<mapsto> v')\<rparr>, r')))"
proof -
  have k: "idsKnown c" using assms by (rule ctl.reachable_inv)
  then have n: "verified c n = None \<longleftrightarrow> charIDs c n = None" by (simp add: idsKnown_def)
  show ?thesis
  proof (cases "verified c n")
    case None
    then show ?thesis using n by (simp add: onDevice_def)
  next
    case (Some v)
    then obtain ids where ids: "charIDs c n = Some ids" using n by auto
    then show ?thesis using k Some by (auto simp: idsKnown_def onDevice_def)
  qed
qed

definition pairEnv :: "(nat, unit) hapEnv" where
  "pairEnv = plainEnv\<lparr>json := plainJson\<lparr>parseAccessories := \<lambda>_. Inr plainDatabase\<rparr>, keypairFile := Inr [], parseKeypair := \<lambda>_. Inr ([1], [2]),
     getDevice := \<lambda>n. Some \<lparr>devName = n, isPaired = True, accessoryKey = [3], dnssdIPs = [[192, 168, 1, 2]], dnssdPort = 5001\<rparr>,
     pairVerify := \<lambda>_ _ attempt. if attempt = 1 then Inl ''dial: timeout'' else Inr 7\<rparr>"

lemma pair_run:
  "\<exists>c'. PairCamera pairEnv \<lparr>allDevices = [], pairSetup = \<lambda>_ _. Inl ''no''\<rparr> [] ''cam'' ''123-45-678'' NewController = (Inr (), c')
     \<and> verified c' ''cam'' = Some 8"
proof -
  have ids: "findCameraCharIDs plainDatabase = Inr \<lparr>aid = 2, setupEndpointsIID = 9, selectedConfigIID = 10, streamingStatusIID = 0,
     supportedAudioCfgIID = 0, motionDetectedAID = 2, motionDetectedIID = 21\<rparr>" by code_simp
  let ?d = "\<lparr>devName = ''cam'', isPaired = True, accessoryKey = [3], dnssdIPs = [[192, 168, 1, 2]], dnssdPort = 5001\<rparr>"
  have l: "lookupDevice pairEnv \<lparr>allDevices = [], pairSetup = \<lambda>_ _. Inl ''no''\<rparr> [] ''cam'' NewController = Inr (None, ?d)"
    by (simp add: lookupDevice_def NewController_def pairEnv_def)
  have v: "verifyDevice pairEnv [] ''cam'' ?d NewController = Inr 7"
    by (simp add: verifyDevice_def readControllerKeys_def mdnsEndpoint_def mdnsCandidates_def verifyAttempts_def pairEnv_def plainEnv_def
        NewController_def To4_def)
  have d: "discoverIDs pairEnv 7 = (findCameraCharIDs plainDatabase, 8)"
    by (simp add: discoverIDs_def bindS_def wrapS_def liftR_def GetAccessories_def doRequest_def pairEnv_def plainEnv_def ids)
  show ?thesis
    by (simp add: PairCamera_def l ensurePaired_def v d ids readAudioConfig_def)
qed

theorem connections_have_characteristics_witness:
  "\<exists>c :: nat Controller. verified c ''cam'' = Some 8 \<and> (\<exists>ids. charIDs c ''cam'' = Some ids \<and> setupEndpointsIID ids \<noteq> 0)"
proof -
  obtain c' where c: "PairCamera pairEnv \<lparr>allDevices = [], pairSetup = \<lambda>_ _. Inl ''no''\<rparr> [] ''cam'' ''123-45-678'' NewController = (Inr (), c')"
    and v: "verified c' ''cam'' = Some 8" using pair_run by blast
  have "reachable (\<lambda>c. c = NewController) ctlStep c'"
    by (rule reachable_step [OF reachable_init]) (auto intro: ctlStep.pair [OF c])
  from connections_have_characteristics [OF this, of "''cam''" "\<lambda>_ s. (Inl [], s)" "()"] v
  have "charIDs c' ''cam'' \<noteq> None" "\<forall>ids. charIDs c' ''cam'' = Some ids \<longrightarrow> setupEndpointsIID ids \<noteq> 0" by (simp, blast)+
  then show ?thesis using v by blast
qed

section \<open>Recovery\<close>

fun discoveryRun :: "(string list \<times> discovery) list \<Rightarrow> string set \<times> 'v Controller \<Rightarrow> string list" where
  "discoveryRun [] s = []"
| "discoveryRun ((order, ev) # evs) s = (case discoveryStep order ev s of (s', started) \<Rightarrow> started @ discoveryRun evs s')"

fun lossOf :: "string \<Rightarrow> discovery \<Rightarrow> bool" where
  "lossOf n (LostDevice d) = (devName d = n)"
| "lossOf n (Discovered d) = False"

lemma discoveryStep_credit:
  assumes "discoveryStep order ev (lost, c) = ((lost', c'), started)"
  shows "count_list started n + (if n \<in> lost' then 1 else 0) \<le> (if n \<in> lost then 1 else 0) + (if lossOf n ev then 1 else 0)"
proof (cases ev)
  case (Discovered d)
  show ?thesis
  proof (cases "filter (\<lambda>m. m \<in> lost - {devName d} \<and> m \<noteq> devName d \<and> HasPrefix (devName d) m) order")
    case Nil
    then show ?thesis using assms Discovered by (auto simp: discoveryStep_def Let_def split: if_splits)
  next
    case (Cons m ms)
    then have "m \<in> lost" by (metis (no_types, lifting) DiffD1 filter_eq_ConsD)
    then show ?thesis using assms Discovered Cons by (auto simp: discoveryStep_def Let_def split: if_splits)
  qed
qed (use assms in \<open>auto simp: discoveryStep_def\<close>)

text \<open>
  Every recovery answers a loss. However devices come and go, also under renamed instances, the discovery loop starts
  at most one recovery of a camera for each time that camera was reported lost.
\<close>

lemma recoveries_answer_losses:
  "count_list (discoveryRun evs ({}, c)) n \<le> length (filter (\<lambda>e. lossOf n (snd e)) evs)"
proof -
  have "count_list (discoveryRun evs (lost, c)) n \<le> length (filter (\<lambda>e. lossOf n (snd e)) evs) + (if n \<in> lost then 1 else 0)" for lost
  proof (induction evs arbitrary: lost c)
    case (Cons e evs)
    obtain order ev where e: "e = (order, ev)" by fastforce
    obtain lost' c' started where s: "discoveryStep order ev (lost, c) = ((lost', c'), started)" by (metis prod.collapse)
    have "count_list (discoveryRun (e # evs) (lost, c)) n = count_list started n + count_list (discoveryRun evs (lost', c')) n"
      by (simp add: e s)
    also have "\<dots> \<le> count_list started n + (if n \<in> lost' then 1 else 0) + length (filter (\<lambda>e. lossOf n (snd e)) evs)"
      using Cons.IH [of lost' c'] by simp
    also have "\<dots> \<le> (if n \<in> lost then 1 else 0) + (if lossOf n ev then 1 else 0) + length (filter (\<lambda>e. lossOf n (snd e)) evs)"
      using discoveryStep_credit [OF s, of n] by simp
    finally show ?case by (simp add: e del: discoveryRun.simps split: if_splits)
  qed simp
  from this [of "{}"] show ?thesis by simp
qed

text \<open>
  A recovery gives up after at most five attempts, and the callback that restarts the stream is called exactly
  when an attempt succeeds (and a callback is set).
\<close>

lemma recoverAttempts_callback:
  "recoverAttempts world waits k n c = (c', called) \<Longrightarrow> called \<Longrightarrow>
     \<exists>j env order c1. j < length waits \<and> world (k + j) = Some (env, order) \<and> reconnect env order n c1 = (Inr (), c') \<and> recoveredCallback c'"
proof (induction waits arbitrary: k c)
  case (Cons w waits)
  show ?case
  proof (cases "world k")
    case None
    then show ?thesis using Cons.prems by simp
  next
    case (Some eo)
    obtain env order where eo: "eo = (env, order)" by fastforce
    obtain res c1 where r: "reconnect env order n c = (res, c1)" by fastforce
    show ?thesis
    proof (cases res)
      case (Inl err)
      then have "recoverAttempts world waits (k + 1) n c1 = (c', called)" using Cons.prems Some eo r by simp
      from Cons.IH [OF this Cons.prems(2)] obtain j env' order' c2 where
        "j < length waits" "world (k + 1 + j) = Some (env', order')" "reconnect env' order' n c2 = (Inr (), c') \<and> recoveredCallback c'"
        by blast
      then show ?thesis by (intro exI [of _ "Suc j"]) auto
    next
      case (Inr u)
      then show ?thesis using Cons.prems Some eo r by (intro exI [of _ 0]) auto
    qed
  qed
qed simp

end
