(* ===== verification/Health.thy ===== *)
theory Health
  imports Float64 "HOL-Library.Char_ord"
begin

text \<open>
  The health reporter of \<^verbatim>\<open>internal/health/health.go\<close>: the per-camera state machines behind the two Home
  Assistant sensors ("Stream problem" and "Frame drops"), their hysteresis, and what is published
  when. Times are nanoseconds; Go's zero \<^verbatim>\<open>time.Time\<close> is \<open>None\<close> (\<^verbatim>\<open>now.Sub\<close> of it saturates at the
  largest duration). Camera names are ASCII. The MQTT client is the list of messages published.
\<close>

section \<open>Configuration\<close>

record Config =
  Broker :: string
  Username :: string
  Password :: string
  ClientID :: string
  BaseTopic :: string
  DiscoveryPrefix :: string
  WedgeAfter :: int
  DeviceIdentifier :: string
  DeviceName :: string
  DropThreshold :: rat
  DropWindow :: int
  DropClearWindow :: int

abbreviation second :: int where "second \<equiv> 1000000000"

definition applyDefaults :: "Config \<Rightarrow> Config" where
  "applyDefaults c =
     c\<lparr>Broker := (if Broker c = [] then ''tcp://127.0.0.1:1883'' else Broker c),
       ClientID := (if ClientID c = [] then ''homekit-rtsp-proxy'' else ClientID c),
       BaseTopic := (if BaseTopic c = [] then ''homekit-rtsp-proxy'' else BaseTopic c),
       DiscoveryPrefix := (if DiscoveryPrefix c = [] then ''homeassistant'' else DiscoveryPrefix c),
       WedgeAfter := (if WedgeAfter c \<le> 0 then 90 * second else WedgeAfter c),
       DropThreshold := (if DropThreshold c \<le> 0 then roundFloat64 (5 / 100) else DropThreshold c),
       DropWindow := (if DropWindow c \<le> 0 then 20 * second else DropWindow c),
       DropClearWindow := (if DropClearWindow c \<le> 0 then 30 * second else DropClearWindow c)\<rparr>"

section \<open>State\<close>

type_synonym time = "int option"

record camState =
  slug :: string
  name :: string
  problem :: bool
  firstFail :: time
  lastFail :: time
  failCount :: int
  since :: int
  lastError :: string
  degraded :: bool
  dropHighStart :: time
  dropLowStart :: time
  dropSince :: int
  lastLoss :: rat
  lastDropped :: u64
  lastDropPub :: time

datatype event =
    StreamResult (eventCamera: string) bool string
  | Stats (eventCamera: string) u64 u64 u64 int

datatype json =
    JStr string
  | JInt int
  | JNum rat
  | JBool bool
  | JTime int
  | JList "json list"
  | JObj "(string \<times> json) list"

datatype message = Publish string json

record Reporter =
  cfg :: Config
  cams :: "string \<rightharpoonup> camState"

definition slugChar :: "char \<Rightarrow> char" where
  "slugChar ch =
     (let c = (if CHR ''A'' \<le> ch \<and> ch \<le> CHR ''Z'' then char_of (of_char ch + 32 :: nat) else ch) in
      if (CHR ''a'' \<le> c \<and> c \<le> CHR ''z'') \<or> (CHR ''0'' \<le> c \<and> c \<le> CHR ''9'') then c else CHR ''_'')"

definition slugify :: "string \<Rightarrow> string" where
  "slugify s = map slugChar s"

definition newCam :: "int \<Rightarrow> string \<Rightarrow> camState" where
  "newCam now n =
     \<lparr>slug = slugify n, name = n, problem = False, firstFail = None, lastFail = None, failCount = 0, since = now,
      lastError = [], degraded = False, dropHighStart = None, dropLowStart = None, dropSince = now, lastLoss = 0,
      lastDropped = 0, lastDropPub = None\<rparr>"

definition New :: "Config \<Rightarrow> string list \<Rightarrow> int \<Rightarrow> Reporter result" where
  "New c names now =
     (if names = [] then Inl ''no cameras to report''
      else Inr \<lparr>cfg = applyDefaults c, cams = fold (\<lambda>n m. m(n \<mapsto> newCam now n)) names Map.empty\<rparr>)"

section \<open>The stream-problem sensor\<close>

abbreviation staleGap :: int where "staleGap \<equiv> 180 * second"

definition promote :: "Config \<Rightarrow> int \<Rightarrow> camState \<Rightarrow> camState \<times> bool" where
  "promote cf now c =
     (if problem c then (c, False)
      else case firstFail c of
        None \<Rightarrow> (c, False)
      | Some t \<Rightarrow> if now - t \<ge> WedgeAfter cf then (c\<lparr>problem := True, since := now\<rparr>, True) else (c, False))"

definition applyEvent :: "Config \<Rightarrow> bool \<Rightarrow> string \<Rightarrow> int \<Rightarrow> camState \<Rightarrow> camState \<times> bool" where
  "applyEvent cf ok errText now c =
     (if ok
      then let c1 = c\<lparr>firstFail := None, lastFail := None, failCount := 0, lastError := []\<rparr> in
           if problem c1 then (c1\<lparr>problem := False, since := now\<rparr>, True) else (c1, False)
      else let fresh = (firstFail c = None \<or> (case lastFail c of None \<Rightarrow> True | Some t \<Rightarrow> now - t > staleGap));
               c1 = (if fresh then c\<lparr>firstFail := Some now, failCount := 0\<rparr> else c)
           in promote cf now (c1\<lparr>lastFail := Some now, failCount := failCount c1 + 1, lastError := errText\<rparr>))"

section \<open>The frame-drop sensor\<close>

definition startIfZero :: "int \<Rightarrow> time \<Rightarrow> time" where
  "startIfZero now t = (case t of None \<Rightarrow> Some now | Some s \<Rightarrow> Some s)"

definition sustained :: "int \<Rightarrow> int \<Rightarrow> time \<Rightarrow> bool" where
  "sustained w now t = (case t of None \<Rightarrow> False | Some s \<Rightarrow> now - s \<ge> w)"

definition applyStats :: "Config \<Rightarrow> rat \<Rightarrow> u64 \<Rightarrow> int \<Rightarrow> camState \<Rightarrow> camState \<times> bool" where
  "applyStats cf loss droppedFrames now c0 =
     (let c = c0\<lparr>lastLoss := loss, lastDropped := droppedFrames\<rparr>;
          onT = DropThreshold cf; clearT = roundFloat64 (onT / 2)
      in if loss \<ge> onT
         then let c1 = c\<lparr>dropHighStart := startIfZero now (dropHighStart c), dropLowStart := None\<rparr> in
              if \<not> degraded c1 \<and> sustained (DropWindow cf) now (dropHighStart c1)
              then (c1\<lparr>degraded := True, dropSince := now\<rparr>, True) else (c1, False)
         else if loss \<le> clearT
         then let c1 = c\<lparr>dropLowStart := startIfZero now (dropLowStart c), dropHighStart := None\<rparr> in
              if degraded c1 \<and> sustained (DropClearWindow cf) now (dropLowStart c1)
              then (c1\<lparr>degraded := False, dropSince := now\<rparr>, True) else (c1, False)
         else (c\<lparr>dropHighStart := None, dropLowStart := None\<rparr>, False))"

definition resetDrop :: "int \<Rightarrow> camState \<Rightarrow> camState \<times> bool" where
  "resetDrop now c0 =
     (let c = c0\<lparr>dropHighStart := None, dropLowStart := None, lastLoss := 0, lastDropped := 0\<rparr> in
      if degraded c then (c\<lparr>degraded := False, dropSince := now\<rparr>, True) else (c, False))"

definition lossFraction :: "u64 \<Rightarrow> u64 \<Rightarrow> rat" where
  "lossFraction packets drops =
     (let t = packets + drops in
      if t = 0 then 0
      else roundFloat64 (roundFloat64 (of_nat (unat drops)) / roundFloat64 (of_nat (unat t))))"

definition pct :: "rat \<Rightarrow> rat" where
  "pct f = roundFloat64 (of_int \<lfloor>roundFloat64 (f * 1000) + 1 / 2\<rfloor> / 10)"

section \<open>Publishing\<close>

definition statusTopic :: "Reporter \<Rightarrow> string" where
  "statusTopic r = BaseTopic (cfg r) @ ''/status''"

definition stateTopic :: "Reporter \<Rightarrow> camState \<Rightarrow> string" where
  "stateTopic r c = BaseTopic (cfg r) @ ''/'' @ slug c @ ''/stream/state''"

definition attrTopic :: "Reporter \<Rightarrow> camState \<Rightarrow> string" where
  "attrTopic r c = BaseTopic (cfg r) @ ''/'' @ slug c @ ''/stream/attributes''"

definition dropStateTopic :: "Reporter \<Rightarrow> camState \<Rightarrow> string" where
  "dropStateTopic r c = BaseTopic (cfg r) @ ''/'' @ slug c @ ''/frames/state''"

definition dropAttrTopic :: "Reporter \<Rightarrow> camState \<Rightarrow> string" where
  "dropAttrTopic r c = BaseTopic (cfg r) @ ''/'' @ slug c @ ''/frames/attributes''"

definition isSetupEndpointsWedge :: "string \<Rightarrow> bool" where
  "isSetupEndpointsWedge errText = (Contains errText ''SetupEndpoints'' \<and> Contains errText ''204'')"

definition deviceInfo :: "Reporter \<Rightarrow> camState \<Rightarrow> json" where
  "deviceInfo r c =
     (if DeviceIdentifier (cfg r) \<noteq> []
      then JObj [(''identifiers'', JList [JStr (DeviceIdentifier (cfg r))]),
                 (''name'', JStr (if DeviceName (cfg r) = [] then name c else DeviceName (cfg r)))]
      else JObj [(''identifiers'', JList [JStr (''homekit-rtsp-proxy-'' @ slug c)]), (''name'', JStr (name c)),
                 (''manufacturer'', JStr ''homekit-rtsp-proxy''), (''model'', JStr ''HomeKit RTSP Proxy'')])"

text \<open>The discovery document of a sensor; the two publishers differ in the arguments only.\<close>

definition discovery :: "Reporter \<Rightarrow> camState \<Rightarrow> string \<Rightarrow> string \<Rightarrow> string \<Rightarrow> string \<Rightarrow> message" where
  "discovery r c title object stateT attrT =
     (let node = ''homekit_rtsp_proxy_'' @ slug c in
      Publish (DiscoveryPrefix (cfg r) @ ''/binary_sensor/'' @ node @ ''/'' @ object @ ''/config'')
        (JObj [(''name'', JStr title), (''unique_id'', JStr (node @ ''_'' @ object)), (''device_class'', JStr ''problem''),
               (''state_topic'', JStr stateT), (''payload_on'', JStr ''problem''), (''payload_off'', JStr ''ok''),
               (''json_attributes_topic'', JStr attrT),
               (''availability'', JList [JObj [(''topic'', JStr (statusTopic r)), (''payload_available'', JStr ''online''),
                  (''payload_not_available'', JStr ''offline'')]]),
               (''device'', deviceInfo r c)]))"

definition publishDiscovery :: "Reporter \<Rightarrow> camState \<Rightarrow> message" where
  "publishDiscovery r c = discovery r c ''Stream problem'' ''stream_problem'' (stateTopic r c) (attrTopic r c)"

definition publishDropDiscovery :: "Reporter \<Rightarrow> camState \<Rightarrow> message" where
  "publishDropDiscovery r c = discovery r c ''Frame drops'' ''frame_drops'' (dropStateTopic r c) (dropAttrTopic r c)"

definition onOff :: "bool \<Rightarrow> json" where
  "onOff b = JStr (if b then ''problem'' else ''ok'')"

definition publishState :: "Reporter \<Rightarrow> camState \<Rightarrow> message" where
  "publishState r c = Publish (stateTopic r c) (onOff (problem c))"

definition publishDropState :: "Reporter \<Rightarrow> camState \<Rightarrow> message" where
  "publishDropState r c = Publish (dropStateTopic r c) (onOff (degraded c))"

definition publishAttributes :: "Reporter \<Rightarrow> camState \<Rightarrow> message" where
  "publishAttributes r c =
     Publish (attrTopic r c)
       (JObj ([(''consecutive_failures'', JInt (failCount c)), (''since'', JTime (since c)),
               (''wedge_suspected'', JBool (isSetupEndpointsWedge (lastError c)))]
              @ (if lastError c \<noteq> [] then [(''last_error'', JStr (lastError c))] else [])))"

definition publishDropAttributes :: "Reporter \<Rightarrow> camState \<Rightarrow> message" where
  "publishDropAttributes r c =
     Publish (dropAttrTopic r c)
       (JObj [(''loss_pct'', JNum (pct (lastLoss c))), (''dropped_frames_last'', JInt (uint (lastDropped c))),
              (''since'', JTime (dropSince c))])"

section \<open>The event loop\<close>

definition setCam :: "string \<Rightarrow> camState \<Rightarrow> Reporter \<Rightarrow> Reporter" where
  "setCam n c r = r\<lparr>cams := (cams r)(n \<mapsto> c)\<rparr>"

definition handleStats :: "Reporter \<Rightarrow> u64 \<Rightarrow> u64 \<Rightarrow> u64 \<Rightarrow> int \<Rightarrow> camState \<Rightarrow> camState \<times> message list" where
  "handleStats r packets drops droppedFrames now c0 =
     (let (c, changed) = applyStats (cfg r) (lossFraction packets drops) droppedFrames now c0;
          m1 = (if changed then [publishDropState r c] else [])
      in if changed \<or> (case lastDropPub c of None \<Rightarrow> True | Some t \<Rightarrow> now - t \<ge> 15 * second)
         then (c\<lparr>lastDropPub := Some now\<rparr>, m1 @ [publishDropAttributes r c])
         else (c, m1))"

definition handleResult :: "Reporter \<Rightarrow> bool \<Rightarrow> string \<Rightarrow> int \<Rightarrow> camState \<Rightarrow> camState \<times> message list" where
  "handleResult r ok errText now c0 =
     (let (c, changed) = applyEvent (cfg r) ok errText now c0;
          m1 = (if changed then [publishState r c] else []) @ [publishAttributes r c]
      in if ok then (let (c', dropChanged) = resetDrop now c in (c', m1 @ (if dropChanged then [publishDropState r c'] else [])))
         else (c, m1))"

definition handleEvent :: "event \<Rightarrow> int \<Rightarrow> Reporter \<Rightarrow> Reporter \<times> message list" where
  "handleEvent e now r =
     (case cams r (eventCamera e) of
        None \<Rightarrow> (r, [])
      | Some c \<Rightarrow>
          let (c', ms) = (case e of Stats _ p d f _ \<Rightarrow> handleStats r p d f now c
                                  | StreamResult _ ok err \<Rightarrow> handleResult r ok err now c)
          in (setCam (eventCamera e) c' r, ms))"

definition tickCam :: "int \<Rightarrow> string \<Rightarrow> Reporter \<times> message list \<Rightarrow> Reporter \<times> message list" where
  "tickCam now n rm =
     (let (r, ms) = rm in
      case cams r n of
        None \<Rightarrow> (r, ms)
      | Some c \<Rightarrow>
          (if firstFail c = None then (r, ms)
           else let (c', changed) = promote (cfg r) now c in
                (setCam n c' r, if changed then ms @ [publishState r c'] else ms)))"

text \<open>\<open>order\<close> is the order in which Go's map iteration visits the cameras.\<close>

definition handleTick :: "string list \<Rightarrow> int \<Rightarrow> Reporter \<Rightarrow> Reporter \<times> message list" where
  "handleTick order now r = fold (tickCam now) order (r, [])"

definition camMessages :: "Reporter \<Rightarrow> camState \<Rightarrow> message list" where
  "camMessages r c = [publishDiscovery r c, publishState r c, publishAttributes r c, publishDropDiscovery r c,
     publishDropState r c, publishDropAttributes r c]"

definition onConnect :: "string list \<Rightarrow> Reporter \<Rightarrow> message list" where
  "onConnect order r =
     Publish (statusTopic r) (JStr ''online'')
     # concat (map (\<lambda>n. case cams r n of None \<Rightarrow> [] | Some c \<Rightarrow> camMessages r c) order)"

text \<open>The bounded queue in front of the loop (64 events); a full queue drops the event.\<close>

definition enqueue :: "event \<Rightarrow> event list \<Rightarrow> event list" where
  "enqueue e q = (if length q < 64 then q @ [e] else q)"

text \<open>The reporting calls of the streaming path; a nil reporter ignores them.\<close>

definition ReportStreamStarted :: "string \<Rightarrow> event list option \<Rightarrow> event list option" where
  "ReportStreamStarted camera q = map_option (enqueue (StreamResult camera True [])) q"

definition ReportStreamFailed :: "string \<Rightarrow> string \<Rightarrow> event list option \<Rightarrow> event list option" where
  "ReportStreamFailed camera errText q = map_option (enqueue (StreamResult camera False errText)) q"

definition ReportVideoStats :: "string \<Rightarrow> u64 \<Rightarrow> u64 \<Rightarrow> u64 \<Rightarrow> int \<Rightarrow> event list option \<Rightarrow> event list option" where
  "ReportVideoStats camera packets drops droppedFrames interval q =
     map_option (enqueue (Stats camera packets drops droppedFrames interval)) q"

text \<open>What \<^verbatim>\<open>Close\<close> publishes before it disconnects.\<close>

definition closeMessages :: "bool \<Rightarrow> Reporter \<Rightarrow> message list" where
  "closeMessages isOpen r = (if isOpen then [Publish (statusTopic r) (JStr ''offline'')] else [])"

end
