(* ===== verification/App_Config.thy ===== *)
theory App_Config
  imports Health
begin

text \<open>
  The configuration file of \<^verbatim>\<open>internal/config/config.go\<close>: the structs, the defaults, the normal form of the pairing
  code, \<^verbatim>\<open>Load\<close>, and the translation to the health reporter's configuration in \<^verbatim>\<open>main.go\<close>. The YAML library is the
  function that fills a struct from the file's bytes; a pointer field is an option.
\<close>

record MQTTConfig =
  mqttEnabled :: bool
  mqttBroker :: string
  mqttUsername :: string
  mqttPassword :: string
  mqttClientID :: string
  mqttBaseTopic :: string
  mqttDiscoveryPrefix :: string
  mqttWedgeAfter :: int
  mqttDeviceIdentifier :: string
  mqttDeviceName :: string
  mqttDropThreshold :: rat
  mqttDropWindow :: int
  mqttDropClearWindow :: int

record RTSPConfig =
  rtspPort :: int
  rtspPath :: string
  rtspIdleTimeout :: int

record VideoConfig =
  videoWidth :: int
  videoHeight :: int
  videoFPS :: int
  videoMaxBitrate :: int

record AudioConfig =
  audioEnabled :: bool
  audioCodec :: string
  audioSampleRate :: int
  audioGain :: "int option"

record ONVIFConfig =
  onvifEnabled :: bool
  onvifPort :: int

record CameraConfig =
  camName :: string
  SetupCode :: string
  DeviceID :: string
  RTSP :: RTSPConfig
  Video :: VideoConfig
  Audio :: AudioConfig
  ONVIF :: ONVIFConfig

record Config =
  LogLevel :: string
  PairingStore :: string
  BindAddress :: string
  ListenAddress :: string
  Cameras :: "CameraConfig list"
  MQTT :: MQTTConfig

section \<open>Defaults\<close>

definition applyMQTTDefaults :: "MQTTConfig \<Rightarrow> MQTTConfig" where
  "applyMQTTDefaults m =
     (if \<not> mqttEnabled m then m
      else m\<lparr>mqttBroker := (if mqttBroker m = [] then ''tcp://127.0.0.1:1883'' else mqttBroker m),
             mqttClientID := (if mqttClientID m = [] then ''homekit-rtsp-proxy'' else mqttClientID m),
             mqttBaseTopic := (if mqttBaseTopic m = [] then ''homekit-rtsp-proxy'' else mqttBaseTopic m),
             mqttDiscoveryPrefix := (if mqttDiscoveryPrefix m = [] then ''homeassistant'' else mqttDiscoveryPrefix m),
             mqttWedgeAfter := (if mqttWedgeAfter m \<le> 0 then 90 * second else mqttWedgeAfter m),
             mqttDropThreshold := (if mqttDropThreshold m \<le> 0 then roundFloat64 (5 / 100) else mqttDropThreshold m),
             mqttDropWindow := (if mqttDropWindow m \<le> 0 then 20 * second else mqttDropWindow m),
             mqttDropClearWindow := (if mqttDropClearWindow m \<le> 0 then 30 * second else mqttDropClearWindow m)\<rparr>)"

definition normalizeSetupCode :: "string \<Rightarrow> string" where
  "normalizeSetupCode code0 =
     (let code = filter (\<lambda>c. c \<noteq> CHR '' '') (filter (\<lambda>c. c \<noteq> CHR ''-'') code0) in
      if length code = 8 then take 3 code @ ''-'' @ take 2 (drop 3 code) @ ''-'' @ drop 5 code else code)"

definition orElse :: "'a \<Rightarrow> 'a \<Rightarrow> 'a \<Rightarrow> 'a" where
  "orElse zero v d = (if v = zero then d else v)"

definition applyDefaults :: "CameraConfig \<Rightarrow> CameraConfig" where
  "applyDefaults c =
     c\<lparr>SetupCode := normalizeSetupCode (SetupCode c),
       RTSP := (RTSP c)\<lparr>rtspPort := orElse 0 (rtspPort (RTSP c)) 8554, rtspPath := orElse [] (rtspPath (RTSP c)) ''/live''\<rparr>,
       Video := (Video c)\<lparr>videoWidth := orElse 0 (videoWidth (Video c)) 1920, videoHeight := orElse 0 (videoHeight (Video c)) 1080,
                          videoFPS := orElse 0 (videoFPS (Video c)) 30, videoMaxBitrate := orElse 0 (videoMaxBitrate (Video c)) 2000\<rparr>,
       Audio := (Audio c)\<lparr>audioCodec := orElse [] (audioCodec (Audio c)) ''aac-eld'',
                          audioSampleRate := orElse 0 (audioSampleRate (Audio c)) 16000,
                          audioGain := orElse None (audioGain (Audio c)) (Some 512)\<rparr>,
       ONVIF := (ONVIF c)\<lparr>onvifPort := orElse 0 (onvifPort (ONVIF c)) 8580\<rparr>\<rparr>"

definition emptyMQTT :: MQTTConfig where
  "emptyMQTT =
     \<lparr>mqttEnabled = False, mqttBroker = [], mqttUsername = [], mqttPassword = [], mqttClientID = [], mqttBaseTopic = [],
      mqttDiscoveryPrefix = [], mqttWedgeAfter = 0, mqttDeviceIdentifier = [], mqttDeviceName = [], mqttDropThreshold = 0,
      mqttDropWindow = 0, mqttDropClearWindow = 0\<rparr>"

definition Load :: "(bytes \<Rightarrow> Config \<Rightarrow> Config result) \<Rightarrow> bytes result \<Rightarrow> Config result" where
  "Load unmarshal file =
     bindR (wrapR ''read config: '' file) (\<lambda>data.
     bindR (wrapR ''parse config: ''
         (unmarshal data \<lparr>LogLevel = ''info'', PairingStore = ''./pairings.json'', BindAddress = [], ListenAddress = [],
                          Cameras = [], MQTT = emptyMQTT\<rparr>)) (\<lambda>c0.
     let c = c0\<lparr>Cameras := map applyDefaults (Cameras c0)\<rparr> in
     bindR (failIf (Cameras c = []) ''no cameras configured'') (\<lambda>_.
     Inr (c\<lparr>MQTT := applyMQTTDefaults (MQTT c)\<rparr>))))"

text \<open>The configuration \<^verbatim>\<open>main\<close> hands to the health reporter.\<close>

definition healthConfig :: "MQTTConfig \<Rightarrow> Health.Config" where
  "healthConfig m =
     \<lparr>Broker = mqttBroker m, Username = mqttUsername m, Password = mqttPassword m, ClientID = mqttClientID m, BaseTopic = mqttBaseTopic m, DiscoveryPrefix = mqttDiscoveryPrefix m,
      WedgeAfter = mqttWedgeAfter m, DeviceIdentifier = mqttDeviceIdentifier m, DeviceName = mqttDeviceName m,
      DropThreshold = mqttDropThreshold m, DropWindow = mqttDropWindow m, DropClearWindow = mqttDropClearWindow m\<rparr>"

section \<open>The pairing code\<close>

definition codeDigits :: "string \<Rightarrow> string" where
  "codeDigits code = filter (\<lambda>c. c \<noteq> CHR ''-'' \<and> c \<noteq> CHR '' '') code"

lemma normalizeSetupCode_alt:
  "normalizeSetupCode code =
     (let d = codeDigits code in
      if length d = 8 then take 3 d @ ''-'' @ take 2 (drop 3 d) @ ''-'' @ drop 5 d else d)"
  by (simp add: normalizeSetupCode_def codeDigits_def Let_def conj_commute)

lemma codeDigits_append [simp]: "codeDigits (xs @ ys) = codeDigits xs @ codeDigits ys"
  by (simp add: codeDigits_def)

lemma codeDigits_clean: "\<forall>c\<in>set d. c \<noteq> CHR ''-'' \<and> c \<noteq> CHR '' '' \<Longrightarrow> codeDigits d = d"
  by (induction d) (simp_all add: codeDigits_def)

lemma codeDigits_idem [simp]: "codeDigits (codeDigits code) = codeDigits code"
  by (simp add: codeDigits_def)

lemma codeDigits_dash [simp]: "codeDigits (CHR ''-'' # xs) = codeDigits xs"
  by (simp add: codeDigits_def)

lemma codeDigits_normalize [simp]: "codeDigits (normalizeSetupCode code) = codeDigits code"
proof -
  define d where "d = codeDigits code"
  have clean: "codeDigits xs = xs" if "set xs \<subseteq> set d" for xs
    using that by (intro codeDigits_clean) (auto simp: d_def codeDigits_def)
  have parts: "codeDigits (take 3 d) = take 3 d" "codeDigits (take 2 (drop 3 d)) = take 2 (drop 3 d)" "codeDigits (drop 5 d) = drop 5 d"
    by (intro clean; meson order_trans set_take_subset set_drop_subset)+
  have "take 3 d @ take 2 (drop 3 d) @ drop 5 d = d"
    by (metis append_take_drop_id drop_drop numeral_Bit1 numeral_One add_numeral_left arith_special(3) append.assoc semiring_norm(5) semiring_norm(2) add.commute)
  then show ?thesis unfolding normalizeSetupCode_alt by (simp add: Let_def d_def [symmetric] parts clean)
qed

text \<open>Two spellings of a code have the same normal form exactly when they have the same digits.\<close>

lemma setup_code_canonical:
  "normalizeSetupCode a = normalizeSetupCode b \<longleftrightarrow> codeDigits a = codeDigits b"
proof
  assume "normalizeSetupCode a = normalizeSetupCode b"
  then show "codeDigits a = codeDigits b" by (metis codeDigits_normalize)
qed (simp add: normalizeSetupCode_alt)

lemma normalizeSetupCode_idem [simp]: "normalizeSetupCode (normalizeSetupCode code) = normalizeSetupCode code"
  by (simp add: setup_code_canonical)

section \<open>A loaded configuration\<close>

lemma orElse_idem [simp]: "orElse z (orElse z v d) d = orElse z v d"
  by (simp add: orElse_def)

lemma orElse_set [simp]: "d \<noteq> z \<Longrightarrow> orElse z v d \<noteq> z"
  by (simp add: orElse_def)

lemma applyDefaults_idem: "App_Config.applyDefaults (App_Config.applyDefaults c) = App_Config.applyDefaults c"
  by (simp add: App_Config.applyDefaults_def)

lemma default_threshold_pos: "0 < roundFloat64 (5 / 100)"
  by code_simp

lemma applyMQTTDefaults_idem: "applyMQTTDefaults (applyMQTTDefaults m) = applyMQTTDefaults m"
  using default_threshold_pos by (simp add: applyMQTTDefaults_def)

lemma mqttEnabled_defaults [simp]: "mqttEnabled (applyMQTTDefaults m) = mqttEnabled m"
  by (simp add: applyMQTTDefaults_def)

definition cameraComplete :: "CameraConfig \<Rightarrow> bool" where
  "cameraComplete cam \<longleftrightarrow> rtspPort (RTSP cam) \<noteq> 0 \<and> rtspPath (RTSP cam) \<noteq> [] \<and> videoWidth (Video cam) \<noteq> 0
     \<and> videoHeight (Video cam) \<noteq> 0 \<and> videoFPS (Video cam) \<noteq> 0 \<and> videoMaxBitrate (Video cam) \<noteq> 0 \<and> audioCodec (Audio cam) \<noteq> []
     \<and> audioSampleRate (Audio cam) \<noteq> 0 \<and> audioGain (Audio cam) \<noteq> None \<and> onvifPort (ONVIF cam) \<noteq> 0
     \<and> normalizeSetupCode (SetupCode cam) = SetupCode cam"

lemma applyDefaults_complete: "cameraComplete (App_Config.applyDefaults c)"
  unfolding cameraComplete_def App_Config.applyDefaults_def by (simp add: orElse_def)

lemma LoadE:
  assumes "Load unmarshal file = Inr c"
  obtains c0 where "c = c0\<lparr>Cameras := map App_Config.applyDefaults (Cameras c0), MQTT := applyMQTTDefaults (MQTT c0)\<rparr>"
    "Cameras c0 \<noteq> []"
  using assms by (auto simp: Load_def Let_def)

lemma health_defaults_unchanged:
  "mqttEnabled m \<Longrightarrow> Health.applyDefaults (healthConfig (applyMQTTDefaults m)) = healthConfig (applyMQTTDefaults m)"
  using default_threshold_pos by (simp add: Health.applyDefaults_def healthConfig_def applyMQTTDefaults_def)

text \<open>
  C17. A configuration that loads is complete: it has at least one camera; every camera has its ports, path, picture size, frame rate,
  bit rate, audio codec and rate and a gain (so dereferencing the gain pointer cannot panic), and its setup code is in
  normal form; loading is stable, as applying the defaults once more changes nothing; and with MQTT
  enabled the health reporter's own defaults change nothing either, so the two sets of defaults agree.
\<close>

theorem loaded_config_complete:
  assumes "Load unmarshal file = Inr c"
  shows "Cameras c \<noteq> [] \<and> (\<forall>cam\<in>set (Cameras c). cameraComplete cam \<and> App_Config.applyDefaults cam = cam)
    \<and> applyMQTTDefaults (MQTT c) = MQTT c
    \<and> (mqttEnabled (MQTT c) \<longrightarrow> Health.applyDefaults (healthConfig (MQTT c)) = healthConfig (MQTT c))"
proof -
  from assms obtain c0 where
    c: "c = c0\<lparr>Cameras := map App_Config.applyDefaults (Cameras c0), MQTT := applyMQTTDefaults (MQTT c0)\<rparr>" "Cameras c0 \<noteq> []"
    by (rule LoadE)
  show ?thesis
    using c(2) health_defaults_unchanged
    by (simp add: c(1) applyMQTTDefaults_idem applyDefaults_idem applyDefaults_complete)
qed

definition plainCamera :: CameraConfig where
  "plainCamera =
     \<lparr>camName = ''cam'', SetupCode = ''123 45-678'', DeviceID = [], RTSP = \<lparr>rtspPort = 0, rtspPath = [], rtspIdleTimeout = 0\<rparr>,
      Video = \<lparr>videoWidth = 1280, videoHeight = 0, videoFPS = 0, videoMaxBitrate = 0\<rparr>,
      Audio = \<lparr>audioEnabled = True, audioCodec = [], audioSampleRate = 0, audioGain = None\<rparr>,
      ONVIF = \<lparr>onvifEnabled = False, onvifPort = 0\<rparr>\<rparr>"

definition plainLoad :: "Config result" where
  "plainLoad = Load (\<lambda>data c. Inr (c\<lparr>Cameras := [plainCamera], MQTT := emptyMQTT\<lparr>mqttEnabled := True\<rparr>\<rparr>)) (Inr [])"

lemma plainLoad_eq:
  "plainLoad = Inr \<lparr>LogLevel = ''info'', PairingStore = ''./pairings.json'', BindAddress = [], ListenAddress = [],
     Cameras = [App_Config.applyDefaults plainCamera], MQTT = applyMQTTDefaults (emptyMQTT\<lparr>mqttEnabled := True\<rparr>)\<rparr>"
  by (simp add: plainLoad_def Load_def Let_def)

theorem loaded_config_complete_witness:
  "case plainLoad of Inl _ \<Rightarrow> False
   | Inr c \<Rightarrow> map SetupCode (Cameras c) = [''123-45-678''] \<and> list_all cameraComplete (Cameras c)
       \<and> Health.applyDefaults (healthConfig (MQTT c)) = healthConfig (MQTT c)"
proof -
  have code: "SetupCode (App_Config.applyDefaults plainCamera) = ''123-45-678''"
    by (simp add: App_Config.applyDefaults_def plainCamera_def normalizeSetupCode_def)
  show ?thesis
    using loaded_config_complete [OF plainLoad_eq [unfolded plainLoad_def]] code by (simp add: plainLoad_eq)
qed

end
