(* ===== verification/Camera_Service.thy ===== *)
theory Camera_Service
  imports Session Proxy_Run Rtsp_Props Controller_Props App_Config
begin

text \<open>
  The wiring of one camera in \<^verbatim>\<open>cmd/homekit-rtsp-proxy/main.go\<close>: how its services are made, the start and stop callbacks of
  its session, which compose the RTSP server, the HAP controller, the SRTP proxy and the health reporter, the shutdown of a
  camera, the callback after a recovery and the pairing loop at startup. What a call takes from outside (clock, sockets,
  routing, the camera's behaviour) is the record \<open>startEnv\<close>. The session is kept apart from the other services: its
  callbacks run while its lock is released.
\<close>

record ('v, 'c, 't, 'r) service =
  server :: "'t RTSPServer"
  srtp :: "'c SRTPProxy"
  controller :: "'v Controller"
  random :: 'r
  reports :: "event list option"

record ('v, 'c, 'r) startEnv =
  hapLib :: "('v, 'r) hapEnv"
  pionLib :: "'c pion"
  mapOrder :: "string list"
  clock :: int
  wideFloat :: "rat \<Rightarrow> u32"
  listenVideo :: "int result"
  listenAudio :: "int result"
  dialUDP :: "ip \<Rightarrow> ip result"

section \<open>Construction\<close>

definition serverConfig :: "CameraConfig \<Rightarrow> RTSPServerConfig" where
  "serverConfig cam =
     \<lparr>HasAudio = audioEnabled (Audio cam), AudioCodec = audioCodec (Audio cam), SampleRate = audioSampleRate (Audio cam),
      AudioGain = (case audioGain (Audio cam) of None \<Rightarrow> 0 | Some g \<Rightarrow> g)\<rparr>"

text \<open>The statistics callback is only wired when there is a health reporter.\<close>

definition newProxy :: "bool \<Rightarrow> 'c SRTPProxy" where
  "newProxy reporting =
     (let p = SetVideoStallCallback (30 * second) (SetIDRCallback (SetCallbacks NewSRTPProxy)) in
      if reporting then SetVideoStatsCallback p else p)"

definition advertiseAddr :: "Config \<Rightarrow> string" where
  "advertiseAddr conf =
     (if ListenAddress conf \<noteq> [] then ListenAddress conf else if BindAddress conf \<noteq> [] then BindAddress conf else ''0.0.0.0'')"

definition rtspURL :: "Config \<Rightarrow> CameraConfig \<Rightarrow> string" where
  "rtspURL conf cam = ''rtsp://'' @ advertiseAddr conf @ '':'' @ showInt (rtspPort (RTSP cam)) @ rtspPath (RTSP cam)"

text \<open>A failing \<^verbatim>\<open>Start\<close> of the RTSP server ends the program.\<close>

definition newService ::
  "bool \<Rightarrow> (int \<Rightarrow> string \<Rightarrow> int \<Rightarrow> 't result) \<Rightarrow> unit result \<Rightarrow> unit result \<Rightarrow> CameraConfig \<Rightarrow> 'v Controller \<Rightarrow> 'r \<Rightarrow> event list option
    \<Rightarrow> ('v, 'c, 't, 'r) service result" where
  "newService snap newTranscoder listenRes initRes cam c r q =
     (case StartServer listenRes initRes (NewRTSPServer snap newTranscoder (serverConfig cam)) of
        (_, Inl e) \<Rightarrow> Inl e
      | (srv, Inr _) \<Rightarrow> Inr \<lparr>server = srv, srtp = newProxy (q \<noteq> None), controller = c, random = r, reports = q\<rparr>)"

section \<open>The start callback\<close>

definition resolveLocalIP :: "('v, 'c, 'r) startEnv \<Rightarrow> 'v Controller \<Rightarrow> string \<Rightarrow> string \<Rightarrow> ip result" where
  "resolveLocalIP env c deviceName override =
     (if override \<noteq> []
      then (case ParseIP (readIPv6 (hapLib env)) override of
              None \<Rightarrow> Inl (''bind_address '' @ quoted override @ '' is not a valid IP'')
            | Some a \<Rightarrow> Inr a)
      else bindR (GetCameraIP (hapLib env) (mapOrder env) deviceName c) (\<lambda>cameraIP.
           wrapR (''no route to camera '' @ IP_String (formatIPv6 (hapLib env)) cameraIP @ '': '') (dialUDP env cameraIP)))"

text \<open>The stream parameters requested from the camera; intervals are the bits of 0.5 and 5.0.\<close>

definition videoSelection :: "VideoConfig \<Rightarrow> VideoSelection" where
  "videoSelection v =
     \<lparr>Profile = H264ProfileMain, Level = H264Level4_0, Width = of_int (videoWidth v), Height = of_int (videoHeight v), FPS = videoFPS v,
      VMaxBitrate = videoMaxBitrate v, VSSRC = 0, VPayloadType = 99, VRTCPInterval = 0x3F000000\<rparr>"

definition audioSelection :: "AudioConfig \<Rightarrow> AudioSelection" where
  "audioSelection a =
     \<lparr>CodecType = (if audioCodec a = ''opus'' then AudioCodecOpus else AudioCodecAACELD),
      ASampleRate = (if audioCodec a = ''opus'' then AudioSampleRate24kHz else AudioSampleRate16kHz),
      BitRateMode = 0, PacketTime = 30, AMaxBitrate = 24, ASSRC = 0, APayloadType = 110, ARTCPInterval = 0x40A00000\<rparr>"

definition orNil :: "bytes option \<Rightarrow> bytes" where
  "orNil k = (case k of None \<Rightarrow> [] | Some b \<Rightarrow> b)"

definition srtpConfig :: "StreamResponse \<Rightarrow> SRTPConfig" where
  "srtpConfig resp =
     \<lparr>VideoKey = orNil (VideoSRTPKey resp), VideoSalt = orNil (VideoSRTPSalt resp), AudioKey = orNil (AudioSRTPKey resp),
      AudioSalt = orNil (AudioSRTPSalt resp), CfgVideoSSRC = VideoSSRC resp, CfgAudioSSRC = AudioSSRC resp,
      CameraAddr = Some (orNil (RemoteIP resp), uint (RemoteVideoPort resp)),
      CameraAudioAddr = Some (orNil (RemoteIP resp), uint (RemoteAudioPort resp)),
      CtlVideoKey = ControllerVideoKey resp, CtlVideoSalt = ControllerVideoSalt resp, CtlVideoSSRC = ControllerVideoSSRC resp,
      CtlAudioKey = ControllerAudioKey resp, CtlAudioSalt = ControllerAudioSalt resp, CtlAudioSSRC = ControllerAudioSSRC resp\<rparr>"

text \<open>From the opened ports on: the HAP exchange, the report, and the SRTP loops.\<close>

definition startOnPorts ::
  "('v, 'c, 'r) startEnv \<Rightarrow> CameraConfig \<Rightarrow> ip \<Rightarrow> int \<Rightarrow> int \<Rightarrow> ('v, 'c, 't, 'r) service \<Rightarrow> unit result \<times> ('v, 'c, 't, 'r) service" where
  "startOnPorts env cam localIP videoPort audioPort s =
     (case StartStream (hapLib env) (mapOrder env) (camName cam) localIP (of_int videoPort) (of_int audioPort)
             (videoSelection (Video cam)) (audioSelection (Audio cam)) (controller s, random s) of
        (Inl e, c, r) \<Rightarrow>
          (Inl (''start HAP stream: '' @ e),
           s\<lparr>controller := c, random := r, reports := ReportStreamFailed (camName cam) (''start HAP stream: '' @ e) (reports s),
             srtp := Srtp_Proxy.Close (srtp s)\<rparr>)
      | (Inr resp, c, r) \<Rightarrow>
          (case Srtp_Proxy.Start (pionLib env) (srtpConfig resp) (srtp s) of
             (p, res) \<Rightarrow>
               (res, s\<lparr>controller := c, random := r, reports := ReportStreamStarted (camName cam) (reports s), srtp := p\<rparr>)))"

definition onStart ::
  "('v, 'c, 'r) startEnv \<Rightarrow> Config \<Rightarrow> CameraConfig \<Rightarrow> ('v, 'c, 't, 'r) service \<Rightarrow> unit result \<times> ('v, 'c, 't, 'r) service" where
  "onStart env conf cam s0 =
     (let s = s0\<lparr>server := ResetVideoRTP (wideFloat env) (clock env) (server s0)\<rparr> in
      case resolveLocalIP env (controller s) (camName cam) (BindAddress conf) of
        Inl e \<Rightarrow> (Inl (''resolve local IP for '' @ camName cam @ '': '' @ e), s)
      | Inr localIP \<Rightarrow>
          (case OpenPorts (listenVideo env) (listenAudio env) (srtp s) of
             (p, Inl e) \<Rightarrow> (Inl (''open SRTP ports: '' @ e), s\<lparr>srtp := p\<rparr>)
           | (p, Inr (videoPort, audioPort)) \<Rightarrow> startOnPorts env cam localIP videoPort audioPort (s\<lparr>srtp := p\<rparr>)))"

section \<open>The stop callback, shutdown and recovery\<close>

definition onStop ::
  "('v, 'c, 'r) startEnv \<Rightarrow> CameraConfig \<Rightarrow> Session \<Rightarrow> ('v, 'c, 't, 'r) service \<Rightarrow> unit result \<times> ('v, 'c, 't, 'r) service" where
  "onStop env cam ss s =
     (case StopStream (hapLib env) (camName cam) (GetSessionID ss) (controller s, random s) of
        (_, c, r) \<Rightarrow> (Inr (), s\<lparr>srtp := Srtp_Proxy.Close (srtp s), controller := c, random := r\<rparr>))"

definition errorOf :: "'a result \<Rightarrow> go_error option" where
  "errorOf r = (case r of Inl e \<Rightarrow> Some e | Inr _ \<Rightarrow> None)"

text \<open>Shutting down one camera: its session first (which runs the stop callback when streaming), then server and proxy.\<close>

definition shutdownService ::
  "('v, 'c, 'r) startEnv \<Rightarrow> CameraConfig \<Rightarrow> nat \<Rightarrow> Session \<times> ('v, 'c, 't, 'r) service \<Rightarrow> Session \<times> ('v, 'c, 't, 'r) service" where
  "shutdownService env cam i x =
     (let (ss0, s0) = x;
          (ss1, act) = Shutdown_enter i ss0;
          (ss2, s2) = (case act of
             RunStop \<Rightarrow> (case onStop env cam ss1 s0 of (res, s') \<Rightarrow> (fst (stopLocked_end (errorOf res) ss1), s'))
           | _ \<Rightarrow> (ss1, s0))
      in (ss2, s2\<lparr>server := StopServer (server s2), srtp := Srtp_Proxy.Close (srtp s2)\<rparr>))"

text \<open>
  The RTSP server's handler for the end of an RTSP session. The RTSP library calls it for every session, also for one that was set up
  and never played.
\<close>

definition OnSessionClose :: "nat \<Rightarrow> go_error option \<Rightarrow> Session \<Rightarrow> Session" where
  "OnSessionClose i stopErr ss = finishStop stopErr (ClientDisconnected_enter i ss)"

text \<open>The recovered callback restarts the first service of that name.\<close>

fun restartRecovered :: "('a \<Rightarrow> 'a) \<Rightarrow> string \<Rightarrow> (string \<times> 'a) list \<Rightarrow> (string \<times> 'a) list" where
  "restartRecovered restart deviceName [] = []"
| "restartRecovered restart deviceName ((n, x) # svcs) =
     (if n = deviceName then (n, restart x) # svcs else (n, x) # restartRecovered restart deviceName svcs)"

section \<open>Pairing at startup\<close>

text \<open>Up to six attempts per camera; the first camera that stays unpaired ends the program (\<^verbatim>\<open>os.Exit(1)\<close>).\<close>

fun pairAttempts :: "(nat \<Rightarrow> 'v Controller \<Rightarrow> unit result \<times> 'v Controller) \<Rightarrow> nat \<Rightarrow> nat \<Rightarrow> 'v Controller \<Rightarrow> unit result \<times> 'v Controller" where
  "pairAttempts pair k 0 c = (Inl [], c)"
| "pairAttempts pair k (Suc n) c =
     (case pair k c of
        (Inr _, c') \<Rightarrow> (Inr (), c')
      | (Inl e, c') \<Rightarrow> (if n = 0 then (Inl e, c') else pairAttempts pair (k + 1) n c'))"

fun pairAll :: "(string \<Rightarrow> string \<Rightarrow> nat \<Rightarrow> 'v Controller \<Rightarrow> unit result \<times> 'v Controller) \<Rightarrow> CameraConfig list \<Rightarrow> 'v Controller \<Rightarrow> unit result \<times> 'v Controller" where
  "pairAll pair [] c = (Inr (), c)"
| "pairAll pair (cam # rest) c =
     (case pairAttempts (pair (camName cam) (SetupCode cam)) 1 6 c of
        (Inl e, c') \<Rightarrow> (Inl e, c')
      | (Inr _, c') \<Rightarrow> pairAll pair rest c')"

end
