(* ===== verification/Service_Props.thy ===== *)
theory Service_Props
  imports Camera_Service
begin

text \<open>
  What the wiring of a camera guarantees: the sockets and loops of the SRTP proxy follow the session's state under every
  interleaving, a failed start leaves nothing behind, and a started proxy uses the keys and addresses agreed with the camera.
\<close>

section \<open>The callbacks\<close>

definition socketsOpen :: "'c SRTPProxy \<Rightarrow> bool" where
  "socketsOpen p \<longleftrightarrow> \<not> stopChClosed p \<and> videoConn p \<noteq> None \<and> audioConn p \<noteq> None"

definition quiet :: "'c SRTPProxy \<Rightarrow> bool" where
  "quiet p \<longleftrightarrow> loopsRunning p = 0 \<and> \<not> socketsOpen p"

definition live :: "'c SRTPProxy \<Rightarrow> bool" where
  "live p \<longleftrightarrow> loopsRunning p = 4 \<and> socketsOpen p"

lemma OpenPorts_ok:
  "OpenPorts lv la p = (p', Inr ports) \<Longrightarrow> socketsOpen p' \<and> loopsRunning p' = loopsRunning p"
  by (auto simp: OpenPorts_def socketsOpen_def Let_def split: sum.splits)

lemma OpenPorts_fail:
  "OpenPorts lv la p = (p', Inl e) \<Longrightarrow> quiet p \<Longrightarrow> quiet p' \<and> prefix ''listen '' e"
  by (auto simp: OpenPorts_def socketsOpen_def quiet_def Let_def split: sum.splits)

lemma Close_quiet: "loopsRunning p = 0 \<or> \<not> stopChClosed p \<Longrightarrow> quiet (Srtp_Proxy.Close p)"
  by (auto simp: Close_def quiet_def socketsOpen_def)

lemma Start_ok:
  assumes "Srtp_Proxy.Start lib c p = (p', Inr ())"
  shows "loopsRunning p' = loopsRunning p + 4" "socketsOpen p' = socketsOpen p"
    "createContext lib (VideoKey c) (VideoSalt c) = Inr (the (videoDecryptCtx p'))" "videoDecryptCtx p' \<noteq> None"
    "createContext lib (AudioKey c) (AudioSalt c) = Inr (the (audioDecryptCtx p'))" "audioDecryptCtx p' \<noteq> None"
    "cameraAddr p' = CameraAddr c" "cameraAudioAddr p' = CameraAudioAddr c"
    "controllerSSRC p' = CtlVideoSSRC c" "audioReturnSSRC p' = CtlAudioSSRC c"
  using assms by (auto simp: Start_def socketsOpen_def split: if_splits sum.splits)

lemma Start_fail:
  assumes "Srtp_Proxy.Start lib c p = (p', Inl e)" "socketsOpen p"
  shows "quiet p' \<and> prefix ''create '' e"
  using assms by (auto simp: Start_def socketsOpen_def Close_def quiet_def split: if_splits sum.splits)

text \<open>The branches of the start callback.\<close>

lemma onStart_cases:
  assumes "onStart env conf cam s = (res, s')"
  obtains (noIP) e where "res = Inl (''resolve local IP for '' @ e)" "srtp s' = srtp s" "reports s' = reports s"
  | (noPorts) e where "res = Inl (''open SRTP ports: '' @ e)" "OpenPorts (listenVideo env) (listenAudio env) (srtp s) = (srtp s', Inl e)"
      "reports s' = reports s"
  | (noStream) e p ports where "res = Inl (''start HAP stream: '' @ e)" "OpenPorts (listenVideo env) (listenAudio env) (srtp s) = (p, Inr ports)"
      "srtp s' = Srtp_Proxy.Close p" "reports s' = ReportStreamFailed (camName cam) (''start HAP stream: '' @ e) (reports s)"
  | (hap) p ports resp where "OpenPorts (listenVideo env) (listenAudio env) (srtp s) = (p, Inr ports)"
      "Srtp_Proxy.Start (pionLib env) (srtpConfig resp) p = (srtp s', res)"
      "reports s' = ReportStreamStarted (camName cam) (reports s)" "startedOn (hapLib env) (camName cam) resp (controller s')"
proof -
  have r: "P" if "\<And>localIP. resolveLocalIP env (controller s) (camName cam) (BindAddress conf) = Inr localIP \<Longrightarrow> P"
    "\<And>e. resolveLocalIP env (controller s) (camName cam) (BindAddress conf) = Inl e \<Longrightarrow> P" for P
    using that by (cases "resolveLocalIP env (controller s) (camName cam) (BindAddress conf)") auto
  show thesis
  proof (rule r)
    fix e assume "resolveLocalIP env (controller s) (camName cam) (BindAddress conf) = Inl e"
    then have "res = Inl (''resolve local IP for '' @ camName cam @ '': '' @ e)" "srtp s' = srtp s" "reports s' = reports s"
      using assms by (auto simp: onStart_def Let_def)
    then show thesis by (rule noIP)
  next
    fix localIP assume ip: "resolveLocalIP env (controller s) (camName cam) (BindAddress conf) = Inr localIP"
    obtain p o' where o: "OpenPorts (listenVideo env) (listenAudio env) (srtp s) = (p, o')" by fastforce
    show thesis
    proof (cases o')
      case (Inl e)
      then show thesis using assms ip o by (intro noPorts [of e]) (auto simp: onStart_def Let_def)
    next
      case (Inr ports)
      obtain vp ap where ports: "ports = (vp, ap)" by fastforce
      let ?s = "s\<lparr>server := ResetVideoRTP (wideFloat env) (clock env) (server s), srtp := p\<rparr>"
      have run: "startOnPorts env cam localIP vp ap ?s = (res, s')"
        using assms ip o Inr ports by (simp add: onStart_def Let_def)
      obtain a c r where st: "StartStream (hapLib env) (mapOrder env) (camName cam) localIP (of_int vp) (of_int ap)
             (videoSelection (Video cam)) (audioSelection (Audio cam)) (controller s, random s) = (a, c, r)" by (metis prod_cases3)
      show thesis
      proof (cases a)
        case (Inl e)
        then show thesis using run st o \<open>o' = Inr ports\<close> by (intro noStream [of e p ports]) (auto simp: startOnPorts_def)
      next
        case (Inr resp)
        have "startedOn (hapLib env) (camName cam) resp c" using st Inr by (auto intro: StartStream_started)
        moreover obtain q b where q: "Srtp_Proxy.Start (pionLib env) (srtpConfig resp) p = (q, b)" by fastforce
        ultimately show thesis using run st Inr o \<open>o' = Inr ports\<close> by (intro hap [of p ports resp]) (auto simp: startOnPorts_def)
      qed
    qed
  qed
qed

lemma onStart_ok:
  assumes "onStart env conf cam s = (Inr (), s')" "quiet (srtp s)"
  shows "live (srtp s')"
  using assms
proof (cases rule: onStart_cases)
  case (hap p ports resp)
  then show ?thesis
    using OpenPorts_ok [OF hap(1)] Start_ok [OF hap(2)] assms(2) by (simp add: live_def quiet_def)
qed auto

lemma onStart_fail:
  assumes "onStart env conf cam s = (Inl e, s')" "quiet (srtp s)"
  shows "quiet (srtp s')"
  using assms
proof (cases rule: onStart_cases)
  case (noPorts e)
  then show ?thesis using OpenPorts_fail assms(2) by blast
next
  case (noStream e p ports)
  then show ?thesis using OpenPorts_ok [OF noStream(2)] by (simp add: Close_quiet socketsOpen_def)
next
  case (hap p ports resp)
  then show ?thesis using OpenPorts_ok [OF hap(1)] Start_fail [OF hap(2)] by simp
qed auto

lemma onStop_quiet:
  assumes "onStop env cam ss s = (res, s')" "live (srtp s)"
  shows "quiet (srtp s')" "res = Inr ()"
  using assms by (auto simp: onStop_def live_def socketsOpen_def Close_quiet split: prod.splits)

section \<open>The session and its services together\<close>

text \<open>The critical sections of the session that do not end a callback; \<^verbatim>\<open>SetSessionID\<close> is not called by the program.\<close>

inductive lockStep :: "world \<Rightarrow> world \<Rightarrow> bool" where
  connect: "lockStep w (w_connect w)"
| retry: "c \<in># waiting w \<Longrightarrow> set_option c \<inter> world.closed w \<noteq> {} \<Longrightarrow> lockStep w (w_connect (w\<lparr>waiting := waiting w - {#c#}\<rparr>))"
| give_up: "c \<in># waiting w \<Longrightarrow> lockStep w (w\<lparr>waiting := waiting w - {#c#}\<rparr>)"
| disconnect: "lockStep w (w_disconnect w)"
| expire: "k \<in> armed w \<Longrightarrow> lockStep w (w\<lparr>armed := armed w - {k}, fired := insert k (fired w)\<rparr>)"
| idle: "k \<in> fired w \<Longrightarrow> lockStep w (w_idle k w)"
| restart: "lockStep w (w_restart w)"
| shutdown: "lockStep w (w_shutdown w)"

lemma lockStep_sess: "lockStep w w' \<Longrightarrow> sess_step w w'"
  by (cases rule: lockStep.cases) (auto intro: sess_step.intros)

text \<open>
  The camera as a whole. A callback that returns ran \<open>onStart\<close> or \<open>onStop\<close> on the services; between the callbacks the loops of
  the proxy run their iterations, and the other goroutines change the server, the controller and the report queue.
\<close>

inductive svcStep ::
  "Config \<Rightarrow> CameraConfig \<Rightarrow> world \<times> ('v, 'c, 't, 'r) service \<Rightarrow> world \<times> ('v, 'c, 't, 'r) service \<Rightarrow> bool" for conf cam where
  lock: "lockStep w w' \<Longrightarrow> svcStep conf cam (w, s) (w', s)"
| started: "InStart \<in># inflight w \<Longrightarrow> onStart env conf cam s = (res, s') \<Longrightarrow>
    svcStep conf cam (w, s) (w_started (errorOf res) w, s')"
| stopped: "InStop ch \<in># inflight w \<Longrightarrow> onStop env cam (ses w) s = (res, s') \<Longrightarrow>
    svcStep conf cam (w, s) (w_stopped ch (errorOf res) w, s')"
| restart_stopped: "InRestartStop n ch \<in># inflight w \<Longrightarrow> onStop env cam (ses w) s = (res, s') \<Longrightarrow>
    svcStep conf cam (w, s) (w_restart_stopped n ch w, s')"
| restart_started: "InRestartStart n \<in># inflight w \<Longrightarrow> onStart env conf cam s = (res, s') \<Longrightarrow>
    svcStep conf cam (w, s) (w_restart_started n (errorOf res) w, s')"
| loop: "loopsRunning (srtp s) > 0 \<Longrightarrow> i \<noteq> CloseCall \<Longrightarrow> proxy r = srtp s \<Longrightarrow>
    svcStep conf cam (w, s) (w, s\<lparr>srtp := proxy (fst (runInput lib i r))\<rparr>)"
| others: "svcStep conf cam (w, s) (w, s\<lparr>server := v, controller := c, random := x, reports := q\<rparr>)"

definition svcInit :: "CameraConfig \<Rightarrow> world \<times> ('v, 'c, 't, 'r) service \<Rightarrow> bool" where
  "svcInit cam ws \<longleftrightarrow>
     (\<exists>snap tc l i c r q. newService snap tc l i cam c r q = Inr (snd ws))
     \<and> fst ws = \<lparr>ses = NewSession (camName cam) (rtspIdleTimeout (RTSP cam)), inflight = {#}, waiting = {#}, world.closed = {}, armed = {},
                 fired = {}, fresh = 0\<rparr>"

definition streamUp :: "SessionState \<Rightarrow> bool" where
  "streamUp st \<longleftrightarrow> st = StateStreaming \<or> st = StateStopping"

definition svcInv :: "world \<times> ('v, 'c, 't, 'r) service \<Rightarrow> bool" where
  "svcInv ws \<longleftrightarrow> session_inv (fst ws)
     \<and> (if streamUp (state (ses (fst ws))) then live (srtp (snd ws)) else quiet (srtp (snd ws)))"

text \<open>Sections that do not end a callback leave the stream up or down.\<close>

lemma section_streamUp:
  assumes "session_inv w"
  shows "streamUp (state (ses (w_connect w))) = streamUp (state (ses w))"
    "streamUp (state (ses (w_disconnect w))) = streamUp (state (ses w))"
    "streamUp (state (ses (w_idle k w))) = streamUp (state (ses w))"
    "streamUp (state (ses (w_restart w))) = streamUp (state (ses w))"
    "streamUp (state (ses (w_shutdown w))) = streamUp (state (ses w))"
  by (cases "state (ses w)"; auto simp: streamUp_def world_defs step_defs Let_def split: SessionState.splits)+

lemma lockStep_streamUp:
  assumes "lockStep w w'" "session_inv w"
  shows "streamUp (state (ses w')) = streamUp (state (ses w))"
  using assms
  by (cases rule: lockStep.cases) (auto simp: section_streamUp inv_unwait)

text \<open>A callback in flight tells whether the stream is up.\<close>

lemma callback_streamUp:
  assumes "session_inv w" "a \<in># inflight w"
  shows "streamUp (state (ses w)) \<longleftrightarrow> \<not> starts a"
  using assms by (cases "state (ses w)") (auto simp: session_inv_defs streamUp_def starts_iff stopsOn_iff)

lemma returned_streamUp:
  "streamUp (state (ses (w_started err w))) \<longleftrightarrow> err = None"
  "\<not> streamUp (state (ses (w_stopped ch err w)))"
  "\<not> streamUp (state (ses (w_restart_stopped n ch w)))"
  "streamUp (state (ses (w_restart_started n err w))) \<longleftrightarrow> err = None"
  by (auto simp: streamUp_def world_defs step_defs split: option.splits)

lemma onStart_errorOf:
  assumes "onStart env conf cam s = (res, s')" "quiet (srtp s)"
  shows "if errorOf res = None then live (srtp s') else quiet (srtp s')"
  using assms onStart_ok onStart_fail by (cases res) (fastforce simp: errorOf_def)+

lemma sendAudioReturn_hooks: "sendAudioReturn lib bs p = (p', acts) \<Longrightarrow> sameHooks p p'"
  by (auto simp: sendAudioReturn_def sameHooks_def Let_def split: option.splits sum.splits prod.splits)

lemma readAudio_hooks: "readAudio lib d p = (p', acts) \<Longrightarrow> sameHooks p p'"
  by (auto simp: readAudio_def sameHooks_def Let_def split: if_splits option.splits sum.splits prod.splits)

lemma readVideo_hooks: "readVideo lib d (p, l) = ((p', l'), acts) \<Longrightarrow> sameHooks p p'"
  by (cases rule: readVideo_cases) (auto dest: videoPacket_hooks simp: sameHooks_def)

lemma keepaliveTick_hooks: "keepaliveTick lib now (p, f) = ((p', f'), acts) \<Longrightarrow> sameHooks p p'"
  by (auto simp: keepaliveTick_def Let_def dest: sendRTCPKeepalive_hooks split: prod.splits if_splits)

lemma runInput_hooks: "i \<noteq> CloseCall \<Longrightarrow> sameHooks (proxy r) (proxy (fst (runInput lib i r)))"
  by (cases i) (auto simp: runInput_def split: prod.splits
      dest: sendRTCPKeepalive_hooks sendAudioReturn_hooks readAudio_hooks readVideo_hooks keepaliveTick_hooks)

lemma sameHooks_live: "sameHooks p p' \<Longrightarrow> live p' = live p" "sameHooks p p' \<Longrightarrow> quiet p' = quiet p"
  by (auto simp: sameHooks_def live_def quiet_def socketsOpen_def)

lemma newProxy_quiet: "quiet (newProxy b)"
  by (simp add: newProxy_def quiet_def socketsOpen_def NewSRTPProxy_def SetCallbacks_def SetIDRCallback_def
      SetVideoStallCallback_def SetVideoStatsCallback_def Let_def)

lemma newService_quiet: "newService snap tc l i cam c r q = Inr s \<Longrightarrow> quiet (srtp s)"
  by (auto simp: newService_def newProxy_quiet split: prod.splits sum.splits)

lemma svcInit_inv: "svcInit cam ws \<Longrightarrow> svcInv ws"
  using inv_init [of "fst ws"]
  by (auto simp: svcInit_def svcInv_def world_init_def NewSession_def streamUp_def dest: newService_quiet)

interpretation svc: transition_system "svcInit cam" "svcStep conf cam"
  "svcInv :: world \<times> ('v, 'c, 't, 'r) service \<Rightarrow> bool"
proof unfold_locales
  fix ws :: "world \<times> ('v, 'c, 't, 'r) service" assume "svcInit cam ws"
  then show "svcInv ws" by (rule svcInit_inv)
next
  fix ws ws' :: "world \<times> ('v, 'c, 't, 'r) service"
  assume inv: "svcInv ws" and "svcStep conf cam ws ws'"
  from this(2) show "svcInv ws'"
  proof (cases rule: svcStep.cases)
    case (lock w w' s)
    then show ?thesis using inv session.step_inv [OF _ lockStep_sess] by (auto simp: svcInv_def lockStep_streamUp)
  next
    case (started w env s res s')
    then have "quiet (srtp s)" "session_inv w" using inv callback_streamUp [of w InStart] by (auto simp: svcInv_def)
    then show ?thesis using started onStart_errorOf [OF started(4)] by (auto simp: svcInv_def returned_streamUp inv_started)
  next
    case (stopped ch w env s res s')
    then have "live (srtp s)" "session_inv w" using inv callback_streamUp [of w "InStop ch"] by (auto simp: svcInv_def)
    then show ?thesis using stopped onStop_quiet [OF stopped(4)] by (auto simp: svcInv_def returned_streamUp inv_stopped)
  next
    case (restart_stopped n ch w env s res s')
    then have "live (srtp s)" "session_inv w" using inv callback_streamUp [of w "InRestartStop n ch"] by (auto simp: svcInv_def)
    then show ?thesis using restart_stopped onStop_quiet [OF restart_stopped(4)] by (auto simp: svcInv_def returned_streamUp inv_restart_stopped)
  next
    case (restart_started n w env s res s')
    then have "quiet (srtp s)" "session_inv w" using inv callback_streamUp [of w "InRestartStart n"] by (auto simp: svcInv_def)
    then show ?thesis using restart_started onStart_errorOf [OF restart_started(4)]
      by (auto simp: svcInv_def returned_streamUp inv_restart_started)
  next
    case (loop s i r w lib)
    then show ?thesis using inv sameHooks_live [OF runInput_hooks [of i r lib]] by (auto simp: svcInv_def)
  next
    case (others w s v c x q)
    then show ?thesis using inv by (auto simp: svcInv_def)
  qed
qed


text \<open>A camera that answers every request, on the address 10.0.0.1.\<close>

definition plainStart :: "(nat, unit, unit) startEnv" where
  "plainStart = \<lparr>hapLib = plainEnv, pionLib = plainLib, mapOrder = [], clock = 0, wideFloat = \<lambda>_. 0, listenVideo = Inr 5000,
     listenAudio = Inr 5001, dialUDP = \<lambda>_. Inl ''no route''\<rparr>"

definition plainConfig :: Config where
  "plainConfig = \<lparr>LogLevel = [], PairingStore = [], BindAddress = ''10.0.0.1'', ListenAddress = [], Cameras = [], MQTT = emptyMQTT\<rparr>"

definition oneCamera :: CameraConfig where
  "oneCamera = applyDefaults \<lparr>camName = ''cam'', SetupCode = [], DeviceID = [], RTSP = \<lparr>rtspPort = 0, rtspPath = [], rtspIdleTimeout = 0\<rparr>,
     Video = \<lparr>videoWidth = 0, videoHeight = 0, videoFPS = 0, videoMaxBitrate = 0\<rparr>,
     Audio = \<lparr>audioEnabled = False, audioCodec = [], audioSampleRate = 0, audioGain = None\<rparr>, ONVIF = \<lparr>onvifEnabled = False, onvifPort = 0\<rparr>\<rparr>"

definition plainService :: "(nat, unit, unit, unit) service" where
  "plainService = \<lparr>server = fst (StartServer (Inr ()) (Inr ()) (NewRTSPServer False (\<lambda>_ _ _. Inr ()) (serverConfig oneCamera))),
     srtp = newProxy True, controller = plainController, random = (), reports = Some []\<rparr>"

lemma plainService_new: "newService False (\<lambda>_ _ _. Inr ()) (Inr ()) (Inr ()) oneCamera plainController () (Some []) = Inr plainService"
  by (simp add: newService_def plainService_def StartServer_def)

lemma plainService_quiet: "quiet (srtp plainService)"
  by (simp add: plainService_def newProxy_quiet)

lemma plain_fields [simp]: "camName oneCamera = ''cam''" "BindAddress plainConfig = ''10.0.0.1''" "reports plainService = Some []"
  "controller plainService = plainController" "random plainService = ()" "srtp plainService = newProxy True"
  by (simp_all add: oneCamera_def App_Config.applyDefaults_def plainConfig_def plainService_def)

lemma plain_onStart: "\<exists>s. onStart plainStart plainConfig oneCamera plainService = (Inr (), s) \<and> reports s = Some [StreamResult ''cam'' True []]"
proof -
  let ?ip = "v4InV6Prefix @ [10, 0, 0, 1]"
  have "ParseIP p6 ''10.0.0.1'' = Some ?ip" for p6 by (simp add: ParseIP_def) code_simp
  then have ip: "resolveLocalIP plainStart c ''cam'' ''10.0.0.1'' = Inr ?ip" for c :: "nat Controller"
    by (simp add: resolveLocalIP_def)
  obtain resp c where st: "StartStream plainEnv [] ''cam'' ?ip 5000 5001 (videoSelection (Video oneCamera))
     (audioSelection (Audio oneCamera)) (plainController, ()) = (Inr resp, c, ())" using plain_start by blast
  show ?thesis using st
    by (simp add: onStart_def startOnPorts_def ip OpenPorts_def Let_def)
       (simp add: plainStart_def plainLib_def Start_def srtpConfig_def ReportStreamStarted_def enqueue_def)
qed

lemma plain_svcInit: "svcInit oneCamera (world0 0, plainService)"
proof -
  have t: "rtspIdleTimeout (RTSP oneCamera) = 0" by (simp add: oneCamera_def App_Config.applyDefaults_def)
  show ?thesis
    unfolding svcInit_def fst_conv snd_conv
    by (intro conjI exI, rule plainService_new) (simp add: world0_def t)
qed

lemma plain_connected: "reachable (svcInit oneCamera) (svcStep plainConfig oneCamera) (w_connect (world0 0), plainService)"
  by (rule reachable_step, rule reachable_init, rule plain_svcInit, rule svcStep.lock, rule lockStep.connect)




text \<open>
  C12. When the start callback succeeds, the proxy works with what was agreed with the camera in the exchange of this start: it
  decrypts with contexts made from the keys of the answer, accepts and sends datagrams at the camera's address and ports, and
  reports under the SSRCs that the start message named; the success is reported.
\<close>

theorem started_stream_keys:
  assumes "onStart env conf cam s = (Inr (), s')"
  shows "\<exists>resp vctx actx. startedOn (hapLib env) (camName cam) resp (controller s')
     \<and> createContext (pionLib env) (orNil (VideoSRTPKey resp)) (orNil (VideoSRTPSalt resp)) = Inr vctx
     \<and> createContext (pionLib env) (orNil (AudioSRTPKey resp)) (orNil (AudioSRTPSalt resp)) = Inr actx
     \<and> videoDecryptCtx (srtp s') = Some vctx \<and> audioDecryptCtx (srtp s') = Some actx
     \<and> cameraAddr (srtp s') = Some (orNil (RemoteIP resp), uint (RemoteVideoPort resp))
     \<and> cameraAudioAddr (srtp s') = Some (orNil (RemoteIP resp), uint (RemoteAudioPort resp))
     \<and> controllerSSRC (srtp s') = ControllerVideoSSRC resp \<and> audioReturnSSRC (srtp s') = ControllerAudioSSRC resp
     \<and> reports s' = ReportStreamStarted (camName cam) (reports s)"
  using assms
proof (cases rule: onStart_cases)
  case (hap p ports resp)
  show ?thesis
    using hap(3,4) Start_ok [OF hap(2)]
    by (intro exI [of _ resp] exI [of _ "the (videoDecryptCtx (srtp s'))"] exI [of _ "the (audioDecryptCtx (srtp s'))"])
       (simp add: srtpConfig_def)
qed auto

theorem started_stream_keys_witness:
  "\<exists>s resp. onStart plainStart plainConfig oneCamera plainService = (Inr (), s)
     \<and> startedOn plainEnv ''cam'' resp (controller s) \<and> videoDecryptCtx (srtp s) = Some ()"
proof -
  obtain s where s: "onStart plainStart plainConfig oneCamera plainService = (Inr (), s)" using plain_onStart by blast
  from started_stream_keys [OF s] s show ?thesis by (auto simp: plainStart_def)
qed

section \<open>Shutdown and the session identifier\<close>

text \<open>After the shutdown of a camera whose session is not in a callback, everything is down.\<close>

lemma shutdown_stops_all:
  assumes "svcInv (w, s)" "inflight w = {#}"
  shows "let (ss', s') = shutdownService env cam i (ses w, s) in
     state ss' = StateIdle \<and> stopTimer ss' = None \<and> quiet (srtp s') \<and> \<not> streamOpen (server s')"
proof -
  have st: "state (ses w) = StateIdle \<or> state (ses w) = StateStreaming"
    using assms by (cases "state (ses w)") (auto simp: svcInv_def session_inv_defs)
  show ?thesis
  proof (cases "state (ses w) = StateIdle")
    case True
    then have "quiet (Srtp_Proxy.Close (srtp s))" using assms(1) by (intro Close_quiet) (simp add: svcInv_def streamUp_def quiet_def)
    then show ?thesis using True by (simp add: shutdownService_def step_defs Let_def StopServer_def)
  next
    case False
    then have up: "state (ses w) = StateStreaming" "live (srtp s)" using st assms(1) by (auto simp: svcInv_def streamUp_def)
    have close: "quiet (Srtp_Proxy.Close (Srtp_Proxy.Close (srtp s)))"
      using up(2) by (simp add: live_def socketsOpen_def quiet_def Close_def)
    obtain res s1 where stop: "onStop env cam (fst (Shutdown_enter i (ses w))) s = (res, s1)" by fastforce
    then have "srtp s1 = Srtp_Proxy.Close (srtp s)" by (auto simp: onStop_def split: prod.splits)
    then show ?thesis using up(1) close stop by (simp add: shutdownService_def step_defs Let_def StopServer_def)
  qed
qed

text \<open>
  The stop command names a session the camera never heard of: the program never stores the identifier of the stream it
  started, so the identifier in every stop command is zero.
\<close>

lemma lockStep_sessionID: "lockStep w w' \<Longrightarrow> sessionID (ses w') = sessionID (ses w)"
  by (cases rule: lockStep.cases)
     (auto simp: world_defs step_defs Let_def split: SessionState.splits if_splits)

interpretation svc_id: transition_system "svcInit cam" "svcStep conf cam"
  "\<lambda>ws :: world \<times> ('v, 'c, 't, 'r) service. GetSessionID (ses (fst ws)) = replicate 16 0"
proof unfold_locales
  fix ws :: "world \<times> ('v, 'c, 't, 'r) service" assume "svcInit cam ws"
  then show "GetSessionID (ses (fst ws)) = replicate 16 0" by (simp add: svcInit_def NewSession_def GetSessionID_def)
next
  fix ws ws' :: "world \<times> ('v, 'c, 't, 'r) service"
  assume inv: "GetSessionID (ses (fst ws)) = replicate 16 0" and "svcStep conf cam ws ws'"
  from this(2) show "GetSessionID (ses (fst ws')) = replicate 16 0"
    using inv
    by (cases rule: svcStep.cases)
       (auto simp: GetSessionID_def lockStep_sessionID world_defs step_defs split: option.splits)
qed

lemma stop_names_zero_session:
  assumes "reachable (svcInit cam) (svcStep conf cam) (w, s)"
  shows "snd (onStop env cam (ses w) s) =
     (case StopStream (hapLib env) (camName cam) (replicate 16 0) (controller s, random s) of
        (_, c, r) \<Rightarrow> s\<lparr>srtp := Srtp_Proxy.Close (srtp s), controller := c, random := r\<rparr>)"
  using svc_id.reachable_inv [OF assms] by (simp add: onStop_def split: prod.splits)

text \<open>
  A session that ends without having played is subtracted like one that played: while one client streams, the end of another
  session that was only set up stops the stream.
\<close>

lemma unplayed_session_stops_stream:
  assumes "state ss = StateStreaming" "clientCount ss = 1" "idleTimeout ss \<le> 0"
  shows "state (OnSessionClose i None ss) = StateIdle \<and> clientCount (OnSessionClose i None ss) = 0"
  using assms by (simp add: OnSessionClose_def finishStop_def step_defs Let_def)

section \<open>Pairing and recovery\<close>

text \<open>A camera counts as paired only if one of its attempts succeeded.\<close>

lemma pairAttempts_outcome:
  "pairAttempts pair k n c = (Inr (), c') \<Longrightarrow> \<exists>j c1. k \<le> j \<and> j < k + n \<and> pair j c1 = (Inr (), c')"
proof (induction pair k n c rule: pairAttempts.induct)
  case (2 pair k n c)
  obtain r c1 where p: "pair k c = (r, c1)" by fastforce
  show ?case
  proof (cases r)
    case (Inl e)
    with "2.prems" p have n: "n \<noteq> 0" "pairAttempts pair (k + 1) n c1 = (Inr (), c')" by (auto split: if_splits)
    from "2.IH" [OF p [symmetric] Inl n(1,2)] show ?thesis by (metis Suc_leD add_Suc_shift plus_1_eq_Suc add.commute)
  next
    case (Inr u)
    then show ?thesis using "2.prems" p by auto
  qed
qed simp

text \<open>A recovered camera's session is restarted once, no other session is touched.\<close>

lemma restartRecovered_first:
  "n \<notin> fst ` set xs \<Longrightarrow> restartRecovered f n (xs @ (n, x) # ys) = xs @ (n, f x) # ys"
  "n \<notin> fst ` set xs \<Longrightarrow> restartRecovered f n xs = xs"
  by (induction xs) auto

end
