(* ===== verification/Pullpoint.thy ===== *)
theory Pullpoint
  imports Prelude
begin

text \<open>
  The ONVIF event subscriptions of \<^verbatim>\<open>internal/onvif/pullpoint.go\<close>: the queue of one subscription with its
  wake-up token and its long poll, split at the mutex and channel operations so that any number of callers
  may interleave, and the bounded subscription table.
\<close>

record MotionEvent =
  Time :: int
  IsMotion :: bool

section \<open>One subscription\<close>

record PullPointSubscription =
  ID :: string
  Created :: int
  TerminationTime :: int
  events :: "MotionEvent list"
  notify :: bool

definition NewPullPointSubscription :: "string \<Rightarrow> int \<Rightarrow> int \<Rightarrow> PullPointSubscription" where
  "NewPullPointSubscription i timeout now = \<lparr>ID = i, Created = now, TerminationTime = now + timeout, events = [], notify = False\<rparr>"

definition PushEvent_append :: "MotionEvent \<Rightarrow> PullPointSubscription \<Rightarrow> PullPointSubscription" where
  "PushEvent_append evt pp = pp\<lparr>events := events pp @ [evt]\<rparr>"

text \<open>The channel has room for one token; sending to a full channel does nothing.\<close>

definition PushEvent_signal :: "PullPointSubscription \<Rightarrow> PullPointSubscription" where
  "PushEvent_signal pp = pp\<lparr>notify := True\<rparr>"

definition PushEvent :: "MotionEvent \<Rightarrow> PullPointSubscription \<Rightarrow> PullPointSubscription" where
  "PushEvent evt pp = PushEvent_signal (PushEvent_append evt pp)"

text \<open>The first critical section of \<^verbatim>\<open>PullMessages\<close>: \<open>None\<close> when the caller has to wait.\<close>

definition PullMessages_check :: "PullPointSubscription \<Rightarrow> PullPointSubscription \<times> MotionEvent list option" where
  "PullMessages_check pp = (if events pp \<noteq> [] then (pp\<lparr>events := []\<rparr>, Some (events pp)) else (pp, None))"

definition PullMessages_receive :: "PullPointSubscription \<Rightarrow> PullPointSubscription" where
  "PullMessages_receive pp = pp\<lparr>notify := False\<rparr>"

definition PullMessages_take :: "PullPointSubscription \<Rightarrow> PullPointSubscription \<times> MotionEvent list" where
  "PullMessages_take pp = (pp\<lparr>events := []\<rparr>, events pp)"

definition Renew :: "int \<Rightarrow> int \<Rightarrow> PullPointSubscription \<Rightarrow> PullPointSubscription" where
  "Renew timeout now pp = pp\<lparr>TerminationTime := now + timeout\<rparr>"

definition IsExpired :: "int \<Rightarrow> PullPointSubscription \<Rightarrow> bool" where
  "IsExpired now pp \<longleftrightarrow> now > TerminationTime pp"

section \<open>Concurrent pushes and pulls\<close>

text \<open>
  Ghost fields count the callers between their atomic sections (pushes that have appended and not yet signalled, pulls
  that wait, pulls that were woken or timed out), and record what was pushed and what was returned.
\<close>

record pullWorld =
  sub :: PullPointSubscription
  unsignalled :: nat
  waiting :: nat
  woken :: nat
  pushed :: "MotionEvent list"
  returned :: "MotionEvent list list"

inductive pullStep :: "pullWorld \<Rightarrow> pullWorld \<Rightarrow> bool" where
  append: "pullStep w (w\<lparr>sub := PushEvent_append e (sub w), unsignalled := unsignalled w + 1, pushed := pushed w @ [e]\<rparr>)"
| signal: "0 < unsignalled w \<Longrightarrow> pullStep w (w\<lparr>sub := PushEvent_signal (sub w), unsignalled := unsignalled w - 1\<rparr>)"
| check_take: "PullMessages_check (sub w) = (pp, Some es) \<Longrightarrow> pullStep w (w\<lparr>sub := pp, returned := returned w @ [es]\<rparr>)"
| check_wait: "PullMessages_check (sub w) = (pp, None) \<Longrightarrow> pullStep w (w\<lparr>sub := pp, waiting := waiting w + 1\<rparr>)"
| wake: "0 < waiting w \<Longrightarrow> notify (sub w) \<Longrightarrow>
    pullStep w (w\<lparr>sub := PullMessages_receive (sub w), waiting := waiting w - 1, woken := woken w + 1\<rparr>)"
| timeout: "0 < waiting w \<Longrightarrow> pullStep w (w\<lparr>waiting := waiting w - 1, woken := woken w + 1\<rparr>)"
| finish: "0 < woken w \<Longrightarrow> PullMessages_take (sub w) = (pp, es) \<Longrightarrow>
    pullStep w (w\<lparr>sub := pp, woken := woken w - 1, returned := returned w @ [es]\<rparr>)"

definition pullInit :: "pullWorld \<Rightarrow> bool" where
  "pullInit w \<longleftrightarrow> (\<exists>i timeout now. sub w = NewPullPointSubscription i timeout now)
     \<and> unsignalled w = 0 \<and> waiting w = 0 \<and> woken w = 0 \<and> pushed w = [] \<and> returned w = []"

definition pullInv :: "pullWorld \<Rightarrow> bool" where
  "pullInv w \<longleftrightarrow> pushed w = concat (returned w) @ events (sub w)
     \<and> (events (sub w) \<noteq> [] \<longrightarrow> notify (sub w) \<or> 0 < unsignalled w \<or> 0 < woken w)"

lemmas pull_defs = PushEvent_append_def PushEvent_signal_def PullMessages_check_def PullMessages_receive_def PullMessages_take_def

interpretation pull: transition_system pullInit pullStep pullInv
proof unfold_locales
  fix w assume "pullInit w"
  then show "pullInv w" by (auto simp: pullInit_def pullInv_def NewPullPointSubscription_def)
next
  fix w w' assume "pullInv w" "pullStep w w'"
  from this(2,1) show "pullInv w'"
    by (cases rule: pullStep.cases) (auto simp: pullInv_def pull_defs split: if_splits)
qed

text \<open>
  C38. No motion event is lost, duplicated or reordered, and none waits unnoticed. Under every interleaving of pushes and
  long polls by any number of callers, the events returned so far followed by the queued ones are the events
  pushed; and whenever events are queued, the wake-up token is set, or a push is about to set it, or a poll has
  been woken and is about to take them.
\<close>

theorem motion_events_delivered:
  assumes "reachable pullInit pullStep w"
  shows "pushed w = concat (returned w) @ events (sub w)
    \<and> (events (sub w) = [] \<or> notify (sub w) \<or> 0 < unsignalled w \<or> 0 < woken w)"
  using pull.reachable_inv [OF assms] by (auto simp: pullInv_def)

definition pullWorld0 :: pullWorld where
  "pullWorld0 = \<lparr>sub = NewPullPointSubscription ''s'' 60 0, unsignalled = 0, waiting = 0, woken = 0, pushed = [], returned = []\<rparr>"

lemma pullWorld0_init: "pullInit pullWorld0"
  by (auto simp: pullInit_def pullWorld0_def)

lemma pullWorld0_push:
  "reachable pullInit pullStep (pullWorld0\<lparr>sub := PushEvent_append e (sub pullWorld0), unsignalled := 1, pushed := [e]\<rparr>)"
proof (rule reachable_step)
  show "reachable pullInit pullStep pullWorld0" by (rule reachable_init) (rule pullWorld0_init)
  show "pullStep pullWorld0 (pullWorld0\<lparr>sub := PushEvent_append e (sub pullWorld0), unsignalled := 1, pushed := [e]\<rparr>)"
    using pullStep.append [of pullWorld0 e] by (simp add: pullWorld0_def)
qed

theorem motion_events_delivered_witness:
  "events (PushEvent_append \<lparr>Time = 1, IsMotion = True\<rparr> (NewPullPointSubscription ''s'' 60 0)) = [\<lparr>Time = 1, IsMotion = True\<rparr>]"
  using motion_events_delivered [OF pullWorld0_push [of "\<lparr>Time = 1, IsMotion = True\<rparr>"]] by (simp add: pullWorld0_def)

text \<open>
  The token is left behind when a poll finds the events without waiting: the next poll does not wait but returns
  at once with nothing.
\<close>

lemma stale_token_ends_next_poll:
  assumes "PullMessages_check (PushEvent e pp) = (pp1, Some es)"
  shows "PullMessages_check pp1 = (pp1, None) \<and> notify pp1 \<and> snd (PullMessages_take (PullMessages_receive pp1)) = []"
  using assms by (auto simp: PushEvent_def pull_defs)

section \<open>The subscription table\<close>

type_synonym PullPointManager = "string \<rightharpoonup> PullPointSubscription"

abbreviation maxSubscriptions :: nat where "maxSubscriptions \<equiv> 64"

definition CleanExpired :: "int \<Rightarrow> PullPointManager \<Rightarrow> PullPointManager" where
  "CleanExpired now m = (\<lambda>i. case m i of None \<Rightarrow> None | Some s \<Rightarrow> if IsExpired now s then None else Some s)"

definition Create :: "string \<Rightarrow> int \<Rightarrow> int \<Rightarrow> PullPointManager \<Rightarrow> PullPointManager \<times> PullPointSubscription option" where
  "Create i timeout now m =
     (let m1 = (if card (dom m) \<ge> maxSubscriptions then CleanExpired now m else m) in
      if card (dom m1) \<ge> maxSubscriptions then (m1, None)
      else let s = NewPullPointSubscription i timeout now in (m1(i \<mapsto> s), Some s))"

definition Remove :: "string \<Rightarrow> PullPointManager \<Rightarrow> PullPointManager" where
  "Remove i m = m(i := None)"

definition FanOut :: "MotionEvent \<Rightarrow> int \<Rightarrow> PullPointManager \<Rightarrow> PullPointManager" where
  "FanOut evt now m = (\<lambda>i. case m i of None \<Rightarrow> None | Some s \<Rightarrow> Some (if IsExpired now s then s else PushEvent evt s))"

datatype tableOp = OpCreate string int int | OpRemove string | OpFanOut MotionEvent int | OpClean int
  | OpPull string | OpRenew string int int

fun tableStep :: "tableOp \<Rightarrow> PullPointManager \<Rightarrow> PullPointManager" where
  "tableStep (OpCreate i t now) m = fst (Create i t now m)"
| "tableStep (OpRemove i) m = Remove i m"
| "tableStep (OpFanOut e now) m = FanOut e now m"
| "tableStep (OpClean now) m = CleanExpired now m"
| "tableStep (OpPull i) m = (case m i of None \<Rightarrow> m | Some s \<Rightarrow> m(i \<mapsto> fst (PullMessages_check s)))"
| "tableStep (OpRenew i t now) m = (case m i of None \<Rightarrow> m | Some s \<Rightarrow> m(i \<mapsto> Renew t now s))"

definition tableInv :: "PullPointManager \<Rightarrow> bool" where
  "tableInv m \<longleftrightarrow> finite (dom m) \<and> card (dom m) \<le> maxSubscriptions"

lemma dom_CleanExpired: "dom (CleanExpired now m) \<subseteq> dom m"
  by (auto simp: CleanExpired_def split: option.splits)

lemma dom_FanOut: "dom (FanOut e now m) = dom m"
  by (auto simp: FanOut_def dom_def split: option.splits)

lemma tableStep_inv:
  assumes "tableInv m"
  shows "tableInv (tableStep op m)"
proof -
  have clean: "tableInv (CleanExpired now m)" for now
    using assms dom_CleanExpired [of now m] card_mono finite_subset unfolding tableInv_def by (meson order_trans)
  show ?thesis
  proof (cases op)
    case (OpCreate i t now)
    have "tableInv (m1(i \<mapsto> s))" if "tableInv m1" "card (dom m1) < maxSubscriptions" for m1 s
      using that card_insert_le_m1 by (auto simp: tableInv_def card_insert_if)
    then show ?thesis using OpCreate clean assms by (auto simp: Create_def Let_def not_le)
  next
    case (OpRemove i)
    have "card (dom m - {i}) \<le> card (dom m)" using assms by (intro card_mono) (auto simp: tableInv_def)
    then show ?thesis using OpRemove assms by (auto simp: Remove_def tableInv_def)
  next
    case (OpPull i)
    then show ?thesis using assms by (auto simp: tableInv_def insert_absorb domI split: option.split)
  next
    case (OpRenew i t now)
    then show ?thesis using assms by (auto simp: tableInv_def insert_absorb domI split: option.split)
  qed (use assms clean in \<open>auto simp: tableInv_def dom_FanOut\<close>)
qed

text \<open>
  The subscription table stays bounded: whatever sequence of creations, pulls, renewals, removals, events and clean-ups, it never
  holds more than 64 subscriptions; and a creation is refused only when all 64 are unexpired.
\<close>

lemma subscriptions_bounded:
  "card (dom (fold tableStep ops Map.empty)) \<le> 64
   \<and> (snd (Create i t now (fold tableStep ops Map.empty)) = None
        \<longleftrightarrow> card (dom (CleanExpired now (fold tableStep ops Map.empty))) = 64)"
proof -
  have "tableInv (fold tableStep ops m)" if "tableInv m" for m
    using that by (induction ops arbitrary: m) (simp_all add: tableStep_inv)
  then have i: "tableInv (fold tableStep ops Map.empty)" by (simp add: tableInv_def)
  define m where "m = fold tableStep ops Map.empty"
  have m: "finite (dom m)" "card (dom m) \<le> 64" using i by (simp_all add: tableInv_def m_def)
  have c: "card (dom (CleanExpired now m)) \<le> card (dom m)" using m(1) dom_CleanExpired by (intro card_mono)
  have "snd (Create i t now m) = None \<longleftrightarrow> card (dom (CleanExpired now m)) = 64"
    using m(2) c by (auto simp: Create_def Let_def)
  then show ?thesis using m by (simp add: m_def)
qed

end
