(* ===== verification/Onvif_Templates.thy ===== *)
theory Onvif_Templates
  imports Prelude
begin

text \<open>
  The SOAP response templates of \<^verbatim>\<open>internal/onvif/templates.go\<close>, verbatim, and the formatting functions the ONVIF server
  fills them with: \<^verbatim>\<open>fmt.Sprintf\<close> for the verbs that occur, and the RFC 3339 form of a UTC time. A template is the list of its
  lines. Every call passes as many arguments as its template has verbs, so the forms \<^verbatim>\<open>fmt\<close> uses for missing or extra arguments
  do not occur.
\<close>

section \<open>Formatting\<close>

definition joinLines :: "string list \<Rightarrow> string" where
  "joinLines ls = concat (map (\<lambda>l. l @ [CHR 0x0A]) (butlast ls)) @ (if ls = [] then [] else last ls)"

text \<open>Arguments are given in their printed form, which for \<^verbatim>\<open>%d\<close> is \<open>showInt\<close>.\<close>

fun Sprintf :: "string \<Rightarrow> string list \<Rightarrow> string" where
  "Sprintf [] args = []"
| "Sprintf [c] args = [c]"
| "Sprintf (c # v # cs) args =
     (if c = CHR ''%''
      then (case args of [] \<Rightarrow> ''%!'' @ [v] @ ''(MISSING)'' @ Sprintf cs [] | a # as \<Rightarrow> a @ Sprintf cs as)
      else c # Sprintf (v # cs) args)"

definition verbs :: "string \<Rightarrow> nat" where
  "verbs t = count_list t (CHR ''%'')"

text \<open>Date and time of a Unix time in seconds: the proleptic Gregorian calendar, with years that begin in March.\<close>

definition civil :: "int \<Rightarrow> int \<times> int \<times> int" where
  "civil days =
     (let z = days + 719468;
          era = z div 146097;
          doe = z mod 146097;
          yoe = (doe - doe div 1460 + doe div 36524 - doe div 146096) div 365;
          doy = doe - (365 * yoe + yoe div 4 - yoe div 100);
          mp = (5 * doy + 2) div 153;
          d = doy - (153 * mp + 2) div 5 + 1;
          m = (if mp < 10 then mp + 3 else mp - 9)
      in (yoe + era * 400 + (if m \<le> 2 then 1 else 0), m, d))"

record utcTime =
  Year :: int
  Month :: int
  Day :: int
  Hour :: int
  Minute :: int
  Second :: int

definition UTC :: "int \<Rightarrow> utcTime" where
  "UTC nanos =
     (let secs = nanos div 1000000000; (y, m, d) = civil (secs div 86400); r = secs mod 86400 in
      \<lparr>Year = y, Month = m, Day = d, Hour = r div 3600, Minute = r mod 3600 div 60, Second = r mod 60\<rparr>)"

definition pad :: "nat \<Rightarrow> int \<Rightarrow> string" where
  "pad n i = replicate (n - length (showInt i)) (CHR ''0'') @ showInt i"

definition RFC3339 :: "int \<Rightarrow> string" where
  "RFC3339 nanos =
     (let t = UTC nanos in
      pad 4 (Year t) @ ''-'' @ pad 2 (Month t) @ ''-'' @ pad 2 (Day t) @ ''T'' @ pad 2 (Hour t) @ '':'' @ pad 2 (Minute t)
        @ '':'' @ pad 2 (Second t) @ ''Z'')"

section \<open>Templates\<close>

definition soapEnvelopeHeader :: string where
  \<open>soapEnvelopeHeader = joinLines
    [''<?xml version="1.0" encoding="UTF-8"?>'',
     ''<s:Envelope xmlns:s="http://www.w3.org/2003/05/soap-envelope"'',
     ''            xmlns:tds="http://www.onvif.org/ver10/device/wsdl"'',
     ''            xmlns:tt="http://www.onvif.org/ver10/schema"'',
     ''            xmlns:trt="http://www.onvif.org/ver10/media/wsdl"'',
     ''            xmlns:tev="http://www.onvif.org/ver10/events/wsdl"'',
     ''            xmlns:wsnt="http://docs.oasis-open.org/wsn/b-2"'',
     ''            xmlns:wsa="http://www.w3.org/2005/08/addressing"'',
     ''            xmlns:tns1="http://www.onvif.org/ver10/topics">'',
     ''  <s:Body>'']\<close>

definition soapEnvelopeFooter :: string where
  \<open>soapEnvelopeFooter = joinLines
    ['''',
     ''  </s:Body>'',
     ''</s:Envelope>'']\<close>

definition getDeviceInformationResponse :: string where
  \<open>getDeviceInformationResponse = joinLines
    ['''',
     ''    <tds:GetDeviceInformationResponse>'',
     ''      <tds:Manufacturer>HomeKit Proxy</tds:Manufacturer>'',
     ''      <tds:Model>RTSP Bridge</tds:Model>'',
     ''      <tds:FirmwareVersion>1.0.0</tds:FirmwareVersion>'',
     ''      <tds:SerialNumber>%s</tds:SerialNumber>'',
     ''      <tds:HardwareId>%s</tds:HardwareId>'',
     ''    </tds:GetDeviceInformationResponse>'']\<close>

definition getCapabilitiesResponse :: string where
  \<open>getCapabilitiesResponse = joinLines
    ['''',
     ''    <tds:GetCapabilitiesResponse>'',
     ''      <tds:Capabilities>'',
     ''        <tt:Device>'',
     ''          <tt:XAddr>http://%s/onvif/device_service</tt:XAddr>'',
     ''        </tt:Device>'',
     ''        <tt:Media>'',
     ''          <tt:XAddr>http://%s/onvif/media_service</tt:XAddr>'',
     ''        </tt:Media>'',
     ''        <tt:Events>'',
     ''          <tt:XAddr>http://%s/onvif/event_service</tt:XAddr>'',
     ''          <tt:WSPullPointSupport>true</tt:WSPullPointSupport>'',
     ''        </tt:Events>'',
     ''      </tds:Capabilities>'',
     ''    </tds:GetCapabilitiesResponse>'']\<close>

definition getServicesResponse :: string where
  \<open>getServicesResponse = joinLines
    ['''',
     ''    <tds:GetServicesResponse>'',
     ''      <tds:Service>'',
     ''        <tds:Namespace>http://www.onvif.org/ver10/device/wsdl</tds:Namespace>'',
     ''        <tds:XAddr>http://%s/onvif/device_service</tds:XAddr>'',
     ''        <tds:Version><tt:Major>2</tt:Major><tt:Minor>0</tt:Minor></tds:Version>'',
     ''      </tds:Service>'',
     ''      <tds:Service>'',
     ''        <tds:Namespace>http://www.onvif.org/ver10/media/wsdl</tds:Namespace>'',
     ''        <tds:XAddr>http://%s/onvif/media_service</tds:XAddr>'',
     ''        <tds:Version><tt:Major>2</tt:Major><tt:Minor>0</tt:Minor></tds:Version>'',
     ''      </tds:Service>'',
     ''      <tds:Service>'',
     ''        <tds:Namespace>http://www.onvif.org/ver10/events/wsdl</tds:Namespace>'',
     ''        <tds:XAddr>http://%s/onvif/event_service</tds:XAddr>'',
     ''        <tds:Version><tt:Major>2</tt:Major><tt:Minor>0</tt:Minor></tds:Version>'',
     ''      </tds:Service>'',
     ''    </tds:GetServicesResponse>'']\<close>

definition getVideoSourcesResponse :: string where
  \<open>getVideoSourcesResponse = joinLines
    ['''',
     ''    <trt:GetVideoSourcesResponse>'',
     ''      <trt:VideoSources token="VS_1">'',
     ''        <tt:Framerate>30</tt:Framerate>'',
     ''        <tt:Resolution>'',
     ''          <tt:Width>%d</tt:Width>'',
     ''          <tt:Height>%d</tt:Height>'',
     ''        </tt:Resolution>'',
     ''      </trt:VideoSources>'',
     ''    </trt:GetVideoSourcesResponse>'']\<close>

definition getProfilesResponse :: string where
  \<open>getProfilesResponse = joinLines
    ['''',
     ''    <trt:GetProfilesResponse>'',
     ''      <trt:Profiles token="MainProfile" fixed="true">'',
     ''        <tt:Name>MainProfile</tt:Name>'',
     ''        <tt:VideoSourceConfiguration token="VSC_1">'',
     ''          <tt:Name>VideoSource</tt:Name>'',
     ''          <tt:UseCount>1</tt:UseCount>'',
     ''          <tt:SourceToken>VS_1</tt:SourceToken>'',
     ''          <tt:Bounds x="0" y="0" width="%d" height="%d"/>'',
     ''        </tt:VideoSourceConfiguration>'',
     ''        <tt:VideoEncoderConfiguration token="VEC_1">'',
     ''          <tt:Name>H264</tt:Name>'',
     ''          <tt:UseCount>1</tt:UseCount>'',
     ''          <tt:Encoding>H264</tt:Encoding>'',
     ''          <tt:Resolution>'',
     ''            <tt:Width>%d</tt:Width>'',
     ''            <tt:Height>%d</tt:Height>'',
     ''          </tt:Resolution>'',
     ''          <tt:RateControl>'',
     ''            <tt:FrameRateLimit>%d</tt:FrameRateLimit>'',
     ''            <tt:BitrateLimit>%d</tt:BitrateLimit>'',
     ''          </tt:RateControl>'',
     ''        </tt:VideoEncoderConfiguration>'',
     ''      </trt:Profiles>'',
     ''    </trt:GetProfilesResponse>'']\<close>

definition getVideoEncoderConfigurationResponse :: string where
  \<open>getVideoEncoderConfigurationResponse = joinLines
    ['''',
     ''    <trt:GetVideoEncoderConfigurationResponse>'',
     ''      <trt:Configuration token="VEC_1">'',
     ''        <tt:Name>H264</tt:Name>'',
     ''        <tt:UseCount>1</tt:UseCount>'',
     ''        <tt:Encoding>H264</tt:Encoding>'',
     ''        <tt:Resolution>'',
     ''          <tt:Width>%d</tt:Width>'',
     ''          <tt:Height>%d</tt:Height>'',
     ''        </tt:Resolution>'',
     ''        <tt:RateControl>'',
     ''          <tt:FrameRateLimit>%d</tt:FrameRateLimit>'',
     ''          <tt:BitrateLimit>%d</tt:BitrateLimit>'',
     ''        </tt:RateControl>'',
     ''      </trt:Configuration>'',
     ''    </trt:GetVideoEncoderConfigurationResponse>'']\<close>

definition getVideoEncoderConfigurationOptionsResponse :: string where
  \<open>getVideoEncoderConfigurationOptionsResponse = joinLines
    ['''',
     ''    <trt:GetVideoEncoderConfigurationOptionsResponse>'',
     ''      <trt:Options>'',
     ''        <tt:H264>'',
     ''          <tt:ResolutionsAvailable>'',
     ''            <tt:Width>%d</tt:Width>'',
     ''            <tt:Height>%d</tt:Height>'',
     ''          </tt:ResolutionsAvailable>'',
     ''          <tt:FrameRateRange>'',
     ''            <tt:Min>1</tt:Min>'',
     ''            <tt:Max>%d</tt:Max>'',
     ''          </tt:FrameRateRange>'',
     ''          <tt:EncodingIntervalRange>'',
     ''            <tt:Min>1</tt:Min>'',
     ''            <tt:Max>1</tt:Max>'',
     ''          </tt:EncodingIntervalRange>'',
     ''          <tt:BitrateRange>'',
     ''            <tt:Min>128</tt:Min>'',
     ''            <tt:Max>%d</tt:Max>'',
     ''          </tt:BitrateRange>'',
     ''          <tt:H264ProfilesSupported>High</tt:H264ProfilesSupported>'',
     ''        </tt:H264>'',
     ''      </trt:Options>'',
     ''    </trt:GetVideoEncoderConfigurationOptionsResponse>'']\<close>

definition getStreamUriResponse :: string where
  \<open>getStreamUriResponse = joinLines
    ['''',
     ''    <trt:GetStreamUriResponse>'',
     ''      <trt:MediaUri>'',
     ''        <tt:Uri>%s</tt:Uri>'',
     ''        <tt:InvalidAfterConnect>false</tt:InvalidAfterConnect>'',
     ''        <tt:InvalidAfterReboot>false</tt:InvalidAfterReboot>'',
     ''        <tt:Timeout>PT60S</tt:Timeout>'',
     ''      </trt:MediaUri>'',
     ''    </trt:GetStreamUriResponse>'']\<close>

definition createPullPointSubscriptionResponse :: string where
  \<open>createPullPointSubscriptionResponse = joinLines
    ['''',
     ''    <tev:CreatePullPointSubscriptionResponse>'',
     ''      <tev:SubscriptionReference>'',
     ''        <wsa:Address>http://%s/onvif/event_service/pullpoint/%s</wsa:Address>'',
     ''      </tev:SubscriptionReference>'',
     ''      <wsnt:CurrentTime>%s</wsnt:CurrentTime>'',
     ''      <wsnt:TerminationTime>%s</wsnt:TerminationTime>'',
     ''    </tev:CreatePullPointSubscriptionResponse>'']\<close>

definition pullMessagesResponse :: string where
  \<open>pullMessagesResponse = joinLines
    ['''',
     ''    <tev:PullMessagesResponse>'',
     ''      <tev:CurrentTime>%s</tev:CurrentTime>'',
     ''      <tev:TerminationTime>%s</tev:TerminationTime>%s'',
     ''    </tev:PullMessagesResponse>'']\<close>

definition notificationMessage :: string where
  \<open>notificationMessage = joinLines
    ['''',
     ''      <wsnt:NotificationMessage>'',
     ''        <wsnt:Topic Dialect="http://www.onvif.org/ver10/tev/topicExpression/ConcreteSet">tns1:RuleEngine/CellMotionDetector/Motion</wsnt:Topic>'',
     ''        <wsnt:Message>'',
     ''          <tt:Message UtcTime="%s" PropertyOperation="Changed">'',
     ''            <tt:Source>'',
     ''              <tt:SimpleItem Name="VideoSourceConfigurationToken" Value="VSC_1"/>'',
     ''              <tt:SimpleItem Name="VideoAnalyticsConfigurationToken" Value="VAC_1"/>'',
     ''              <tt:SimpleItem Name="Rule" Value="MyMotionDetectorRule"/>'',
     ''            </tt:Source>'',
     ''            <tt:Data>'',
     ''              <tt:SimpleItem Name="IsMotion" Value="%s"/>'',
     ''            </tt:Data>'',
     ''          </tt:Message>'',
     ''        </wsnt:Message>'',
     ''      </wsnt:NotificationMessage>'']\<close>

definition getEventPropertiesResponse :: string where
  \<open>getEventPropertiesResponse = joinLines
    ['''',
     ''    <tev:GetEventPropertiesResponse>'',
     ''      <tev:TopicNamespaceLocation>http://www.onvif.org/ver10/topics/topicns.xml</tev:TopicNamespaceLocation>'',
     ''      <wsnt:FixedTopicSet>true</wsnt:FixedTopicSet>'',
     ''      <wstop:TopicSet xmlns:wstop="http://docs.oasis-open.org/wsn/t-1">'',
     ''        <tns1:RuleEngine>'',
     ''          <CellMotionDetector>'',
     ''            <Motion wstop:topic="true">'',
     ''              <tt:MessageDescription IsProperty="true">'',
     ''                <tt:Source>'',
     ''                  <tt:SimpleItemDescription Name="VideoSourceConfigurationToken" Type="tt:ReferenceToken"/>'',
     ''                  <tt:SimpleItemDescription Name="VideoAnalyticsConfigurationToken" Type="tt:ReferenceToken"/>'',
     ''                  <tt:SimpleItemDescription Name="Rule" Type="xs:string"/>'',
     ''                </tt:Source>'',
     ''                <tt:Data>'',
     ''                  <tt:SimpleItemDescription Name="IsMotion" Type="xs:boolean"/>'',
     ''                </tt:Data>'',
     ''              </tt:MessageDescription>'',
     ''            </Motion>'',
     ''          </CellMotionDetector>'',
     ''        </tns1:RuleEngine>'',
     ''      </wstop:TopicSet>'',
     ''      <wsnt:TopicExpressionDialect>http://www.onvif.org/ver10/tev/topicExpression/ConcreteSet</wsnt:TopicExpressionDialect>'',
     ''      <tev:MessageContentFilterDialect>http://www.onvif.org/ver10/tev/messageContentFilter/ItemFilter</tev:MessageContentFilterDialect>'',
     ''    </tev:GetEventPropertiesResponse>'']\<close>

section \<open>Checks\<close>

text \<open>The first day, a leap day and its neighbour, the turn of a year, and the ends of centuries with and without a leap day.\<close>

lemma civil_examples:
  "civil 0 = (1970, 1, 1)" "civil 19782 = (2024, 2, 29)" "civil 19783 = (2024, 3, 1)" "civil 20453 = (2025, 12, 31)"
  "civil 20454 = (2026, 1, 1)" "civil 11016 = (2000, 2, 29)" "civil 47540 = (2100, 2, 28)" "civil 47541 = (2100, 3, 1)"
  by code_simp+

lemma template_verbs:
  "verbs getDeviceInformationResponse = 2" "verbs getCapabilitiesResponse = 3" "verbs getServicesResponse = 3"
  "verbs getVideoSourcesResponse = 2" "verbs getProfilesResponse = 6" "verbs getVideoEncoderConfigurationResponse = 4"
  "verbs getVideoEncoderConfigurationOptionsResponse = 4" "verbs getStreamUriResponse = 1"
  "verbs createPullPointSubscriptionResponse = 4" "verbs pullMessagesResponse = 3" "verbs notificationMessage = 2"
  by code_simp+

end
