(* ===== verification/Onvif_Server.thy ===== *)
theory Onvif_Server
  imports Pullpoint Onvif_Templates
begin

text \<open>
  The ONVIF server of \<^verbatim>\<open>internal/onvif/server.go\<close>: the routing of a request, the recognition of the SOAP action, and the handlers
  of the device, media and event services, of the pull points and of the snapshot, as functions from the request and the
  server's state to the response and the new state. A long poll that finds no events waits: it gives no response yet, and
  \<open>finishPull\<close> gives it when the poll is woken or times out. What the handlers take from outside (clock readings, the new
  subscription's UUID, the latest snapshot) are arguments. The HTTP library delivers the path in its clean form.
\<close>

record ServerConfig =
  CfgListenAddress :: string
  CfgPort :: int
  CfgHostAddr :: string
  CfgRTSPURL :: string
  CfgCameraName :: string
  CfgVideoWidth :: int
  CfgVideoHeight :: int
  CfgVideoFPS :: int
  CfgVideoBitrate :: int
  CfgSnapshots :: bool

record Server =
  svListenAddr :: string
  svPort :: int
  svHostAddr :: string
  svRtspURL :: string
  svSnapshotURL :: string
  svCameraName :: string
  svVideoWidth :: int
  svVideoHeight :: int
  svVideoFPS :: int
  svVideoBitrate :: int
  svPullpoints :: PullPointManager
  svSnapshots :: bool

definition NewServer :: "ServerConfig \<Rightarrow> Server" where
  "NewServer c =
     \<lparr>svListenAddr = CfgListenAddress c, svPort = CfgPort c, svHostAddr = CfgHostAddr c, svRtspURL = CfgRTSPURL c,
      svSnapshotURL = (if CfgSnapshots c then ''http://'' @ CfgHostAddr c @ ''/snapshot.jpg'' else []),
      svCameraName = CfgCameraName c, svVideoWidth = CfgVideoWidth c, svVideoHeight = CfgVideoHeight c, svVideoFPS = CfgVideoFPS c,
      svVideoBitrate = CfgVideoBitrate c, svPullpoints = Map.empty, svSnapshots = CfgSnapshots c\<rparr>"

datatype response =
    HttpError string int
  | Soap string
  | Jpeg bytes
  | Redirect string

section \<open>Requests\<close>

definition soapActions :: "string list" where
  "soapActions =
     [''GetDeviceInformation'', ''GetCapabilities'', ''GetServices'', ''GetProfiles'', ''GetStreamUri'', ''GetVideoSources'',
      ''GetVideoEncoderConfigurationOptions'', ''GetVideoEncoderConfiguration'', ''SetVideoEncoderConfiguration'', ''GetSnapshotUri'',
      ''GetAudioSources'', ''GetAudioEncoderConfigurationOptions'', ''GetEventProperties'', ''CreatePullPointSubscription'',
      ''PullMessages'', ''Renew'', ''Unsubscribe'', ''GetServiceCapabilities'', ''GetSystemDateAndTime'', ''GetScopes'',
      ''GetNetworkInterfaces'']"

definition extractAction :: "bytes \<Rightarrow> string" where
  "extractAction body = (case find (Contains (bytesString body)) soapActions of None \<Rightarrow> [] | Some action \<Rightarrow> action)"

abbreviation maxSOAPBody :: nat where "maxSOAPBody \<equiv> 65536"

text \<open>The argument is what reading the request's body gives; a longer body than the limit is an error.\<close>

definition readBody :: "bytes result \<Rightarrow> bytes result" where
  "readBody r = bindR r (\<lambda>body. if length body > maxSOAPBody then Inl ''http: request body too large'' else Inr body)"

definition writeSOAP :: "string \<Rightarrow> response" where
  "writeSOAP content = Soap (soapEnvelopeHeader @ content @ soapEnvelopeFooter)"

definition badRequest :: response where
  "badRequest = HttpError ''bad request'' 400"

section \<open>Device and media service\<close>

definition deviceInformation :: "Server \<Rightarrow> string" where
  "deviceInformation s = Sprintf getDeviceInformationResponse [svCameraName s, svCameraName s]"

definition dateAndTimeResponse :: string where
  \<open>dateAndTimeResponse = joinLines
    ['''',
     ''    <tds:GetSystemDateAndTimeResponse>'',
     ''      <tds:SystemDateAndTime>'',
     ''        <tt:DateTimeType>NTP</tt:DateTimeType>'',
     ''        <tt:UTCDateTime>'',
     ''          <tt:Time><tt:Hour>%d</tt:Hour><tt:Minute>%d</tt:Minute><tt:Second>%d</tt:Second></tt:Time>'',
     ''          <tt:Date><tt:Year>%d</tt:Year><tt:Month>%d</tt:Month><tt:Day>%d</tt:Day></tt:Date>'',
     ''        </tt:UTCDateTime>'',
     ''      </tds:SystemDateAndTime>'',
     ''    </tds:GetSystemDateAndTimeResponse>'']\<close>

definition scopesResponse :: string where
  \<open>scopesResponse = joinLines
    ['''',
     ''    <tds:GetScopesResponse>'',
     ''      <tds:Scopes>'',
     ''        <tt:ScopeDef>Fixed</tt:ScopeDef>'',
     ''        <tt:ScopeItem>onvif://www.onvif.org/name/%s</tt:ScopeItem>'',
     ''      </tds:Scopes>'',
     ''      <tds:Scopes>'',
     ''        <tt:ScopeDef>Fixed</tt:ScopeDef>'',
     ''        <tt:ScopeItem>onvif://www.onvif.org/type/video_encoder</tt:ScopeItem>'',
     ''      </tds:Scopes>'',
     ''    </tds:GetScopesResponse>'']\<close>

definition handleDeviceService :: "int \<Rightarrow> bytes result \<Rightarrow> Server \<Rightarrow> response" where
  "handleDeviceService now r s =
     (case readBody r of
        Inl _ \<Rightarrow> badRequest
      | Inr body \<Rightarrow>
          let action = extractAction body; t = UTC now; h = svHostAddr s in
          if action = ''GetDeviceInformation'' then writeSOAP (deviceInformation s)
          else if action = ''GetCapabilities'' then writeSOAP (Sprintf getCapabilitiesResponse [h, h, h])
          else if action = ''GetServices'' then writeSOAP (Sprintf getServicesResponse [h, h, h])
          else if action = ''GetSystemDateAndTime''
          then writeSOAP (Sprintf dateAndTimeResponse (map showInt [Hour t, Minute t, Second t, Year t, Month t, Day t]))
          else if action = ''GetScopes'' then writeSOAP (Sprintf scopesResponse [svCameraName s])
          else writeSOAP (deviceInformation s))"

definition profiles :: "Server \<Rightarrow> string" where
  "profiles s = Sprintf getProfilesResponse
     (map showInt [svVideoWidth s, svVideoHeight s, svVideoWidth s, svVideoHeight s, svVideoFPS s, svVideoBitrate s])"

definition handleMediaService :: "bytes result \<Rightarrow> Server \<Rightarrow> response" where
  "handleMediaService r s =
     (case readBody r of
        Inl _ \<Rightarrow> badRequest
      | Inr body \<Rightarrow>
          let action = extractAction body;
              video = map showInt [svVideoWidth s, svVideoHeight s, svVideoFPS s, svVideoBitrate s] in
          if action = ''GetProfiles'' then writeSOAP (profiles s)
          else if action = ''GetStreamUri'' then writeSOAP (Sprintf getStreamUriResponse [svRtspURL s])
          else if action = ''GetVideoSources''
          then writeSOAP (Sprintf getVideoSourcesResponse (map showInt [svVideoWidth s, svVideoHeight s]))
          else if action = ''GetVideoEncoderConfiguration'' then writeSOAP (Sprintf getVideoEncoderConfigurationResponse video)
          else if action = ''GetVideoEncoderConfigurationOptions''
          then writeSOAP (Sprintf getVideoEncoderConfigurationOptionsResponse video)
          else if action = ''SetVideoEncoderConfiguration'' then writeSOAP ''<trt:SetVideoEncoderConfigurationResponse/>''
          else if action = ''GetSnapshotUri''
          then writeSOAP (Sprintf ''<trt:GetSnapshotUriResponse><trt:MediaUri><tt:Uri>%s</tt:Uri></trt:MediaUri></trt:GetSnapshotUriResponse>''
                 [svSnapshotURL s])
          else if action = ''GetAudioSources'' then writeSOAP ''<trt:GetAudioSourcesResponse/>''
          else if action = ''GetAudioEncoderConfigurationOptions'' then writeSOAP ''<trt:GetAudioEncoderConfigurationOptionsResponse/>''
          else if action = ''GetServiceCapabilities''
          then writeSOAP ''<trt:GetServiceCapabilitiesResponse><trt:Capabilities/></trt:GetServiceCapabilitiesResponse>''
          else writeSOAP (profiles s))"

section \<open>Events\<close>

abbreviation subscriptionTime :: int where "subscriptionTime \<equiv> 60000000000"

definition NotifyMotion :: "int \<Rightarrow> bool \<Rightarrow> Server \<Rightarrow> Server" where
  "NotifyMotion now isMotion s = s\<lparr>svPullpoints := FanOut \<lparr>Time = now, IsMotion = isMotion\<rparr> now (svPullpoints s)\<rparr>"

definition cleanupTick :: "int \<Rightarrow> Server \<Rightarrow> Server" where
  "cleanupTick now s = s\<lparr>svPullpoints := CleanExpired now (svPullpoints s)\<rparr>"

definition eventCapabilities :: string where
  \<open>eventCapabilities =
    ''<tev:GetServiceCapabilitiesResponse><tev:Capabilities WSPullPointSupport="true"/></tev:GetServiceCapabilitiesResponse>''\<close>

definition handleEventService :: "string \<Rightarrow> int \<Rightarrow> bytes result \<Rightarrow> Server \<Rightarrow> Server \<times> response" where
  "handleEventService subID now r s =
     (case readBody r of
        Inl _ \<Rightarrow> (s, badRequest)
      | Inr body \<Rightarrow>
          let action = extractAction body in
          if action = ''CreatePullPointSubscription''
          then (case Create subID subscriptionTime now (svPullpoints s) of
                  (m, None) \<Rightarrow> (s\<lparr>svPullpoints := m\<rparr>, HttpError ''too many subscriptions'' 503)
                | (m, Some p) \<Rightarrow>
                    (s\<lparr>svPullpoints := m\<rparr>,
                     writeSOAP (Sprintf createPullPointSubscriptionResponse
                       [svHostAddr s, subID, RFC3339 now, RFC3339 (TerminationTime p)])))
          else if action = ''GetServiceCapabilities'' then (s, writeSOAP eventCapabilities)
          else (s, writeSOAP getEventPropertiesResponse))"

text \<open>\<^verbatim>\<open>strings.Split\<close> at a slash.\<close>

fun splitSlash :: "string \<Rightarrow> string list" where
  "splitSlash [] = [[]]"
| "splitSlash (c # cs) =
     (if c = CHR ''/'' then [] # splitSlash cs
      else case splitSlash cs of [] \<Rightarrow> [[c]] | p # ps \<Rightarrow> (c # p) # ps)"

definition notification :: "MotionEvent \<Rightarrow> string" where
  "notification e = Sprintf notificationMessage [RFC3339 (Time e), if IsMotion e then ''true'' else ''false'']"

definition pullResponse :: "int \<Rightarrow> PullPointSubscription \<Rightarrow> MotionEvent list \<Rightarrow> response" where
  "pullResponse now p es =
     writeSOAP (Sprintf pullMessagesResponse [RFC3339 now, RFC3339 (TerminationTime p), concat (map notification es)])"

definition renewResponse :: string where
  \<open>renewResponse = joinLines
    ['''',
     ''    <wsnt:RenewResponse>'',
     ''      <wsnt:CurrentTime>%s</wsnt:CurrentTime>'',
     ''      <wsnt:TerminationTime>%s</wsnt:TerminationTime>'',
     ''    </wsnt:RenewResponse>'']\<close>

definition handlePullPoint :: "int \<Rightarrow> string \<Rightarrow> bytes result \<Rightarrow> Server \<Rightarrow> Server \<times> response option" where
  "handlePullPoint now path r s =
     (let parts = splitSlash path in
      if length parts < 5 then (s, Some (HttpError ''invalid pullpoint URL'' 400))
      else case readBody r of
        Inl _ \<Rightarrow> (s, Some badRequest)
      | Inr body \<Rightarrow>
          let subID = last parts; action = extractAction body in
          case svPullpoints s subID of
            None \<Rightarrow> (s, Some (HttpError ''subscription not found'' 404))
          | Some p \<Rightarrow>
              (if action = ''PullMessages''
               then (case PullMessages_check p of
                       (p', None) \<Rightarrow> (s\<lparr>svPullpoints := (svPullpoints s)(subID \<mapsto> p')\<rparr>, None)
                     | (p', Some es) \<Rightarrow> (s\<lparr>svPullpoints := (svPullpoints s)(subID \<mapsto> p')\<rparr>, Some (pullResponse now p' es)))
               else if action = ''Renew''
               then let p' = Renew subscriptionTime now p in
                    (s\<lparr>svPullpoints := (svPullpoints s)(subID \<mapsto> p')\<rparr>,
                     Some (writeSOAP (Sprintf renewResponse [RFC3339 now, RFC3339 (TerminationTime p')])))
               else if action = ''Unsubscribe''
               then (s\<lparr>svPullpoints := Remove subID (svPullpoints s)\<rparr>, Some (writeSOAP ''<wsnt:UnsubscribeResponse/>''))
               else (s, Some (HttpError ''unknown action'' 400))))"

text \<open>The end of a waiting poll, on its subscription: a woken poll has received the token.\<close>

definition finishPull :: "int \<Rightarrow> bool \<Rightarrow> PullPointSubscription \<Rightarrow> PullPointSubscription \<times> response" where
  "finishPull now isWoken p0 =
     (case PullMessages_take (if isWoken then PullMessages_receive p0 else p0) of (p, es) \<Rightarrow> (p, pullResponse now p es))"

definition handleSnapshot :: "bytes \<Rightarrow> response" where
  "handleSnapshot jpg = (if jpg = [] then HttpError ''no snapshot available yet'' 503 else Jpeg jpg)"

section \<open>Routing\<close>

definition pullpointPath :: string where
  "pullpointPath = ''/onvif/event_service/pullpoint/''"

definition serveHTTP ::
  "string \<Rightarrow> int \<Rightarrow> bytes \<Rightarrow> string \<Rightarrow> bytes result \<Rightarrow> Server \<Rightarrow> Server \<times> response option" where
  "serveHTTP subID now jpg path r s =
     (if path = ''/onvif/device_service'' then (s, Some (handleDeviceService now r s))
      else if path = ''/onvif/media_service'' then (s, Some (handleMediaService r s))
      else if path = ''/onvif/event_service'' then map_prod id Some (handleEventService subID now r s)
      else if HasPrefix path pullpointPath then handlePullPoint now path r s
      else if path = butlast pullpointPath then (s, Some (Redirect pullpointPath))
      else if svSnapshots s \<and> path = ''/snapshot.jpg'' then (s, Some (handleSnapshot jpg))
      else (s, Some (HttpError ''404 page not found'' 404)))"

end
