(* ===== verification/Onvif_Props.thy ===== *)
theory Onvif_Props
  imports Onvif_Server
begin

text \<open>
  What the ONVIF server guarantees: the SOAP action of a request is recognised, and a motion event reaches every
  subscriber's next poll.
\<close>

section \<open>Recognising the action\<close>

text \<open>No action's name contains an earlier one's, so each name is recognised as itself.\<close>

lemma soapActions_self: "list_all (\<lambda>a. find (Contains a) soapActions = Some a) soapActions"
  unfolding Contains_def by code_simp

lemma Contains_trans: "Contains c b \<Longrightarrow> Contains b a \<Longrightarrow> Contains c a"
  unfolding Contains_def using sublist_order.order_trans by blast

lemma find_first:
  assumes "find P xs = Some a" "\<And>x. P' x \<Longrightarrow> x \<in> set xs \<Longrightarrow> P x" "P' a"
  shows "find P' xs = Some a"
  using assms by (induction xs) (auto split: if_splits)

text \<open>
  A request whose body names an action of the list, and besides it only actions whose names are part of that
  action's name, is dispatched to that action.
\<close>

lemma soap_action_dispatch:
  assumes "a \<in> set soapActions" "Contains (bytesString body) a"
    and "\<forall>b\<in>set soapActions. Contains (bytesString body) b \<longrightarrow> Contains a b"
  shows "extractAction body = a"
proof -
  have "find (Contains a) soapActions = Some a" using soapActions_self assms(1) by (simp add: list_all_iff)
  then have "find (Contains (bytesString body)) soapActions = Some a"
    by (rule find_first) (use assms(2,3) in auto)
  then show ?thesis by (simp add: extractAction_def)
qed

section \<open>Motion events\<close>

datatype onvifEvent = Http string bytes "bytes result" | Motion bool | Cleanup

text \<open>An event with its time and the UUID a new subscription would get.\<close>

type_synonym timedEvent = "int \<times> string \<times> onvifEvent"

fun onvifStep :: "timedEvent \<Rightarrow> Server \<Rightarrow> Server" where
  "onvifStep (now, subID, Http path jpg r) s = fst (serveHTTP subID now jpg path r s)"
| "onvifStep (now, subID, Motion b) s = NotifyMotion now b s"
| "onvifStep (now, subID, Cleanup) s = cleanupTick now s"

fun addresses :: "string \<Rightarrow> timedEvent \<Rightarrow> bool" where
  "addresses i (now, subID, Http path jpg r) = (subID = i \<or> HasPrefix path pullpointPath \<and> last (splitSlash path) = i)"
| "addresses i _ = False"

fun motions :: "timedEvent list \<Rightarrow> MotionEvent list" where
  "motions [] = []"
| "motions ((now, _, Motion b) # es) = \<lparr>Time = now, IsMotion = b\<rparr> # motions es"
| "motions (_ # es) = motions es"

lemma splitSlash_no_slash: "CHR ''/'' \<notin> set xs \<Longrightarrow> splitSlash xs = [xs]"
  by (induction xs) auto

lemma splitSlash_pullpoint:
  assumes "CHR ''/'' \<notin> set i"
  shows "splitSlash (pullpointPath @ i) = ['''', ''onvif'', ''event_service'', ''pullpoint'', i]"
  by (simp add: pullpointPath_def splitSlash_no_slash [OF assms])

lemma Create_other: "i \<noteq> j \<Longrightarrow> m i = Some p \<Longrightarrow> now \<le> TerminationTime p \<Longrightarrow> fst (Create j t now m) i = Some p"
  by (auto simp: Create_def CleanExpired_def IsExpired_def Let_def)

lemma handleEventService_other:
  assumes "svPullpoints s i = Some p" "j \<noteq> i" "now \<le> TerminationTime p"
  shows "svPullpoints (fst (handleEventService j now r s)) i = Some p"
  using assms Create_other [of i j "svPullpoints s" p now subscriptionTime]
  by (auto simp: handleEventService_def Let_def split: sum.splits prod.splits option.splits)

lemma handlePullPoint_other:
  assumes "svPullpoints s i = Some p" "last (splitSlash path) \<noteq> i"
  shows "svPullpoints (fst (handlePullPoint now path r s)) i = Some p"
  using assms by (auto simp: handlePullPoint_def Remove_def Let_def split: sum.splits prod.splits option.splits)

text \<open>Events that are not addressed to a subscription leave it alone, until it expires, except that motions are queued.\<close>

lemma onvifStep_other:
  assumes "svPullpoints s i = Some p" "\<not> addresses i e" "fst e \<le> TerminationTime p"
  shows "\<exists>p'. svPullpoints (onvifStep e s) i = Some p' \<and> TerminationTime p' = TerminationTime p
     \<and> events p' = events p @ motions [e]"
proof (cases "(e, s)" rule: onvifStep.cases)
  case (1 now j path jpg r s')
  then have "svPullpoints (onvifStep e s) i = Some p"
    using assms handleEventService_other [of s i p j now r] handlePullPoint_other [of s i p path now r]
    by (auto simp: serveHTTP_def map_prod_def split: prod.splits)
  then show ?thesis using 1 by simp
next
  case (2 now j b s')
  then show ?thesis using assms by (simp add: NotifyMotion_def FanOut_def IsExpired_def PushEvent_def pull_defs)
next
  case (3 now j s')
  then show ?thesis using assms by (simp add: cleanupTick_def CleanExpired_def IsExpired_def)
qed

lemma onvif_run:
  assumes "svPullpoints s i = Some p" "list_all (\<lambda>e. \<not> addresses i e \<and> fst e \<le> TerminationTime p) es"
  shows "\<exists>p'. svPullpoints (fold onvifStep es s) i = Some p' \<and> TerminationTime p' = TerminationTime p
     \<and> events p' = events p @ motions es"
  using assms
proof (induction es arbitrary: s p)
  case (Cons e es)
  obtain p1 where p1: "svPullpoints (onvifStep e s) i = Some p1" "TerminationTime p1 = TerminationTime p"
    "events p1 = events p @ motions [e]" using onvifStep_other Cons.prems by fastforce
  have "motions (e # es) = motions [e] @ motions es" by (cases "[e]" rule: motions.cases) auto
  then show ?case using Cons.IH [OF p1(1)] Cons.prems(2) p1 by auto
qed simp

text \<open>
  C16. Motion events reach the subscriber. After a subscription was created, whatever requests for other resources, clean-ups and motion
  notifications follow during its 60 seconds, the subscriber's next poll is answered at once with exactly the
  motions notified since, in their order; if there were none, the poll waits.
\<close>

theorem motion_reaches_subscriber:
  assumes "handleEventService i t0 (Inr create) s0 = (s1, Soap c)" "extractAction create = ''CreatePullPointSubscription''"
    and "list_all (\<lambda>e. \<not> addresses i e \<and> fst e \<le> t0 + subscriptionTime) es"
    and "CHR ''/'' \<notin> set i" "length pull \<le> maxSOAPBody" "extractAction pull = ''PullMessages''"
  shows "snd (serveHTTP u now jpg (pullpointPath @ i) (Inr pull) (fold onvifStep es s1)) =
     (if motions es = [] then None
      else Some (Soap (soapEnvelopeHeader @ Sprintf pullMessagesResponse [RFC3339 now, RFC3339 (t0 + subscriptionTime),
             concat (map notification (motions es))] @ soapEnvelopeFooter)))"
proof -
  have "svPullpoints s1 i = Some (NewPullPointSubscription i subscriptionTime t0)"
    using assms(1,2) by (auto simp: handleEventService_def readBody_def badRequest_def Create_def Let_def split: if_splits)
  then obtain p where p: "svPullpoints (fold onvifStep es s1) i = Some p" "TerminationTime p = t0 + subscriptionTime"
    "events p = motions es"
    using onvif_run [of s1 i "NewPullPointSubscription i subscriptionTime t0" es] assms(3) by (auto simp: NewPullPointSubscription_def)
  have path: "pullpointPath @ i \<noteq> ''/onvif/device_service''" "pullpointPath @ i \<noteq> ''/onvif/media_service''"
    "pullpointPath @ i \<noteq> ''/onvif/event_service''" "HasPrefix (pullpointPath @ i) pullpointPath"
    by (simp_all add: pullpointPath_def HasPrefix_def)
  show ?thesis
    using p assms(5,6) path
    by (auto simp: serveHTTP_def handlePullPoint_def splitSlash_pullpoint [OF assms(4)] readBody_def PullMessages_check_def
        pullResponse_def writeSOAP_def Let_def)
qed

definition demoOnvif :: Server where
  "demoOnvif = NewServer \<lparr>CfgListenAddress = [], CfgPort = 8580, CfgHostAddr = ''h:8580'', CfgRTSPURL = ''rtsp://h:8554/live'',
     CfgCameraName = ''cam'', CfgVideoWidth = 1920, CfgVideoHeight = 1080, CfgVideoFPS = 30, CfgVideoBitrate = 2000, CfgSnapshots = True\<rparr>"

lemma demo_actions:
  "extractAction (stringBytes ''<Create CreatePullPointSubscription/>'') = ''CreatePullPointSubscription''"
  "extractAction (stringBytes ''<PullMessages/>'') = ''PullMessages''"
  by (simp_all add: extractAction_def Contains_def) code_simp+

theorem motion_reaches_subscriber_witness:
  "\<exists>s1 c. handleEventService ''s1'' 0 (Inr (stringBytes ''<Create CreatePullPointSubscription/>'')) demoOnvif = (s1, Soap c)
     \<and> (\<exists>m. snd (serveHTTP ''x'' 5 [] (pullpointPath @ ''s1'') (Inr (stringBytes ''<PullMessages/>''))
          (fold onvifStep [(1, ''a'', Motion True), (2, ''b'', Cleanup), (3, ''c'', Motion False)] s1)) = Some (Soap m))"
proof -
  let ?body = "stringBytes ''<Create CreatePullPointSubscription/>''"
  have len: "length ?body \<le> maxSOAPBody" "length (stringBytes ''<PullMessages/>'') \<le> maxSOAPBody" by (simp_all add: stringBytes_def)
  then obtain s1 c where c: "handleEventService ''s1'' 0 (Inr ?body) demoOnvif = (s1, Soap c)"
    by (simp add: handleEventService_def readBody_def demo_actions(1) demoOnvif_def NewServer_def Create_def writeSOAP_def Let_def)
  have es: "list_all (\<lambda>e. \<not> addresses ''s1'' e \<and> fst e \<le> 0 + subscriptionTime)
      [(1, ''a'', Motion True), (2, ''b'', Cleanup), (3, ''c'', Motion False)]" by simp
  have i: "CHR ''/'' \<notin> set ''s1''" by simp
  show ?thesis
    using motion_reaches_subscriber [OF c demo_actions(1) es i len(2) demo_actions(2), of "''x''" 5 "[]"] c by auto
qed

end
