(* ===== verification/Health_Props.thy ===== *)
theory Health_Props
  imports Health
begin

text \<open>
  The two sensors against what they promise: a flag goes up only after the condition lasted for the
  configured time without a break, and as soon as it did; it comes down the same way; and what Home
  Assistant sees is the current state.
\<close>

section \<open>Streaks\<close>

text \<open>
  A component that remembers when a condition began: fed a sample for which the condition holds it keeps
  the start of the streak (or starts one), any other sample ends the streak. Then what it remembers is the
  time of the first sample of the last unbroken run.
\<close>

fun runStart :: "('e \<Rightarrow> bool) \<Rightarrow> ('e \<Rightarrow> int) \<Rightarrow> 'e list \<Rightarrow> int option" where
  "runStart hot stamp [] = None"
| "runStart hot stamp (e # past) =
     (if hot e then Some (case runStart hot stamp past of None \<Rightarrow> stamp e | Some t \<Rightarrow> t) else None)"

text \<open>History lists have the latest sample first.\<close>

lemma runStart_Some:
  "runStart hot stamp past = Some t \<longleftrightarrow>
     (\<exists>run older e. past = run @ e # older \<and> list_all hot (run @ [e]) \<and> stamp e = t \<and> (older = [] \<or> \<not> hot (hd older)))"
proof (induction past)
  case (Cons s past)
  show ?case
  proof
    assume a: "runStart hot stamp (s # past) = Some t"
    then have h: "hot s" by (auto split: if_splits)
    show "\<exists>run older e. s # past = run @ e # older \<and> list_all hot (run @ [e]) \<and> stamp e = t \<and> (older = [] \<or> \<not> hot (hd older))"
    proof (cases "runStart hot stamp past")
      case None
      then have "past = [] \<or> \<not> hot (hd past)" by (cases past) (auto split: if_splits)
      then show ?thesis using a h None by (intro exI [of _ "[]"] exI [of _ past] exI [of _ s]) simp
    next
      case (Some u)
      then have "u = t" using a h by simp
      then obtain run older e where "past = run @ e # older" "list_all hot (run @ [e])" "stamp e = t" "older = [] \<or> \<not> hot (hd older)"
        using Cons.IH Some by auto
      then show ?thesis using h by (intro exI [of _ "s # run"] exI [of _ older] exI [of _ e]) simp
    qed
  next
    assume "\<exists>run older e. s # past = run @ e # older \<and> list_all hot (run @ [e]) \<and> stamp e = t \<and> (older = [] \<or> \<not> hot (hd older))"
    then obtain run older e where r: "s # past = run @ e # older" "list_all hot (run @ [e])" "stamp e = t" "older = [] \<or> \<not> hot (hd older)"
      by blast
    show "runStart hot stamp (s # past) = Some t"
    proof (cases run)
      case Nil
      then have "runStart hot stamp past = None" using r by (cases past) auto
      then show ?thesis using Nil r by simp
    next
      case (Cons s' run')
      then have "runStart hot stamp past = Some t" using r Cons.IH by auto
      then show ?thesis using Cons r by simp
    qed
  qed
qed simp

locale streak_memory =
  fixes start :: "'s \<Rightarrow> int option"
    and feed :: "'e \<Rightarrow> 's \<Rightarrow> 's"
    and hot :: "'e \<Rightarrow> bool"
    and stamp :: "'e \<Rightarrow> int"
  assumes feed_hot: "hot e \<Longrightarrow> start (feed e s) = Some (case start s of None \<Rightarrow> stamp e | Some t \<Rightarrow> t)"
    and feed_cold: "\<not> hot e \<Longrightarrow> start (feed e s) = None"
begin

lemma start_run: "start s = None \<Longrightarrow> start (foldr feed past s) = runStart hot stamp past"
  by (induction past) (simp_all add: feed_hot feed_cold)

end

section \<open>Frame drops\<close>

text \<open>What reaches the frame-drop state of one camera: samples, and fresh starts of the stream.\<close>

datatype dropEvent = Sample int rat u64 | FreshStart int

fun dropFeed :: "Config \<Rightarrow> dropEvent \<Rightarrow> camState \<Rightarrow> camState" where
  "dropFeed cf (Sample now loss d) c = fst (applyStats cf loss d now c)"
| "dropFeed cf (FreshStart now) c = fst (resetDrop now c)"

fun dropTime :: "dropEvent \<Rightarrow> int" where
  "dropTime (Sample now _ _) = now"
| "dropTime (FreshStart now) = now"

definition clearThreshold :: "Config \<Rightarrow> rat" where
  "clearThreshold cf = roundFloat64 (DropThreshold cf / 2)"

fun highLoss :: "Config \<Rightarrow> dropEvent \<Rightarrow> bool" where
  "highLoss cf (Sample _ loss _) = (loss \<ge> DropThreshold cf)"
| "highLoss cf (FreshStart _) = False"

fun lowLoss :: "Config \<Rightarrow> dropEvent \<Rightarrow> bool" where
  "lowLoss cf (Sample _ loss _) = (loss < DropThreshold cf \<and> loss \<le> clearThreshold cf)"
| "lowLoss cf (FreshStart _) = False"

interpretation high: streak_memory dropHighStart "dropFeed cf" "highLoss cf" dropTime for cf
proof unfold_locales
  fix e c
  show "highLoss cf e \<Longrightarrow> dropHighStart (dropFeed cf e c) = Some (case dropHighStart c of None \<Rightarrow> dropTime e | Some t \<Rightarrow> t)"
    by (cases e) (auto simp: applyStats_def startIfZero_def Let_def split: option.split)
  show "\<not> highLoss cf e \<Longrightarrow> dropHighStart (dropFeed cf e c) = None"
    by (cases e) (auto simp: applyStats_def resetDrop_def Let_def)
qed

interpretation low: streak_memory dropLowStart "dropFeed cf" "lowLoss cf" dropTime for cf
proof unfold_locales
  fix e c
  show "lowLoss cf e \<Longrightarrow> dropLowStart (dropFeed cf e c) = Some (case dropLowStart c of None \<Rightarrow> dropTime e | Some t \<Rightarrow> t)"
    by (cases e) (auto simp: applyStats_def startIfZero_def clearThreshold_def Let_def split: option.split)
  show "\<not> lowLoss cf e \<Longrightarrow> dropLowStart (dropFeed cf e c) = None"
    by (cases e) (auto simp: applyStats_def resetDrop_def clearThreshold_def Let_def)
qed

text \<open>
  The specification: a flag over the history, raised when a run of high-loss samples up to now lasts the
  window, lowered when a run of low-loss samples lasts the clear window or the stream starts afresh.
\<close>

definition lasts :: "int \<Rightarrow> int \<Rightarrow> int option \<Rightarrow> bool" where
  "lasts w now s = (case s of None \<Rightarrow> False | Some t \<Rightarrow> now - t \<ge> w)"

fun dropSpec :: "Config \<Rightarrow> dropEvent list \<Rightarrow> bool" where
  "dropSpec cf [] = False"
| "dropSpec cf (FreshStart _ # past) = False"
| "dropSpec cf (Sample now loss d # past) =
     (let h = Sample now loss d # past in
      if highLoss cf (Sample now loss d)
      then dropSpec cf past \<or> lasts (DropWindow cf) now (runStart (highLoss cf) dropTime h)
      else if lowLoss cf (Sample now loss d)
      then dropSpec cf past \<and> \<not> lasts (DropClearWindow cf) now (runStart (lowLoss cf) dropTime h)
      else dropSpec cf past)"

text \<open>
  C11. The frame-drop sensor refines its specification: over every history of samples and fresh starts, the
  flag the code keeps is the flag of the specification, which goes up exactly when the loss has stayed at
  or above the threshold for the window, and comes down exactly when it has stayed at or
  below half the threshold for the clear window, or the stream started afresh.
\<close>

theorem frame_drop_refinement:
  "degraded (foldr (dropFeed cf) history (newCam now0 n)) = dropSpec cf history"
proof (induction history)
  case Nil
  show ?case by (simp add: newCam_def)
next
  case (Cons e past)
  define c where "c = foldr (dropFeed cf) past (newCam now0 n)"
  have n: "dropHighStart (newCam now0 n) = None" "dropLowStart (newCam now0 n) = None" by (simp_all add: newCam_def)
  have hs: "dropHighStart (dropFeed cf e c) = runStart (highLoss cf) dropTime (e # past)"
    using high.start_run [OF n(1), of cf "e # past"] by (simp add: c_def)
  have ls: "dropLowStart (dropFeed cf e c) = runStart (lowLoss cf) dropTime (e # past)"
    using low.start_run [OF n(2), of cf "e # past"] by (simp add: c_def)
  have IH: "degraded c = dropSpec cf past" using Cons.IH by (simp add: c_def)
  show ?case
  proof (cases e)
    case (FreshStart now)
    then show ?thesis by (simp add: resetDrop_def Let_def)
  next
    case (Sample now loss d)
    have "degraded (dropFeed cf e c) =
       (if highLoss cf e then degraded c \<or> sustained (DropWindow cf) now (dropHighStart (dropFeed cf e c))
        else if lowLoss cf e then degraded c \<and> \<not> sustained (DropClearWindow cf) now (dropLowStart (dropFeed cf e c))
        else degraded c)"
      by (auto simp: Sample applyStats_def clearThreshold_def Let_def)
    then show ?thesis
      using hs ls IH Sample by (auto simp: c_def [symmetric] sustained_def lasts_def)
  qed
qed

section \<open>Stream problems\<close>

datatype problemEvent = Failure int string | Success int | TickAt int

fun problemFeed :: "Config \<Rightarrow> problemEvent \<Rightarrow> camState \<Rightarrow> camState" where
  "problemFeed cf (Failure now err) c = fst (applyEvent cf False err now c)"
| "problemFeed cf (Success now) c = fst (applyEvent cf True [] now c)"
| "problemFeed cf (TickAt now) c = fst (promote cf now c)"

text \<open>The times of the failures of the current streak, latest first: no success and no pause of three minutes between them.\<close>

fun failStreak :: "problemEvent list \<Rightarrow> int list" where
  "failStreak [] = []"
| "failStreak (Success _ # past) = []"
| "failStreak (TickAt _ # past) = failStreak past"
| "failStreak (Failure now _ # past) =
     (case failStreak past of [] \<Rightarrow> [now] | t # ts \<Rightarrow> if now - t > staleGap then [now] else now # t # ts)"

definition streakLasts :: "Config \<Rightarrow> int \<Rightarrow> int list \<Rightarrow> bool" where
  "streakLasts cf now ts \<longleftrightarrow> ts \<noteq> [] \<and> now - last ts \<ge> WedgeAfter cf"

fun problemSpec :: "Config \<Rightarrow> problemEvent list \<Rightarrow> bool" where
  "problemSpec cf [] = False"
| "problemSpec cf (Success _ # past) = False"
| "problemSpec cf (TickAt now # past) = (problemSpec cf past \<or> streakLasts cf now (failStreak past))"
| "problemSpec cf (Failure now err # past) = (problemSpec cf past \<or> streakLasts cf now (failStreak (Failure now err # past)))"

definition problemState :: "Config \<Rightarrow> problemEvent list \<Rightarrow> camState \<Rightarrow> bool" where
  "problemState cf h c \<longleftrightarrow>
     problem c = problemSpec cf h \<and> failCount c = int (length (failStreak h))
     \<and> firstFail c = (if failStreak h = [] then None else Some (last (failStreak h)))
     \<and> lastFail c = (if failStreak h = [] then None else Some (hd (failStreak h)))"

lemma problemFeed_state: "problemState cf past c \<Longrightarrow> problemState cf (e # past) (problemFeed cf e c)"
proof (induction e)
  case (Failure now err)
  then show ?case
    by (cases "failStreak past") (auto simp: problemState_def applyEvent_def promote_def streakLasts_def Let_def)
qed (auto simp: problemState_def applyEvent_def promote_def streakLasts_def Let_def split: option.split)

lemma problem_history: "problemState cf h (foldr (problemFeed cf) h (newCam now0 n))"
proof (induction h)
  case Nil
  show ?case by (simp add: problemState_def newCam_def)
qed (simp add: problemFeed_state)


text \<open>
  One failed start is enough for the flag: if no client tries again, the periodic check counts the silence as
  failure and raises the flag when \<^verbatim>\<open>WedgeAfter\<close> has passed.
\<close>

lemma single_failure_flags:
  assumes "now \<ge> t + WedgeAfter cf"
  shows "problem (foldr (problemFeed cf) [TickAt now, Failure t err] (newCam now0 n))"
  using problem_history [of cf "[TickAt now, Failure t err]" now0 n] assms by (simp add: problemState_def streakLasts_def)

section \<open>What Home Assistant sees\<close>

text \<open>The broker keeps the last message of each topic.\<close>

fun retain :: "message list \<Rightarrow> (string \<rightharpoonup> json) \<Rightarrow> (string \<rightharpoonup> json)" where
  "retain [] m = m"
| "retain (Publish t v # ms) m = retain ms (m(t \<mapsto> v))"

lemma retain_append [simp]: "retain (xs @ ys) m = retain ys (retain xs m)"
proof (induction xs arbitrary: m)
  case (Cons x xs)
  then show ?case by (cases x) (simp del: fun_upd_apply)
qed simp

text \<open>State topics differ from all other topics, and between cameras with different slugs.\<close>

lemma topic_inj [simp]:
  "stateTopic r c = stateTopic r d \<longleftrightarrow> slug c = slug d" "dropStateTopic r c = dropStateTopic r d \<longleftrightarrow> slug c = slug d"
  by (simp_all add: stateTopic_def dropStateTopic_def)

lemma topic_endings:
  "last (stateTopic r c) = CHR ''e''" "last (dropStateTopic r c) = CHR ''e''" "last (attrTopic r c) = CHR ''s''"
  "last (dropAttrTopic r c) = CHR ''s''" "last (statusTopic r) = CHR ''s''"
  by (simp_all add: stateTopic_def dropStateTopic_def attrTopic_def dropAttrTopic_def statusTopic_def)

lemma last_neq: "last x \<noteq> last y \<Longrightarrow> x \<noteq> y"
  by auto

lemma topic_other [simp]:
  "stateTopic r c \<noteq> dropStateTopic r d" "dropStateTopic r d \<noteq> stateTopic r c"
  "stateTopic r c \<noteq> attrTopic r d" "attrTopic r d \<noteq> stateTopic r c"
  "stateTopic r c \<noteq> dropAttrTopic r d" "dropAttrTopic r d \<noteq> stateTopic r c"
  "dropStateTopic r c \<noteq> attrTopic r d" "attrTopic r d \<noteq> dropStateTopic r c"
  "dropStateTopic r c \<noteq> dropAttrTopic r d" "dropAttrTopic r d \<noteq> dropStateTopic r c"
  "stateTopic r c \<noteq> statusTopic r" "dropStateTopic r c \<noteq> statusTopic r"
proof -
  show 1: "stateTopic r c \<noteq> dropStateTopic r d" "dropStateTopic r d \<noteq> stateTopic r c"
    by (auto simp: stateTopic_def dropStateTopic_def dest: arg_cong [where f = "\<lambda>s. take 13 (rev s)"])
  show "stateTopic r c \<noteq> attrTopic r d" "attrTopic r d \<noteq> stateTopic r c"
    "stateTopic r c \<noteq> dropAttrTopic r d" "dropAttrTopic r d \<noteq> stateTopic r c"
    "dropStateTopic r c \<noteq> attrTopic r d" "attrTopic r d \<noteq> dropStateTopic r c"
    "dropStateTopic r c \<noteq> dropAttrTopic r d" "dropAttrTopic r d \<noteq> dropStateTopic r c"
    "stateTopic r c \<noteq> statusTopic r" "dropStateTopic r c \<noteq> statusTopic r"
    by (rule last_neq; simp add: topic_endings)+
qed

text \<open>The published state is current for a camera, and for all.\<close>

definition camCurrent :: "Reporter \<Rightarrow> (string \<rightharpoonup> json) \<Rightarrow> camState \<Rightarrow> bool" where
  "camCurrent r m c \<longleftrightarrow> m (stateTopic r c) = Some (onOff (problem c)) \<and> m (dropStateTopic r c) = Some (onOff (degraded c))"

definition current :: "Reporter \<Rightarrow> (string \<rightharpoonup> json) \<Rightarrow> bool" where
  "current r m \<longleftrightarrow> (\<forall>n c. cams r n = Some c \<longrightarrow> camCurrent r m c)"

definition slugsDistinct :: "Reporter \<Rightarrow> bool" where
  "slugsDistinct r \<longleftrightarrow> (\<forall>n k c d. cams r n = Some c \<longrightarrow> cams r k = Some d \<longrightarrow> slug c = slug d \<longrightarrow> n = k)"

text \<open>A handler for one camera: it keeps the slug, publishes on the camera's topics only, and leaves them current.\<close>

definition camHandler :: "Reporter \<Rightarrow> (camState \<Rightarrow> camState \<times> message list) \<Rightarrow> bool" where
  "camHandler r h \<longleftrightarrow>
     (\<forall>c c' ms m. h c = (c', ms) \<longrightarrow> slug c' = slug c
        \<and> (camCurrent r m c \<longrightarrow> camCurrent r (retain ms m) c')
        \<and> (\<forall>d. slug d \<noteq> slug c \<longrightarrow> camCurrent r (retain ms m) d = camCurrent r m d))"

lemmas transition_defs = applyStats_def resetDrop_def applyEvent_def promote_def Let_def
lemmas publish_defs = publishState_def publishDropState_def publishAttributes_def publishDropAttributes_def

lemma applyStats_keeps:
  "applyStats cf loss d now c = (c', ch) \<Longrightarrow>
     slug c' = slug c \<and> problem c' = problem c \<and> (ch \<longleftrightarrow> degraded c' \<noteq> degraded c)"
  by (auto simp: transition_defs split: if_splits)

lemma promote_keeps:
  "promote cf now c = (c', ch) \<Longrightarrow> slug c' = slug c \<and> degraded c' = degraded c \<and> (ch \<longleftrightarrow> problem c' \<noteq> problem c)"
  by (auto simp: promote_def split: if_splits option.splits)

lemma applyEvent_keeps:
  "applyEvent cf ok err now c = (c', ch) \<Longrightarrow> slug c' = slug c \<and> degraded c' = degraded c \<and> (ch \<longleftrightarrow> problem c' \<noteq> problem c)"
  by (auto simp: applyEvent_def Let_def split: if_splits dest!: promote_keeps)

lemma resetDrop_keeps:
  "resetDrop now c = (c', ch) \<Longrightarrow> slug c' = slug c \<and> problem c' = problem c \<and> (ch \<longleftrightarrow> degraded c' \<noteq> degraded c)"
  by (auto simp: resetDrop_def Let_def split: if_splits)

lemma onOff_inj [simp]: "onOff a = onOff b \<longleftrightarrow> a = b"
  by (simp add: onOff_def)

lemma camCurrent_publish [simp]:
  "camCurrent r (m(attrTopic r x \<mapsto> v)) c = camCurrent r m c" "camCurrent r (m(dropAttrTopic r x \<mapsto> v)) c = camCurrent r m c"
  "slug x \<noteq> slug c \<Longrightarrow> camCurrent r (m(stateTopic r x \<mapsto> v)) c = camCurrent r m c"
  "slug x \<noteq> slug c \<Longrightarrow> camCurrent r (m(dropStateTopic r x \<mapsto> v)) c = camCurrent r m c"
  by (auto simp: camCurrent_def)

lemma camCurrent_upd [simp]:
  "slug x = slug c \<Longrightarrow> camCurrent r (m(stateTopic r x \<mapsto> onOff b)) c \<longleftrightarrow> b = problem c \<and> m (dropStateTopic r c) = Some (onOff (degraded c))"
  "slug x = slug c \<Longrightarrow> camCurrent r (m(dropStateTopic r x \<mapsto> onOff b)) c \<longleftrightarrow> m (stateTopic r c) = Some (onOff (problem c)) \<and> b = degraded c"
  by (auto simp: camCurrent_def)

lemma camCurrent_cong:
  assumes "slug c = slug d" "problem c = problem d" "degraded c = degraded d"
  shows "camCurrent r m c = camCurrent r m d"
proof -
  have "stateTopic r c = stateTopic r d" "dropStateTopic r c = dropStateTopic r d" using assms(1) by simp_all
  then show ?thesis using assms by (simp add: camCurrent_def del: topic_inj)
qed

text \<open>Publishing the changed flag makes the camera current again.\<close>

lemma camCurrent_problem:
  assumes "slug c' = slug c" "degraded c' = degraded c" "camCurrent r m c"
  shows "camCurrent r (m(stateTopic r c' \<mapsto> onOff (problem c'))) c'"
proof -
  have "dropStateTopic r c' = dropStateTopic r c" using assms(1) by simp
  then show ?thesis using assms by (simp add: camCurrent_def del: topic_inj)
qed

lemma camCurrent_degraded:
  assumes "slug c' = slug c" "problem c' = problem c" "camCurrent r m c"
  shows "camCurrent r (m(dropStateTopic r c' \<mapsto> onOff (degraded c'))) c'"
proof -
  have "stateTopic r c' = stateTopic r c" using assms(1) by simp
  then show ?thesis using assms by (simp add: camCurrent_def del: topic_inj)
qed

lemma camHandler_stats: "camHandler r (handleStats r p d f now)"
  unfolding camHandler_def
proof (intro allI impI)
  fix c c' ms m
  assume h: "handleStats r p d f now c = (c', ms)"
  obtain c1 ch where a: "applyStats (cfg r) (lossFraction p d) f now c = (c1, ch)" by fastforce
  note K = applyStats_keeps [OF a]
  define ms1 where "ms1 = (if ch then [publishDropState r c1] else [])"
  have ms: "ms = ms1 \<or> ms = ms1 @ [publishDropAttributes r c1]" and c': "slug c' = slug c1" "problem c' = problem c1" "degraded c' = degraded c1"
    using h by (auto simp: handleStats_def a ms1_def split: if_splits)
  have r: "camCurrent r (retain ms m) x = camCurrent r (retain ms1 m) x" for x
    using ms by (auto simp: publishDropAttributes_def simp del: fun_upd_apply)
  have "camCurrent r (retain ms1 m) c1" if "camCurrent r m c"
    using K that camCurrent_degraded [of c1 c r m] camCurrent_cong [of c1 c r m]
    by (auto simp: ms1_def publishDropState_def simp del: fun_upd_apply)
  moreover have "camCurrent r (retain ms1 m) x = camCurrent r m x" if "slug x \<noteq> slug c" for x
    using K that by (auto simp: ms1_def publishDropState_def simp del: fun_upd_apply)
  ultimately show "slug c' = slug c \<and> (camCurrent r m c \<longrightarrow> camCurrent r (retain ms m) c')
        \<and> (\<forall>d. slug d \<noteq> slug c \<longrightarrow> camCurrent r (retain ms m) d = camCurrent r m d)"
    using K c' r camCurrent_cong [of c' c1] by auto
qed

lemma camHandler_result: "camHandler r (handleResult r ok err now)"
  unfolding camHandler_def
proof (intro allI impI)
  fix c c' ms m
  assume h: "handleResult r ok err now c = (c', ms)"
  obtain c1 ch where a: "applyEvent (cfg r) ok err now c = (c1, ch)" by fastforce
  obtain c2 dch where b: "resetDrop now c1 = (c2, dch)" by fastforce
  note A = applyEvent_keeps [OF a] and B = resetDrop_keeps [OF b]
  define m1 where "m1 = retain ((if ch then [publishState r c1] else []) @ [publishAttributes r c1]) m"
  have cur1: "camCurrent r m1 c1" if "camCurrent r m c"
    using A that camCurrent_problem [of c1 c r m] camCurrent_cong [of c1 c r m]
    by (auto simp: m1_def publishState_def publishAttributes_def simp del: fun_upd_apply)
  have oth1: "camCurrent r m1 x = camCurrent r m x" if "slug x \<noteq> slug c" for x
    using A that by (auto simp: m1_def publishState_def publishAttributes_def simp del: fun_upd_apply)
  have cur2: "camCurrent r (retain (if dch then [publishDropState r c2] else []) m1) c2" if "camCurrent r m c"
    using B cur1 [OF that] camCurrent_degraded [of c2 c1 r m1] camCurrent_cong [of c2 c1 r m1]
    by (auto simp: publishDropState_def simp del: fun_upd_apply)
  have oth2: "camCurrent r (retain (if dch then [publishDropState r c2] else []) m1) x = camCurrent r m x" if "slug x \<noteq> slug c" for x
    using A B that oth1 by (auto simp: publishDropState_def simp del: fun_upd_apply)
  have "(ok \<and> c' = c2 \<and> retain ms m = retain (if dch then [publishDropState r c2] else []) m1) \<or> (\<not> ok \<and> c' = c1 \<and> retain ms m = m1)"
    using h by (auto simp: handleResult_def a b m1_def Let_def publish_defs simp del: fun_upd_apply split: if_splits)
  then show "slug c' = slug c \<and> (camCurrent r m c \<longrightarrow> camCurrent r (retain ms m) c')
        \<and> (\<forall>d. slug d \<noteq> slug c \<longrightarrow> camCurrent r (retain ms m) d = camCurrent r m d)"
    using A B cur1 cur2 oth1 oth2 by (elim disjE conjE) simp_all
qed

definition tickHandler :: "Reporter \<Rightarrow> int \<Rightarrow> camState \<Rightarrow> camState \<times> message list" where
  "tickHandler r now c =
     (if firstFail c = None then (c, [])
      else let (c', changed) = promote (cfg r) now c in (c', if changed then [publishState r c'] else []))"

lemma camHandler_tick: "camHandler r (tickHandler r now)"
  unfolding camHandler_def
proof (intro allI impI)
  fix c c' ms m
  assume h: "tickHandler r now c = (c', ms)"
  obtain c1 ch where a: "promote (cfg r) now c = (c1, ch)" by fastforce
  note A = promote_keeps [OF a]
  have "(c' = c \<and> ms = []) \<or> (c' = c1 \<and> ms = (if ch then [publishState r c1] else []))"
    using h by (auto simp: tickHandler_def a split: if_splits)
  then show "slug c' = slug c \<and> (camCurrent r m c \<longrightarrow> camCurrent r (retain ms m) c')
        \<and> (\<forall>d. slug d \<noteq> slug c \<longrightarrow> camCurrent r (retain ms m) d = camCurrent r m d)"
    using A camCurrent_problem [of c1 c r m] camCurrent_cong [of c1 c r m]
    by (cases ch) (auto simp: publishState_def simp del: fun_upd_apply)
qed

lemma camCurrent_cfg: "cfg s = cfg r \<Longrightarrow> camCurrent s m c = camCurrent r m c"
  by (simp add: camCurrent_def stateTopic_def dropStateTopic_def)

lemma handled_current:
  assumes "camHandler r h" "current r m" "slugsDistinct r" "cams r n = Some c" "h c = (c', ms)"
  shows "current (setCam n c' r) (retain ms m) \<and> slugsDistinct (setCam n c' r)"
proof
  have H: "slug c' = slug c" "camCurrent r m c \<Longrightarrow> camCurrent r (retain ms m) c'"
    "\<And>d. slug d \<noteq> slug c \<Longrightarrow> camCurrent r (retain ms m) d = camCurrent r m d"
    using assms(1,5) by (auto simp: camHandler_def)
  show "slugsDistinct (setCam n c' r)"
    using assms(3,4) H(1) by (auto simp: slugsDistinct_def setCam_def)
  have "camCurrent r (retain ms m) d" if "cams (setCam n c' r) k = Some d" for k d
  proof (cases "k = n")
    case True
    then show ?thesis using that H(2) assms(2,4) by (auto simp: setCam_def current_def)
  next
    case False
    then have k: "cams r k = Some d" using that by (simp add: setCam_def)
    then have "slug d \<noteq> slug c" using False assms(3,4) by (auto simp: slugsDistinct_def)
    then show ?thesis using H(3) k assms(2) by (auto simp: current_def)
  qed
  then show "current (setCam n c' r) (retain ms m)"
    using camCurrent_cfg [of "setCam n c' r" r] by (simp add: current_def setCam_def)
qed

datatype healthInput = HEvent event int | HTick "string list" int | HConnect "string list"

fun healthStep :: "healthInput \<Rightarrow> Reporter \<times> (string \<rightharpoonup> json) \<Rightarrow> Reporter \<times> (string \<rightharpoonup> json)" where
  "healthStep (HEvent e now) (r, m) = (let (r', ms) = handleEvent e now r in (r', retain ms m))"
| "healthStep (HTick order now) (r, m) = (let (r', ms) = handleTick order now r in (r', retain ms m))"
| "healthStep (HConnect order) (r, m) = (r, retain (onConnect order r) m)"

lemma handleEvent_current:
  assumes "current r m" "slugsDistinct r" "handleEvent e now r = (r', ms)"
  shows "current r' (retain ms m) \<and> slugsDistinct r'"
proof (cases "cams r (eventCamera e)")
  case None
  then show ?thesis using assms by (simp add: handleEvent_def)
next
  case (Some c)
  show ?thesis
  proof (cases e)
    case (StreamResult n ok err)
    obtain c' ms' where h: "handleResult r ok err now c = (c', ms')" by fastforce
    show ?thesis using handled_current [OF camHandler_result assms(1,2) Some h] assms(3) StreamResult Some h
      by (simp add: handleEvent_def)
  next
    case (Stats n p d f i)
    obtain c' ms' where h: "handleStats r p d f now c = (c', ms')" by fastforce
    show ?thesis using handled_current [OF camHandler_stats assms(1,2) Some h] assms(3) Stats Some h
      by (simp add: handleEvent_def)
  qed
qed

lemma tickCam_current:
  assumes "current r (retain ms m)" "slugsDistinct r" "tickCam now n (r, ms) = (r', ms')"
  shows "current r' (retain ms' m) \<and> slugsDistinct r'"
proof (cases "cams r n")
  case None
  then show ?thesis using assms by (simp add: tickCam_def)
next
  case (Some c)
  obtain c' ms1 where h: "tickHandler r now c = (c', ms1)" by fastforce
  have "(r' = r \<and> ms' = ms) \<or> (r' = setCam n c' r \<and> ms' = ms @ ms1)"
    using assms(3) h Some by (auto simp: tickCam_def tickHandler_def Let_def split: if_splits prod.splits)
  then show ?thesis
    using handled_current [OF camHandler_tick assms(1,2) Some h] assms(1,2) by auto
qed

lemma handleTick_current:
  assumes "current r (retain ms m)" "slugsDistinct r" "fold (tickCam now) order (r, ms) = (r', ms')"
  shows "current r' (retain ms' m) \<and> slugsDistinct r'"
  using assms
proof (induction order arbitrary: r ms)
  case (Cons n order)
  obtain r1 ms1 where t: "tickCam now n (r, ms) = (r1, ms1)" by fastforce
  show ?case using Cons.IH [of r1 ms1] tickCam_current [OF Cons.prems(1,2) t] Cons.prems(3) t by simp
qed simp

lemma discovery_other [simp]:
  "Publish t v = publishDiscovery r c \<Longrightarrow> t \<noteq> stateTopic r d \<and> t \<noteq> dropStateTopic r d"
  "Publish t v = publishDropDiscovery r c \<Longrightarrow> t \<noteq> stateTopic r d \<and> t \<noteq> dropStateTopic r d"
  by (auto simp: publishDiscovery_def publishDropDiscovery_def discovery_def Let_def topic_endings intro!: last_neq)

lemma camMessages_current:
  "camCurrent r (retain (camMessages r c) m) d \<longleftrightarrow>
     (if slug d = slug c then problem d = problem c \<and> degraded d = degraded c else camCurrent r m d)"
proof -
  obtain t1 v1 t2 v2 where d: "publishDiscovery r c = Publish t1 v1" "publishDropDiscovery r c = Publish t2 v2"
    by (metis message.exhaust)
  have t: "t1 \<noteq> stateTopic r d" "t1 \<noteq> dropStateTopic r d" "t2 \<noteq> stateTopic r d" "t2 \<noteq> dropStateTopic r d"
    using discovery_other(1) [OF d(1) [symmetric]] discovery_other(2) [OF d(2) [symmetric]] by simp_all
  show ?thesis
    using t by (auto simp: camMessages_def d publish_defs camCurrent_def)
qed

lemma onConnect_current:
  assumes "slugsDistinct r" "dom (cams r) \<subseteq> set order"
  shows "current r (retain (onConnect order r) m)"
proof -
  define msgs where "msgs n = (case cams r n of None \<Rightarrow> [] | Some c \<Rightarrow> camMessages r c)" for n
  have "camCurrent r (retain (concat (map msgs ns)) m) c" if "cams r n = Some c" "n \<in> set ns \<or> camCurrent r m c" for n c ns m
    using that(2)
  proof (induction ns arbitrary: m)
    case (Cons k ns)
    have "n \<in> set ns \<or> camCurrent r (retain (msgs k) m) c"
    proof (cases "cams r k")
      case None
      then show ?thesis using Cons.prems that(1) by (auto simp: msgs_def)
    next
      case (Some d)
      have "slug c = slug d \<Longrightarrow> c = d" using Some that(1) assms(1) by (fastforce simp: slugsDistinct_def)
      then show ?thesis using Cons.prems that(1) Some by (auto simp: msgs_def camMessages_current)
    qed
    then show ?case using Cons.IH by simp
  qed simp
  moreover have "onConnect order r = Publish (statusTopic r) (JStr ''online'') # concat (map msgs order)"
    by (simp add: onConnect_def msgs_def [abs_def])
  ultimately show ?thesis
    using assms(2) by (auto simp: current_def dom_def subset_iff)
qed

lemma handleEvent_dom: "handleEvent e now r = (r', ms) \<Longrightarrow> dom (cams r') = dom (cams r)"
  by (auto simp: handleEvent_def setCam_def Let_def split: option.splits prod.splits if_splits)

lemma tickCam_dom: "tickCam now n (r, ms) = (r', ms') \<Longrightarrow> dom (cams r') = dom (cams r)"
  by (auto simp: tickCam_def setCam_def Let_def split: option.splits prod.splits if_splits)

lemma handleTick_dom: "fold (tickCam now) order (r, ms) = (r', ms') \<Longrightarrow> dom (cams r') = dom (cams r)"
proof (induction order arbitrary: r ms)
  case (Cons n order)
  obtain r1 ms1 where t: "tickCam now n (r, ms) = (r1, ms1)" by fastforce
  show ?case using Cons.IH [of r1 ms1] tickCam_dom [OF t] Cons.prems t by simp
qed simp

text \<open>A reconnection visits every camera.\<close>

fun visitsAll :: "string set \<Rightarrow> healthInput \<Rightarrow> bool" where
  "visitsAll names (HConnect order) = (names \<subseteq> set order)"
| "visitsAll names _ = True"

lemma healthStep_current:
  assumes "current r m" "slugsDistinct r" "visitsAll (dom (cams r)) i" "healthStep i (r, m) = (r', m')"
  shows "current r' m' \<and> slugsDistinct r' \<and> dom (cams r') = dom (cams r)"
proof (cases i)
  case (HEvent e now)
  obtain r1 ms where h: "handleEvent e now r = (r1, ms)" by fastforce
  show ?thesis using handleEvent_current [OF assms(1,2) h] handleEvent_dom [OF h] assms(4) HEvent h by simp
next
  case (HTick order now)
  obtain r1 ms where h: "fold (tickCam now) order (r, []) = (r1, ms)" by fastforce
  show ?thesis
    using handleTick_current [OF _ assms(2) h, of m] handleTick_dom [OF h] assms(1,4) HTick h by (simp add: handleTick_def)
next
  case (HConnect order)
  then show ?thesis using onConnect_current [OF assms(2)] assms by auto
qed

text \<open>
  Home Assistant sees the current state. Once the reporter has (re)connected to the broker, then over every
  sequence of events, periodic checks and reconnections, the retained message of each camera's state topics says
  what the camera's flags are, provided the cameras' slugs differ.
\<close>

lemma published_state_current:
  assumes "slugsDistinct r" "dom (cams r) \<subseteq> set order" "list_all (visitsAll (dom (cams r))) ins"
    and "fold healthStep ins (r, retain (onConnect order r) m0) = (r', m')"
  shows "current r' m'"
proof -
  have "current r' m'" if "current r m" "slugsDistinct r" "dom (cams r) = D" "list_all (visitsAll D) ins" "fold healthStep ins (r, m) = (r', m')" for r m D
    using that
  proof (induction ins arbitrary: r m)
    case (Cons i ins)
    obtain r1 m1 where h: "healthStep i (r, m) = (r1, m1)" by fastforce
    have "visitsAll (dom (cams r)) i" using Cons.prems(3,4) by simp
    from healthStep_current [OF Cons.prems(1,2) this h] show ?case
      using Cons.IH [of r1 m1] Cons.prems(3,4,5) h by simp
  qed simp
  from this [OF onConnect_current [OF assms(1,2)] assms(1) refl assms(3,4)] show ?thesis .
qed

section \<open>A worked run\<close>

definition demoReporter :: Reporter where
  "demoReporter = \<lparr>cfg = applyDefaults \<lparr>Broker = [], Username = [], Password = [], ClientID = [], BaseTopic = [], DiscoveryPrefix = [], WedgeAfter = 0,
       DeviceIdentifier = [], DeviceName = [], DropThreshold = 0, DropWindow = 0, DropClearWindow = 0\<rparr>,
     cams = [''Cam 1'' \<mapsto> newCam 0 ''Cam 1'']\<rparr>"

lemma published_state_current_witness:
  "snd (fold healthStep [HEvent (StreamResult ''Cam 1'' False ''x'') 0, HTick [''Cam 1''] 90000000000]
      (demoReporter, retain (onConnect [''Cam 1''] demoReporter) Map.empty)) ''homekit-rtsp-proxy/cam_1/stream/state'' = Some (JStr ''problem'')"
proof -
  define ins where "ins = [HEvent (StreamResult ''Cam 1'' False ''x'') 0, HTick [''Cam 1''] 90000000000]"
  define st where "st = fold healthStep ins (demoReporter, retain (onConnect [''Cam 1''] demoReporter) Map.empty)"
  have "slugsDistinct demoReporter" "dom (cams demoReporter) \<subseteq> set [''Cam 1'']" "list_all (visitsAll (dom (cams demoReporter))) ins"
    by (auto simp: slugsDistinct_def demoReporter_def ins_def split: if_splits)
  from published_state_current [OF this prod.collapse [symmetric], of Map.empty] have c: "current (fst st) (snd st)"
    by (simp add: st_def)
  have "map_option (\<lambda>c. (problem c, stateTopic (fst st) c)) (cams (fst st) ''Cam 1'') = Some (True, ''homekit-rtsp-proxy/cam_1/stream/state'')"
    unfolding st_def ins_def by code_simp
  then obtain c where "cams (fst st) ''Cam 1'' = Some c" "problem c" "stateTopic (fst st) c = ''homekit-rtsp-proxy/cam_1/stream/state''"
    by (auto simp: map_option_case split: option.splits)
  then have "snd st ''homekit-rtsp-proxy/cam_1/stream/state'' = Some (JStr ''problem'')"
    using c by (fastforce simp: current_def camCurrent_def onOff_def)
  then show ?thesis by (simp add: st_def ins_def)
qed

end
