(* ===== verification/Health_Run.thy ===== *)
theory Health_Run
  imports Health_Props
begin

text \<open>
  The health reporter of \<^verbatim>\<open>internal/health/health.go\<close> as a running process: the streaming code fills its queue, the goroutine
  \<^verbatim>\<open>run\<close> takes events and ticks until it sees the stop channel closed, the MQTT client connects and loses its
  connection, and \<^verbatim>\<open>Close\<close> waits for the goroutine. All of these interleave.

  Of the MQTT library the model uses what its documentation promises: the connect handler runs on every connection, the
  broker publishes the will when a connection is lost and not on a clean disconnect. What the broker
  holds when a connection comes up is arbitrary, so messages sent while it was down may or may not have arrived.
\<close>

record healthProc =
  rep :: Reporter
  queue :: "event list"
  loopRuns :: bool
  stopClosed :: bool
  online :: bool
  closeDone :: bool
  retainedMsgs :: "string \<rightharpoonup> json"

definition publishAll :: "message list \<Rightarrow> healthProc \<Rightarrow> healthProc" where
  "publishAll ms p = (if online p then p\<lparr>retainedMsgs := retain ms (retainedMsgs p)\<rparr> else p)"

definition willMessage :: "Reporter \<Rightarrow> message" where
  "willMessage r = Publish (statusTopic r) (JStr ''offline'')"

definition runEvent :: "int \<Rightarrow> healthProc \<Rightarrow> healthProc option" where
  "runEvent now p =
     (case queue p of
        e # q \<Rightarrow> if loopRuns p then (case handleEvent e now (rep p) of (r, ms) \<Rightarrow> Some (publishAll ms (p\<lparr>rep := r, queue := q\<rparr>))) else None
      | [] \<Rightarrow> None)"

definition runTick :: "string list \<Rightarrow> int \<Rightarrow> healthProc \<Rightarrow> healthProc option" where
  "runTick order now p =
     (if loopRuns p then (case handleTick order now (rep p) of (r, ms) \<Rightarrow> Some (publishAll ms (p\<lparr>rep := r\<rparr>))) else None)"

definition runStop :: "healthProc \<Rightarrow> healthProc option" where
  "runStop p = (if loopRuns p \<and> stopClosed p then Some (p\<lparr>loopRuns := False\<rparr>) else None)"

definition connectHandler :: "string list \<Rightarrow> (string \<rightharpoonup> json) \<Rightarrow> healthProc \<Rightarrow> healthProc option" where
  "connectHandler order m p =
     (if \<not> online p \<and> \<not> closeDone p then Some (p\<lparr>online := True, retainedMsgs := retain (onConnect order (rep p)) m\<rparr>) else None)"

definition connectionLost :: "healthProc \<Rightarrow> healthProc option" where
  "connectionLost p =
     (if online p then Some (p\<lparr>online := False, retainedMsgs := retain [willMessage (rep p)] (retainedMsgs p)\<rparr>) else None)"

text \<open>\<^verbatim>\<open>Close\<close>: close the stop channel, wait for the goroutine, say goodbye on an open connection and disconnect.\<close>

definition Close_begin :: "healthProc \<Rightarrow> healthProc option" where
  "Close_begin p = (if stopClosed p then None else Some (p\<lparr>stopClosed := True\<rparr>))"

definition Close_end :: "healthProc \<Rightarrow> healthProc option" where
  "Close_end p =
     (if stopClosed p \<and> \<not> loopRuns p \<and> \<not> closeDone p
      then Some ((publishAll (closeMessages (online p) (rep p)) p)\<lparr>online := False, closeDone := True\<rparr>) else None)"

inductive procStep :: "healthProc \<Rightarrow> healthProc \<Rightarrow> bool" where
  Report: "procStep p (p\<lparr>queue := enqueue e (queue p)\<rparr>)"
| Event: "runEvent now p = Some p' \<Longrightarrow> procStep p p'"
| Tick: "runTick order now p = Some p' \<Longrightarrow> procStep p p'"
| StopLoop: "runStop p = Some p' \<Longrightarrow> procStep p p'"
| Connect: "dom (cams (rep p)) \<subseteq> set order \<Longrightarrow> connectHandler order m p = Some p' \<Longrightarrow> procStep p p'"
| Lost: "connectionLost p = Some p' \<Longrightarrow> procStep p p'"
| CloseBegin: "Close_begin p = Some p' \<Longrightarrow> procStep p p'"
| CloseEnd: "Close_end p = Some p' \<Longrightarrow> procStep p p'"

text \<open>The process after \<^verbatim>\<open>New\<close>: the goroutine runs, no connection yet, and the broker does not claim that the reporter is there.\<close>

definition procInit :: "healthProc \<Rightarrow> bool" where
  "procInit p \<longleftrightarrow> (\<exists>c names now. New c names now = Inr (rep p)) \<and> slugsDistinct (rep p) \<and> queue p = []
     \<and> loopRuns p \<and> \<not> stopClosed p \<and> \<not> online p \<and> \<not> closeDone p \<and> retainedMsgs p (statusTopic (rep p)) \<noteq> Some (JStr ''online'')"

section \<open>The status topic\<close>

lemma status_other [simp]:
  "statusTopic r \<noteq> stateTopic r c" "statusTopic r \<noteq> dropStateTopic r c" "statusTopic r \<noteq> attrTopic r c" "statusTopic r \<noteq> dropAttrTopic r c"
proof -
  show "statusTopic r \<noteq> stateTopic r c" "statusTopic r \<noteq> dropStateTopic r c" using topic_other by metis+
  show "statusTopic r \<noteq> attrTopic r c" "statusTopic r \<noteq> dropAttrTopic r c"
    by (auto simp: statusTopic_def attrTopic_def dropAttrTopic_def dest: arg_cong [where f = "\<lambda>s. take 2 (rev s)"])
qed

fun topicOf :: "message \<Rightarrow> string" where
  "topicOf (Publish t v) = t"

lemma retain_other: "t \<notin> topicOf ` set ms \<Longrightarrow> retain ms m t = m t"
proof (induction ms arbitrary: m)
  case (Cons x ms)
  then show ?case by (cases x) auto
qed simp

lemma cfg_kept [simp]: "cfg (setCam n c r) = cfg r" "statusTopic (setCam n c r) = statusTopic r"
  by (simp_all add: setCam_def statusTopic_def)

lemma handleStats_status: "handleStats r pk d f now c = (c', ms) \<Longrightarrow> statusTopic r \<notin> topicOf ` set ms"
  by (auto simp: handleStats_def publishDropState_def publishDropAttributes_def Let_def split: prod.splits if_splits)

lemma handleResult_status: "handleResult r ok err now c = (c', ms) \<Longrightarrow> statusTopic r \<notin> topicOf ` set ms"
  by (auto simp: handleResult_def publishDropState_def publishState_def publishAttributes_def Let_def split: prod.splits if_splits)

lemma handleEvent_status:
  assumes "handleEvent e now r = (r', ms)"
  shows "statusTopic r' = statusTopic r \<and> statusTopic r \<notin> topicOf ` set ms"
proof (cases "cams r (eventCamera e)")
  case None
  then show ?thesis using assms by (simp add: handleEvent_def)
next
  case (Some c)
  then show ?thesis
    using assms handleStats_status handleResult_status
    by (cases e) (fastforce simp: handleEvent_def Let_def split: prod.splits)+
qed

lemma tickCam_status:
  assumes "tickCam now n (r, ms) = (r', ms')" "statusTopic r \<notin> topicOf ` set ms"
  shows "statusTopic r' = statusTopic r \<and> statusTopic r \<notin> topicOf ` set ms'"
  using assms by (auto simp: tickCam_def publishState_def Let_def split: option.splits if_splits prod.splits)

lemma handleTick_status:
  assumes "handleTick order now r = (r', ms)"
  shows "statusTopic r' = statusTopic r \<and> statusTopic r \<notin> topicOf ` set ms"
proof -
  have "statusTopic r1' = statusTopic r1 \<and> statusTopic r1 \<notin> topicOf ` set ms'"
    if "fold (tickCam now) order (r1, ms1) = (r1', ms')" "statusTopic r1 \<notin> topicOf ` set ms1" for r1 r1' ms1 ms'
    using that
  proof (induction order arbitrary: r1 ms1)
    case (Cons n order)
    obtain r2 ms2 where t: "tickCam now n (r1, ms1) = (r2, ms2)" by fastforce
    from tickCam_status [OF t Cons.prems(2)] show ?case using Cons.IH [of r2 ms2] Cons.prems(1) t by simp
  qed simp
  then show ?thesis using assms unfolding handleTick_def by fastforce
qed

lemma camMessages_status: "statusTopic r \<notin> topicOf ` set (camMessages r c)"
proof -
  have "last (topicOf (Health.discovery r c w x y z)) = CHR ''g''" for w x y z
    by (simp add: Health.discovery_def Let_def)
  then have "topicOf (Health.discovery r c w x y z) \<noteq> statusTopic r" for w x y z
    by (intro last_neq) (simp add: topic_endings)
  then show ?thesis
    by (auto simp: camMessages_def publishDiscovery_def publishDropDiscovery_def publish_defs dest: sym)
qed

lemma onConnect_status: "retain (onConnect order r) m (statusTopic r) = Some (JStr ''online'')"
proof -
  have "statusTopic r \<notin> topicOf ` set (concat (map (\<lambda>n. case cams r n of None \<Rightarrow> [] | Some c \<Rightarrow> camMessages r c) order))"
    using camMessages_status by (fastforce split: option.splits)
  then show ?thesis by (simp add: onConnect_def retain_other)
qed

section \<open>What Home Assistant sees\<close>

definition procInv :: "healthProc \<Rightarrow> bool" where
  "procInv p \<longleftrightarrow> slugsDistinct (rep p) \<and> length (queue p) \<le> 64
     \<and> (retainedMsgs p (statusTopic (rep p)) = Some (JStr ''online'') \<longleftrightarrow> online p)
     \<and> (online p \<longrightarrow> current (rep p) (retainedMsgs p)) \<and> (closeDone p \<longrightarrow> stopClosed p \<and> \<not> loopRuns p \<and> \<not> online p)"

lemma publishAll_inv:
  assumes "procInv p" "statusTopic r = statusTopic (rep p)" "statusTopic r \<notin> topicOf ` set ms" "slugsDistinct r" "length q \<le> 64"
    and "online p \<Longrightarrow> current r (retain ms (retainedMsgs p))"
  shows "procInv (publishAll ms (p\<lparr>rep := r, queue := q\<rparr>))"
  using assms by (auto simp: procInv_def publishAll_def retain_other)

lemma some_current:
  assumes "slugsDistinct r"
  shows "\<exists>m. current r m"
proof -
  have "\<exists>v. \<forall>n c. cams r n = Some c \<longrightarrow> (t = stateTopic r c \<longrightarrow> v = Some (onOff (problem c)))
      \<and> (t = dropStateTopic r c \<longrightarrow> v = Some (onOff (degraded c)))" for t
  proof (cases "\<exists>n c. cams r n = Some c \<and> (t = stateTopic r c \<or> t = dropStateTopic r c)")
    case True
    then obtain n c where c: "cams r n = Some c" "t = stateTopic r c \<or> t = dropStateTopic r c" by blast
    have "d = c" if d: "cams r k = Some d" "t = stateTopic r d \<or> t = dropStateTopic r d" for k d
    proof -
      have "slug d = slug c" using c(2) d(2) by auto
      then show ?thesis using assms c(1) d(1) unfolding slugsDistinct_def by (metis option.inject)
    qed
    then show ?thesis
      by (intro exI [of _ "if t = stateTopic r c then Some (onOff (problem c)) else Some (onOff (degraded c))"]) auto
  qed blast
  then obtain m where "\<forall>t n c. cams r n = Some c \<longrightarrow> (t = stateTopic r c \<longrightarrow> m t = Some (onOff (problem c)))
      \<and> (t = dropStateTopic r c \<longrightarrow> m t = Some (onOff (degraded c)))" by metis
  then show ?thesis unfolding current_def camCurrent_def by blast
qed

lemma runEvent_inv:
  assumes "procInv p" "runEvent now p = Some p'"
  shows "procInv p'"
proof -
  obtain e q r ms where q: "queue p = e # q" and h: "handleEvent e now (rep p) = (r, ms)"
    and p': "p' = publishAll ms (p\<lparr>rep := r, queue := q\<rparr>)"
    using assms(2) by (auto simp: runEvent_def split: list.splits if_splits prod.splits)
  have I: "slugsDistinct (rep p)" "length q \<le> 64" "online p \<Longrightarrow> current (rep p) (retainedMsgs p)" using assms(1) q by (auto simp: procInv_def)
  show ?thesis
    unfolding p' using handleEvent_status [OF h] handleEvent_current [OF _ I(1) h] I some_current [OF I(1)]
    by (intro publishAll_inv [OF assms(1)]) auto
qed

lemma runTick_inv:
  assumes "procInv p" "runTick order now p = Some p'"
  shows "procInv p'"
proof -
  obtain r ms where h: "handleTick order now (rep p) = (r, ms)" and p': "p' = publishAll ms (p\<lparr>rep := r, queue := queue p\<rparr>)"
    using assms(2) by (auto simp: runTick_def split: if_splits prod.splits)
  have I: "slugsDistinct (rep p)" "length (queue p) \<le> 64" "online p \<Longrightarrow> current (rep p) (retainedMsgs p)" using assms(1) by (auto simp: procInv_def)
  have c: "current r (retain ms m) \<and> slugsDistinct r" if "current (rep p) m" for m
    using handleTick_current [of "rep p" "[]" m now order r ms] that I(1) h by (simp add: handleTick_def)
  show ?thesis
    unfolding p' using handleTick_status [OF h] c I some_current [OF I(1)]
    by (intro publishAll_inv [OF assms(1)]) auto
qed

lemma Close_end_inv: "procInv p \<Longrightarrow> Close_end p = Some p' \<Longrightarrow> procInv p'"
  by (auto simp: procInv_def Close_end_def closeMessages_def publishAll_def split: if_splits)

lemma procStep_inv:
  assumes "procStep p p'" "procInv p"
  shows "procInv p'"
  using assms
proof (cases rule: procStep.cases)
  case (Report e)
  then show ?thesis using assms(2) by (auto simp: procInv_def enqueue_def)
next
  case (Connect order m)
  then show ?thesis using assms(2) onConnect_current [of "rep p" order m] onConnect_status
    by (auto simp: procInv_def connectHandler_def split: if_splits)
next
  case Lost
  then show ?thesis using assms(2) by (auto simp: procInv_def connectionLost_def willMessage_def split: if_splits)
next
  case StopLoop
  then show ?thesis using assms(2) by (auto simp: procInv_def runStop_def split: if_splits)
next
  case CloseBegin
  then show ?thesis using assms(2) by (auto simp: procInv_def Close_begin_def split: if_splits)
qed (use assms(2) runEvent_inv runTick_inv Close_end_inv in blast)+

interpretation reporter: transition_system procInit procStep procInv
proof
  show "procInv p" if "procInit p" for p using that by (simp add: procInit_def procInv_def)
qed (rule procStep_inv)


text \<open>Closing comes to an end: once it has begun, the goroutine can leave and then the rest of \<^verbatim>\<open>Close\<close> can run, whatever is queued.\<close>

lemma close_finishes:
  assumes "stopClosed p" "\<not> closeDone p"
  shows "\<exists>p'. procStep\<^sup>*\<^sup>* p p' \<and> closeDone p'"
proof -
  obtain p1 where 1: "procStep\<^sup>*\<^sup>* p p1" "stopClosed p1" "\<not> loopRuns p1" "\<not> closeDone p1"
  proof (cases "loopRuns p")
    case True
    then have "procStep p (p\<lparr>loopRuns := False\<rparr>)" using assms by (intro procStep.StopLoop) (simp add: runStop_def)
    then show ?thesis using assms by (intro that [of "p\<lparr>loopRuns := False\<rparr>"]) auto
  qed (use that assms in blast)
  define p2 where "p2 = (publishAll (closeMessages (online p1) (rep p1)) p1)\<lparr>online := False, closeDone := True\<rparr>"
  have "procStep p1 p2" using 1 by (intro procStep.CloseEnd) (simp add: Close_end_def p2_def)
  with 1(1) have "procStep\<^sup>*\<^sup>* p p2" by (rule rtranclp.rtrancl_into_rtrancl)
  then show ?thesis by (intro exI [of _ p2]) (simp add: p2_def)
qed

text \<open>
  Cameras whose names differ only in punctuation or case get the same slug and share all their topics: the
  sensors of one overwrite those of the other.
\<close>

lemma slug_collision:
  "slugify ''Front Door'' = slugify ''front-door''"
  "slug c = slug d \<Longrightarrow> stateTopic r c = stateTopic r d \<and> attrTopic r c = attrTopic r d \<and> dropStateTopic r c = dropStateTopic r d \<and> dropAttrTopic r c = dropAttrTopic r d"
proof -
  show "slugify ''Front Door'' = slugify ''front-door''" by code_simp
qed (simp add: stateTopic_def attrTopic_def dropStateTopic_def dropAttrTopic_def)

section \<open>A worked run\<close>


end
