(* ===== verification/Quality_Signal.thy ===== *)
theory Quality_Signal
  imports Frame_Assembly Health_Run
begin

text \<open>
  From the network to Home Assistant: the video statistics that the SRTP proxy (\<^verbatim>\<open>internal/stream/proxy.go\<close>) emits once a second
  become events of the health reporter (\<^verbatim>\<open>internal/health/health.go\<close>) through the callback that \<^verbatim>\<open>main.go\<close> installs,
  and decide the frame-drop sensor.
\<close>

definition statsEvent :: "string \<Rightarrow> VideoStats \<Rightarrow> event" where
  "statsEvent cam s = Stats cam (Packets s) (Drops s) (DroppedFrames s) (Interval s)"

text \<open>Without a gap in the sequence numbers no report shows a loss.\<close>

lemma totalMissed_run: "seqRun (ps @ qs) \<Longrightarrow> totalMissed ps = 0"
  by (induction ps rule: totalMissed.induct) (auto simp: seqRun_def missed_def)

lemma reportsOk_clean:
  "reportsOk ps rp 0 acts \<Longrightarrow> seqRun (ps @ decrypted acts) \<Longrightarrow> \<forall>s\<in>set (reported acts). Drops s = 0"
proof (induction ps rp "0 :: u64" acts rule: reportsOk.induct)
  case (3 ps rp st as)
  then have "Drops st = 0" using totalMissed_run [of ps "decrypted as"] by simp
  then show ?case using 3 by auto
qed auto

lemma clean_reports:
  assumes "length ds < 2 ^ 64" "onVideoStats p" "readVideoLoop lib ds (p, vloop0 t0) = ((p', l'), acts)" "seqRun (decrypted acts)"
  shows "\<forall>s\<in>set (reported acts). Drops s = 0"
proof -
  have "counted [] (vloop0 t0)" by (simp add: counted_def vloop0_def)
  from readVideoLoop_counts [OF this _ assms(2,3)] assms(1) have "reportsOk [] 0 0 acts" by (simp add: vloop0_def)
  then show ?thesis using reportsOk_clean [of "[]" 0 acts] assms(4) by simp
qed

lemma reporter_threshold_pos: "0 < DropThreshold (Health.applyDefaults c)"
proof -
  have "0 < roundFloat64 (5 / 100)" using roundFloat64_bounds(1) [of "5 / 100"] by simp
  then show ?thesis by (simp add: Health.applyDefaults_def)
qed

text \<open>A sample without loss never raises the flag.\<close>

lemma applyStats_lossless:
  assumes "applyStats cf (lossFraction packets 0) d now c = (c', ch)" "0 < DropThreshold cf" "\<not> degraded c"
  shows "\<not> degraded c'"
proof -
  have "lossFraction packets 0 = 0" by (simp add: lossFraction_def roundFloat64_def Let_def)
  then show ?thesis using assms by (auto simp: applyStats_def Let_def split: if_splits)
qed

lemma handleStats_lossless:
  assumes "handleStats r packets 0 d now c = (c', ms)" "0 < DropThreshold (cfg r)" "\<not> degraded c"
  shows "\<not> degraded c'"
  using assms applyStats_lossless [of "cfg r" packets d now c] by (auto simp: handleStats_def Let_def split: prod.splits if_splits)

lemma handleResult_degraded:
  assumes "handleResult r ok err now c = (c', ms)" "\<not> degraded c"
  shows "\<not> degraded c'"
  using assms by (auto simp: handleResult_def applyEvent_def promote_def resetDrop_def Let_def split: prod.splits if_splits option.splits)

text \<open>The inputs of a reporter in which every sample of the camera is free of loss.\<close>

fun lossFree :: "string \<Rightarrow> healthInput \<Rightarrow> bool" where
  "lossFree cam (HEvent (Stats n pk d f i) now) = (n = cam \<longrightarrow> d = 0)"
| "lossFree cam _ = True"

definition calm :: "string \<Rightarrow> Reporter \<Rightarrow> bool" where
  "calm cam r \<longleftrightarrow> 0 < DropThreshold (cfg r) \<and> (\<exists>c. cams r cam = Some c \<and> \<not> degraded c)"

lemma handleEvent_calm:
  assumes "calm cam r" "lossFree cam (HEvent e now)" "handleEvent e now r = (r', ms)"
  shows "calm cam r'"
  using assms handleStats_lossless handleResult_degraded
  by (cases e) (fastforce simp: calm_def handleEvent_def setCam_def Let_def split: option.splits prod.splits if_splits)+

lemma tickCam_calm: "calm cam r \<Longrightarrow> tickCam now n (r, ms) = (r', ms') \<Longrightarrow> calm cam r'"
  by (auto simp: calm_def tickCam_def promote_def setCam_def Let_def split: option.splits if_splits prod.splits)

lemma handleTick_calm: "calm cam r \<Longrightarrow> fold (tickCam now) order (r, ms) = (r', ms') \<Longrightarrow> calm cam r'"
proof (induction order arbitrary: r ms)
  case (Cons n order)
  obtain r1 ms1 where t: "tickCam now n (r, ms) = (r1, ms1)" by fastforce
  then show ?case using Cons.IH [of r1 ms1] tickCam_calm [OF Cons.prems(1) t] Cons.prems(2) by simp
qed simp

lemma healthStep_calm:
  assumes "calm cam r" "lossFree cam i" "healthStep i (r, m) = (r', m')"
  shows "calm cam r'"
proof (cases i)
  case (HEvent e now)
  obtain r1 ms where h: "handleEvent e now r = (r1, ms)" by fastforce
  show ?thesis using handleEvent_calm [OF assms(1) _ h] assms(2,3) HEvent h by simp
next
  case (HTick order now)
  obtain r1 ms where h: "fold (tickCam now) order (r, []) = (r1, ms)" by fastforce
  show ?thesis using handleTick_calm [OF assms(1) h] assms(3) HTick h by (simp add: handleTick_def)
next
  case (HConnect order)
  then show ?thesis using assms(1,3) by simp
qed

lemma run_calm: "calm cam r \<Longrightarrow> list_all (lossFree cam) ins \<Longrightarrow> calm cam (fst (fold healthStep ins (r, m)))"
proof (induction ins arbitrary: r m)
  case (Cons i ins)
  obtain r1 m1 where h: "healthStep i (r, m) = (r1, m1)" by fastforce
  then show ?case using Cons.IH [of r1 m1] healthStep_calm [OF Cons.prems(1) _ h] Cons.prems(2) by simp
qed simp

text \<open>The samples a camera contributes are those its video loop emitted.\<close>

fun samplesFrom :: "string \<Rightarrow> VideoStats list \<Rightarrow> healthInput \<Rightarrow> bool" where
  "samplesFrom cam sts (HEvent (Stats n pk d f i) now) = (n = cam \<longrightarrow> Stats n pk d f i \<in> statsEvent cam ` set sts)"
| "samplesFrom cam sts _ = True"

text \<open>
  C30. No false alarm. If the packets of a camera arrive without a gap in their sequence numbers, then whatever the reporter is
  fed besides (results of stream starts, other cameras, periodic checks, reconnections) and whenever, the camera's frame-drop sensor
  stays off: a reporter made by \<^verbatim>\<open>New\<close> never reports frame drops on a clean link.
\<close>

theorem clean_link_no_alarm:
  assumes "length ds < 2 ^ 64" "onVideoStats p" "readVideoLoop lib ds (p, vloop0 t0) = ((p', l'), acts)" "seqRun (decrypted acts)"
    and "New c names now0 = Inr r" "cam \<in> set names" "list_all (samplesFrom cam (reported acts)) ins"
  shows "\<exists>st. cams (fst (fold healthStep ins (r, m))) cam = Some st \<and> \<not> degraded st"
proof -
  have "lossFree cam i" if "samplesFrom cam (reported acts) i" for i
    using that clean_reports [OF assms(1-4)] by (cases "(cam, i)" rule: lossFree.cases) (auto simp: statsEvent_def)
  then have lf: "list_all (lossFree cam) ins" using assms(7) by (auto simp: list_all_iff)
  have cams: "fold (\<lambda>n m. m(n \<mapsto> newCam now0 n)) names m0 cam = (if cam \<in> set names then Some (newCam now0 cam) else m0 cam)" for m0
    by (induction names arbitrary: m0) auto
  have "calm cam r"
    using assms(5,6) cams [of Map.empty] by (auto simp: New_def calm_def newCam_def reporter_threshold_pos split: if_splits)
  from run_calm [OF this lf] show ?thesis by (simp add: calm_def)
qed

section \<open>A worked run\<close>

theorem clean_link_no_alarm_witness:
  "\<exists>r st. New (cfg demoReporter) [''Cam 1''] 0 = Inr r
     \<and> cams (fst (fold healthStep
           (HTick [''Cam 1''] 1 # map (\<lambda>s. HEvent (statsEvent ''Cam 1'' s) 5) (reported (snd (readVideoLoop plainLib cleanRun (plainProxy, vloop0 0)))))
           (r, Map.empty))) ''Cam 1'' = Some st \<and> \<not> degraded st"
proof -
  define acts where "acts = snd (readVideoLoop plainLib cleanRun (plainProxy, vloop0 0))"
  obtain r where r: "New (cfg demoReporter) [''Cam 1''] 0 = Inr r" by (simp add: New_def)
  have s: "seqRun (decrypted acts)" by (simp add: acts_def cleanRun_decrypted seqRun_def plainPacket_def)
  obtain p' l' where l: "readVideoLoop plainLib cleanRun (plainProxy, vloop0 0) = ((p', l'), acts)" by (metis acts_def prod.collapse)
  have i: "list_all (samplesFrom ''Cam 1'' (reported acts)) (HTick [''Cam 1''] 1 # map (\<lambda>s. HEvent (statsEvent ''Cam 1'' s) 5) (reported acts))"
    by (auto simp: list_all_iff statsEvent_def)
  from clean_link_no_alarm [OF run_lengths(2) plainProxy_hooks(2) l s r _ i] r show ?thesis by (auto simp: acts_def)
qed

end
