(* ===== verification/Transcoder.thy ===== *)
theory Transcoder
  imports Prelude
begin

text \<open>
  The audio transcoder of \<^verbatim>\<open>internal/stream/audio_transcoder.go\<close>: its construction and closing, the C wrappers around
  the codec calls, gain with saturation, the ring of decoded samples, the encoder frames cut from it, and
  the detection of the decoder configuration, which the constructor leaves switched off.

  The libfdk-aac library is a record of functions of a handle's state. A handle is a number into the heap of
  open decoders and encoders (\<open>handles\<close>); a call on a nil or closed handle has no defined result in C and is
  recorded as \<open>misuse\<close>, which the lemmas show never happens. \<open>aacDecoder_Open\<close> and \<open>aacEncOpen\<close> get the number of the call, so
  that any one of them may fail. The buffers are lists of the source's lengths, the ring holds the
  valid samples only (\<^verbatim>\<open>pcmRing[:pcmLen]\<close>). C integers do not overflow on the sizes involved, and the throw-away
  decoders of the detection write at most the 8192 samples they are given room for. The candidates to detect are the hexadecimal
  constants of \<open>eldASCCandidates\<close>, none of them empty. Debug output is left out.
\<close>

type_synonym sample = "16 word"

datatype decParam = AAC_PCM_LIMITER_ENABLE | AAC_DRC_REFERENCE_LEVEL | AAC_DRC_ATTENUATION_FACTOR | AAC_DRC_BOOST_FACTOR

datatype encParam = AACENC_AOT | AACENC_SAMPLERATE | AACENC_CHANNELMODE | AACENC_BITRATE | AACENC_TRANSMUX

record ('d, 'e) codec =
  aacDecoder_Open :: "nat \<Rightarrow> 'd option"
  aacDecoder_ConfigRaw :: "bytes \<Rightarrow> 'd \<Rightarrow> 'd \<times> int"
  aacDecoder_SetParam :: "decParam \<Rightarrow> int \<Rightarrow> 'd \<Rightarrow> 'd \<times> int"
  aacDecoder_Fill :: "bytes \<Rightarrow> 'd \<Rightarrow> 'd \<times> int"
  aacDecoder_DecodeFrame :: "nat \<Rightarrow> 'd \<Rightarrow> 'd \<times> int \<times> sample list"
  aacDecoder_GetStreamInfo :: "'d \<Rightarrow> (int \<times> int) option"
  aacEncOpen :: "nat \<Rightarrow> int + 'e"
  paramCode :: "encParam \<Rightarrow> int"
  paramValue :: "encParam \<Rightarrow> int"
  aacEncoder_SetParam :: "encParam \<Rightarrow> int \<Rightarrow> 'e \<Rightarrow> 'e \<times> int"
  aacEncInit :: "'e \<Rightarrow> 'e \<times> int"
  aacEncEncode :: "sample list \<Rightarrow> nat \<Rightarrow> 'e \<Rightarrow> 'e \<times> int \<times> bytes"
  aacEncInfo :: "'e \<Rightarrow> int + nat \<times> bytes"

record ('d, 'e) handles =
  decoders :: "nat \<Rightarrow> 'd option"
  encoders :: "nat \<Rightarrow> 'e option"
  nextHandle :: nat
  misuse :: bool

record AudioTranscoder =
  gain :: int
  decoder :: "nat option"
  encoder :: "nat option"
  outASC :: bytes
  decBuf :: "sample list"
  pcmRing :: "sample list"
  encBuf :: bytes
  encFrameSize :: nat
  frameCount :: nat
  ascCandidates :: "string list"
  sampleRate :: int
  eldASCHex :: string
  detecting :: bool
  detectFrames :: "bytes list"

definition ringCapacity :: "AudioTranscoder \<Rightarrow> nat" where
  "ringCapacity t = encFrameSize t * 3"

section \<open>Handles\<close>

definition openDecoder :: "('d, 'e) codec \<Rightarrow> ('d, 'e) handles \<Rightarrow> ('d, 'e) handles \<times> nat option" where
  "openDecoder lib w =
     (let h = nextHandle w; w' = w\<lparr>nextHandle := h + 1\<rparr> in
      case aacDecoder_Open lib h of
        None \<Rightarrow> (w', None)
      | Some d \<Rightarrow> (w'\<lparr>decoders := (decoders w)(h \<mapsto> d)\<rparr>, Some h))"

definition openEnc :: "('d, 'e) codec \<Rightarrow> ('d, 'e) handles \<Rightarrow> ('d, 'e) handles \<times> (int + nat)" where
  "openEnc lib w =
     (let h = nextHandle w; w' = w\<lparr>nextHandle := h + 1\<rparr> in
      case aacEncOpen lib h of
        Inl code \<Rightarrow> (w', Inl code)
      | Inr e \<Rightarrow> (w'\<lparr>encoders := (encoders w)(h \<mapsto> e)\<rparr>, Inr h))"

definition aacDecoder_Close :: "nat option \<Rightarrow> ('d, 'e) handles \<Rightarrow> ('d, 'e) handles" where
  "aacDecoder_Close h w =
     (case Option.bind h (decoders w) of
        None \<Rightarrow> w\<lparr>misuse := True\<rparr>
      | Some _ \<Rightarrow> w\<lparr>decoders := (decoders w)(the h := None)\<rparr>)"

definition aacEncClose :: "nat option \<Rightarrow> ('d, 'e) handles \<Rightarrow> ('d, 'e) handles" where
  "aacEncClose h w =
     (case Option.bind h (encoders w) of
        None \<Rightarrow> w\<lparr>misuse := True\<rparr>
      | Some _ \<Rightarrow> w\<lparr>encoders := (encoders w)(the h := None)\<rparr>)"

text \<open>A library call on a handle; \<open>bad\<close> stands for whatever a call on a closed or nil handle gives.\<close>

definition onDecoder :: "nat option \<Rightarrow> ('d \<Rightarrow> 'd \<times> 'r) \<Rightarrow> 'r \<Rightarrow> ('d, 'e) handles \<Rightarrow> ('d, 'e) handles \<times> 'r" where
  "onDecoder h f bad w =
     (case Option.bind h (decoders w) of
        None \<Rightarrow> (w\<lparr>misuse := True\<rparr>, bad)
      | Some d \<Rightarrow> (case f d of (d', r) \<Rightarrow> (w\<lparr>decoders := (decoders w)(the h \<mapsto> d')\<rparr>, r)))"

definition onEncoder :: "nat option \<Rightarrow> ('e \<Rightarrow> 'e \<times> 'r) \<Rightarrow> 'r \<Rightarrow> ('d, 'e) handles \<Rightarrow> ('d, 'e) handles \<times> 'r" where
  "onEncoder h f bad w =
     (case Option.bind h (encoders w) of
        None \<Rightarrow> (w\<lparr>misuse := True\<rparr>, bad)
      | Some e \<Rightarrow> (case f e of (e', r) \<Rightarrow> (w\<lparr>encoders := (encoders w)(the h \<mapsto> e')\<rparr>, r)))"

section \<open>The C wrappers\<close>

definition config_raw :: "('d, 'e) codec \<Rightarrow> bytes \<Rightarrow> 'd \<Rightarrow> 'd \<times> int" where
  "config_raw lib conf d = aacDecoder_ConfigRaw lib conf d"

text \<open>What the library writes lands at the start of a buffer of fixed length; the rest keeps its old contents.\<close>

definition writeBuf :: "'a list \<Rightarrow> 'a list \<Rightarrow> 'a list" where
  "writeBuf out buf = take (length buf) (out @ drop (length out) buf)"

definition decode_frame :: "('d, 'e) codec \<Rightarrow> bytes \<Rightarrow> sample list \<Rightarrow> 'd \<Rightarrow> 'd \<times> sample list \<times> int" where
  "decode_frame lib inp out d =
     (case aacDecoder_Fill lib inp d of
        (d1, err) \<Rightarrow>
          if err \<noteq> 0 then (d1, out, - 1)
          else (case aacDecoder_DecodeFrame lib (length out) d1 of
                  (d2, err2, pcm) \<Rightarrow>
                    if err2 \<noteq> 0 then (d2, writeBuf pcm out, - 2)
                    else (case aacDecoder_GetStreamInfo lib d2 of
                            None \<Rightarrow> (d2, writeBuf pcm out, - 3)
                          | Some (frameSize, numChannels) \<Rightarrow> (d2, writeBuf pcm out, frameSize * numChannels))))"

definition encode_frame :: "('d, 'e) codec \<Rightarrow> sample list \<Rightarrow> bytes \<Rightarrow> 'e \<Rightarrow> 'e \<times> bytes \<times> int" where
  "encode_frame lib inp out e =
     (case aacEncEncode lib inp (length out) e of
        (e', err, bs) \<Rightarrow> if err \<noteq> 0 then (e', writeBuf bs out, - 1) else (e', writeBuf bs out, int (length bs)))"

section \<open>Construction\<close>

definition eldASCCandidates :: "int \<Rightarrow> string list" where
  "eldASCCandidates rate =
     (if rate = 16000 then [''F8F62100'', ''F8F63100'', ''F8F02000'', ''F8F03000'']
      else if rate = 24000 then [''F8F22100'', ''F8EC2000'']
      else if rate = 8000 then [''F8F82000'', ''F8F83000'']
      else [''F8F02000''])"

text \<open>\<^verbatim>\<open>hex.DecodeString\<close>, with the texts of its two errors left to the library.\<close>

definition hexVal :: "char \<Rightarrow> byte option" where
  "hexVal ch =
     (let c = of_char ch :: nat in
      if 48 \<le> c \<and> c \<le> 57 then Some (of_nat (c - 48))
      else if 97 \<le> c \<and> c \<le> 102 then Some (of_nat (c - 87))
      else if 65 \<le> c \<and> c \<le> 70 then Some (of_nat (c - 55)) else None)"

fun hexDecode :: "string \<Rightarrow> bytes result" where
  "hexDecode [] = Inr []"
| "hexDecode [_] = Inl ''encoding/hex''"
| "hexDecode (a # b # cs) =
     (case (hexVal a, hexVal b) of
        (Some x, Some y) \<Rightarrow> (case hexDecode cs of Inl e \<Rightarrow> Inl e | Inr bs \<Rightarrow> Inr ((x * 16 + y) # bs))
      | _ \<Rightarrow> Inl ''encoding/hex'')"

text \<open>\<^verbatim>\<open>strings.ToUpper(hex.EncodeToString(bs))\<close>.\<close>

definition hexDigit :: "byte \<Rightarrow> char" where
  "hexDigit x = (let n = unat x in if n < 10 then char_of (48 + n) else char_of (55 + n))"

definition hexEncodeUpper :: "bytes \<Rightarrow> string" where
  "hexEncodeUpper bs = concat (map (\<lambda>b. [hexDigit (b div 16), hexDigit (b mod 16)]) bs)"

text \<open>\<^verbatim>\<open>strings.TrimSpace\<close> on ASCII text.\<close>

definition isSpace :: "char \<Rightarrow> bool" where
  "isSpace c \<longleftrightarrow> of_char c \<in> {9, 10, 11, 12, 13, 32 :: nat}"

definition TrimSpace :: "string \<Rightarrow> string" where
  "TrimSpace s = rev (dropWhile isSpace (rev (dropWhile isSpace s)))"

definition AudioSpecificConfig :: "AudioTranscoder \<Rightarrow> bytes" where
  "AudioSpecificConfig t = outASC t"

definition AudioSpecificConfigHex :: "AudioTranscoder \<Rightarrow> string" where
  "AudioSpecificConfigHex t = hexEncodeUpper (outASC t)"

definition CloseTranscoder :: "AudioTranscoder \<Rightarrow> ('d, 'e) handles \<Rightarrow> ('d, 'e) handles \<times> AudioTranscoder" where
  "CloseTranscoder t w =
     (let w1 = (if decoder t \<noteq> None then aacDecoder_Close (decoder t) w else w);
          w2 = (if encoder t \<noteq> None then aacEncClose (encoder t) w1 else w1)
      in (w2, t\<lparr>decoder := None, encoder := None\<rparr>))"

definition setDecoderParams :: "('d, 'e) codec \<Rightarrow> nat option \<Rightarrow> ('d, 'e) handles \<Rightarrow> ('d, 'e) handles" where
  "setDecoderParams lib h w =
     fold (\<lambda>(p, v) w. fst (onDecoder h (aacDecoder_SetParam lib p v) 0 w))
       [(AAC_PCM_LIMITER_ENABLE, 0), (AAC_DRC_REFERENCE_LEVEL, - 1), (AAC_DRC_ATTENUATION_FACTOR, 0), (AAC_DRC_BOOST_FACTOR, 0)] w"

fun setParams :: "('d, 'e) codec \<Rightarrow> nat option \<Rightarrow> (encParam \<times> int) list \<Rightarrow> ('d, 'e) handles \<Rightarrow> ('d, 'e) handles \<times> unit result" where
  "setParams lib h [] w = (w, Inr ())"
| "setParams lib h ((p, v) # ps) w =
     (case onEncoder h (aacEncoder_SetParam lib p v) 0 w of
        (w', code) \<Rightarrow>
          if code \<noteq> 0 then (w', Inl (''aacEncoder_SetParam('' @ showInt (paramCode lib p) @ '') failed: '' @ showInt code))
          else setParams lib h ps w')"

definition encoderParams :: "('d, 'e) codec \<Rightarrow> int \<Rightarrow> (encParam \<times> int) list" where
  "encoderParams lib rate =
     [(AACENC_AOT, paramValue lib AACENC_AOT), (AACENC_SAMPLERATE, rate),
      (AACENC_CHANNELMODE, paramValue lib AACENC_CHANNELMODE), (AACENC_BITRATE, 64000),
      (AACENC_TRANSMUX, paramValue lib AACENC_TRANSMUX)]"

text \<open>The configuration of an open encoder: its parameters, the initialising call, and its frame length and configuration.\<close>

definition configureEncoder :: "('d, 'e) codec \<Rightarrow> int \<Rightarrow> nat option \<Rightarrow> ('d, 'e) handles \<Rightarrow> ('d, 'e) handles \<times> (nat \<times> bytes) result" where
  "configureEncoder lib rate h w =
     (case setParams lib h (encoderParams lib rate) w of
        (w1, Inl err) \<Rightarrow> (w1, Inl err)
      | (w1, Inr _) \<Rightarrow>
          (case onEncoder h (aacEncInit lib) 0 w1 of
             (w2, code) \<Rightarrow>
               if code \<noteq> 0 then (w2, Inl (''aacEncEncode init failed: '' @ showInt code))
               else (case onEncoder h (\<lambda>e. (e, aacEncInfo lib e)) (Inl 0) w2 of
                       (w3, Inl c) \<Rightarrow> (w3, Inl (''aacEncInfo failed: '' @ showInt c))
                     | (w3, Inr info) \<Rightarrow> (w3, Inr info))))"

definition emptyTranscoder :: "string \<Rightarrow> nat option \<Rightarrow> AudioTranscoder" where
  "emptyTranscoder asc h =
     \<lparr>gain = 0, decoder = h, encoder = None, outASC = [], decBuf = [], pcmRing = [], encBuf = [], encFrameSize = 0, frameCount = 0,
      ascCandidates = [], sampleRate = 0, eldASCHex = asc, detecting = False, detectFrames = []\<rparr>"

definition buildEncoder :: "('d, 'e) codec \<Rightarrow> int \<Rightarrow> AudioTranscoder \<Rightarrow> ('d, 'e) handles \<Rightarrow> ('d, 'e) handles \<times> AudioTranscoder result" where
  "buildEncoder lib rate t0 w =
     (case openEnc lib w of
        (w1, Inl code) \<Rightarrow> (aacDecoder_Close (decoder t0) w1, Inl (''aacEncOpen failed: '' @ showInt code))
      | (w1, Inr h) \<Rightarrow>
          let t = t0\<lparr>encoder := Some h\<rparr> in
          (case configureEncoder lib rate (encoder t) w1 of
             (w2, Inl err) \<Rightarrow> (fst (CloseTranscoder t w2), Inl err)
           | (w2, Inr (frameLength, confBuf)) \<Rightarrow>
               (w2, Inr (t\<lparr>encFrameSize := frameLength, outASC := confBuf, decBuf := replicate 8192 0, encBuf := replicate 2048 0\<rparr>))))"

definition newTranscoderWithASC :: "('d, 'e) codec \<Rightarrow> int \<Rightarrow> string \<Rightarrow> ('d, 'e) handles \<Rightarrow> ('d, 'e) handles \<times> AudioTranscoder result" where
  "newTranscoderWithASC lib rate asc w0 =
     (case openDecoder lib w0 of
        (w, None) \<Rightarrow> (w, Inl ''aacDecoder_Open failed'')
      | (w, Some h) \<Rightarrow>
          (case hexDecode (TrimSpace asc) of
             Inl e \<Rightarrow> (aacDecoder_Close (Some h) w, Inl (''invalid ASC hex '' @ asc @ '': '' @ e))
           | Inr ascBytes \<Rightarrow>
               if ascBytes = [] then (w, Inl ''panic: index out of range'')
               else (case onDecoder (Some h) (config_raw lib ascBytes) 0 w of
                       (w1, code) \<Rightarrow>
                         if code \<noteq> 0 then (aacDecoder_Close (Some h) w1, Inl (''aacDecoder_ConfigRaw failed: '' @ showInt code))
                         else buildEncoder lib rate (emptyTranscoder asc (Some h)) (setDecoderParams lib (Some h) w1))))"

definition NewAudioTranscoder :: "('d, 'e) codec \<Rightarrow> int \<Rightarrow> string \<Rightarrow> int \<Rightarrow> ('d, 'e) handles \<Rightarrow> ('d, 'e) handles \<times> AudioTranscoder result" where
  "NewAudioTranscoder lib rate asc g w =
     (case newTranscoderWithASC lib rate asc w of
        (w', Inl e) \<Rightarrow> (w', Inl (''init transcoder with ASC '' @ asc @ '': '' @ e))
      | (w', Inr t) \<Rightarrow> (w', Inr (t\<lparr>gain := g, sampleRate := rate, detecting := False\<rparr>)))"

section \<open>Gain\<close>

text \<open>\<^verbatim>\<open>int32(sample) * int32(gain)\<close>, clamped to 16 bits.\<close>

definition amplify :: "int \<Rightarrow> sample \<Rightarrow> sample" where
  "amplify g s =
     (let v = (scast s :: 32 word) * of_int g in
      if sint v > 32767 then 32767 else if sint v < -32768 then of_int (-32768) else of_int (sint v))"

definition applyGain :: "int \<Rightarrow> sample list \<Rightarrow> sample list" where
  "applyGain g ss = (if g \<noteq> 0 then map (amplify g) ss else ss)"

section \<open>One frame\<close>

text \<open>Encoding one full frame from the front of the ring.\<close>

definition encodeRing :: "('d, 'e) codec \<Rightarrow> AudioTranscoder \<Rightarrow> ('d, 'e) handles \<Rightarrow> ('d, 'e) handles \<times> AudioTranscoder \<times> bytes option result" where
  "encodeRing lib t w =
     (if encFrameSize t = 0 then (w, t, Inl ''panic: index out of range'')
      else case onEncoder (encoder t) (encode_frame lib (take (encFrameSize t) (pcmRing t)) (encBuf t)) (encBuf t, - 1) w of
        (w', buf, n) \<Rightarrow>
          let t1 = t\<lparr>encBuf := buf\<rparr> in
          if n < 0 then (w', t1, Inl (''AAC-LC encode failed: '' @ showInt n))
          else let t2 = t1\<lparr>pcmRing := drop (encFrameSize t) (pcmRing t)\<rparr> in
               if n = 0 then (w', t2, Inr None)
               else if int (length buf) < n then (w', t2, Inl ''panic: slice bounds out of range'')
               else (w', t2, Inr (Some (take (nat n) buf))))"

definition transcodeFrame :: "('d, 'e) codec \<Rightarrow> bytes \<Rightarrow> AudioTranscoder \<Rightarrow> ('d, 'e) handles \<Rightarrow> ('d, 'e) handles \<times> AudioTranscoder \<times> bytes option result" where
  "transcodeFrame lib frame t0 w0 =
     (case onDecoder (decoder t0) (decode_frame lib frame (decBuf t0)) (decBuf t0, - 1) w0 of
        (w, buf, n) \<Rightarrow>
          if n < 0 then (w, t0\<lparr>decBuf := buf\<rparr>, Inl (''AAC-ELD decode failed: '' @ showInt n))
          else let t = t0\<lparr>decBuf := buf, frameCount := frameCount t0 + 1\<rparr>; decoded = nat n in
               if length (pcmRing t) + decoded > ringCapacity t
               then (w, t, Inl (''PCM ring overflow: '' @ show_nat (length (pcmRing t)) @ '' + '' @ show_nat decoded @ '' > '' @ show_nat (ringCapacity t)))
               else if length buf < decoded then (w, t, Inl ''panic: slice bounds out of range'')
               else let amplified = applyGain (gain t) (take decoded buf);
                        t1 = t\<lparr>decBuf := amplified @ drop decoded buf, pcmRing := pcmRing t @ amplified\<rparr> in
                    if length (pcmRing t1) < encFrameSize t1 then (w, t1, Inr None) else encodeRing lib t1 w)"

section \<open>Choosing the decoder configuration\<close>

text \<open>The peak of \<^verbatim>\<open>|s|\<close> in 16-bit arithmetic, where \<^verbatim>\<open>-s\<close> of the smallest sample is the sample itself.\<close>

definition peakStep :: "sample \<Rightarrow> sample \<Rightarrow> sample" where
  "peakStep s m = (let a = (if sint s < 0 then - s else s) in if sint a > sint m then a else m)"

fun detectPeak :: "('d, 'e) codec \<Rightarrow> nat option \<Rightarrow> bytes list \<Rightarrow> sample list \<Rightarrow> sample \<Rightarrow> ('d, 'e) handles \<Rightarrow> ('d, 'e) handles \<times> sample" where
  "detectPeak lib h [] buf m w = (w, m)"
| "detectPeak lib h (f # fs) buf m w =
     (case onDecoder h (decode_frame lib f buf) (buf, - 1) w of
        (w', buf', n) \<Rightarrow> detectPeak lib h fs buf' (if n \<le> 0 then m else fold peakStep (take (nat n) buf') m) w')"

text \<open>The result for one candidate: its peak, or nothing when the decoder rejects it.\<close>

definition testCandidate :: "('d, 'e) codec \<Rightarrow> bytes list \<Rightarrow> string \<Rightarrow> ('d, 'e) handles \<Rightarrow> ('d, 'e) handles \<times> int option" where
  "testCandidate lib frs asc w0 =
     (case openDecoder lib w0 of
        (w, None) \<Rightarrow> (w, None)
      | (w, Some h) \<Rightarrow>
          (case hexDecode asc of
             Inl _ \<Rightarrow> (aacDecoder_Close (Some h) w, None)
           | Inr ascBytes \<Rightarrow>
               (case onDecoder (Some h) (config_raw lib ascBytes) 0 w of
                  (w1, code) \<Rightarrow>
                    if code \<noteq> 0 then (aacDecoder_Close (Some h) w1, None)
                    else (case detectPeak lib (Some h) frs (replicate 8192 0) 0 w1 of
                            (w2, m) \<Rightarrow> (aacDecoder_Close (Some h) w2, Some (sint m))))))"

fun testCandidates :: "('d, 'e) codec \<Rightarrow> bytes list \<Rightarrow> string list \<Rightarrow> ('d, 'e) handles \<Rightarrow> ('d, 'e) handles \<times> (string \<times> int option) list" where
  "testCandidates lib frs [] w = (w, [])"
| "testCandidates lib frs (asc # ascs) w =
     (case testCandidate lib frs asc w of
        (w1, r) \<Rightarrow> (case testCandidates lib frs ascs w1 of (w2, rs) \<Rightarrow> (w2, (asc, r) # rs)))"

fun bestCandidate :: "(string \<times> int option) list \<Rightarrow> string option \<Rightarrow> int \<Rightarrow> string option" where
  "bestCandidate [] best bestPCM = best"
| "bestCandidate ((asc, r) # rs) best bestPCM =
     (case r of
        None \<Rightarrow> bestCandidate rs best bestPCM
      | Some pk \<Rightarrow> if pk > bestPCM then bestCandidate rs (Some asc) pk else bestCandidate rs best bestPCM)"

definition autoDetectASC :: "('d, 'e) codec \<Rightarrow> AudioTranscoder \<Rightarrow> ('d, 'e) handles \<Rightarrow> ('d, 'e) handles \<times> string result" where
  "autoDetectASC lib t w =
     (case testCandidates lib (detectFrames t) (ascCandidates t) w of
        (w', rs) \<Rightarrow>
          (case bestCandidate rs None 0 of
             None \<Rightarrow> (w', Inl ''no valid ASC candidate found'')
           | Some asc \<Rightarrow> (w', Inr asc)))"

definition switchASC :: "('d, 'e) codec \<Rightarrow> AudioTranscoder \<Rightarrow> ('d, 'e) handles \<Rightarrow> ('d, 'e) handles \<times> AudioTranscoder" where
  "switchASC lib t w =
     (case autoDetectASC lib t w of
        (w1, Inl _) \<Rightarrow> (w1, t)
      | (w1, Inr asc) \<Rightarrow>
          if asc = eldASCHex t then (w1, t)
          else (case openDecoder lib (aacDecoder_Close (decoder t) w1) of
                  (w2, h) \<Rightarrow>
                    (fst (onDecoder h (config_raw lib (case hexDecode asc of Inl _ \<Rightarrow> [] | Inr ascBytes \<Rightarrow> ascBytes)) 0 w2),
                     t\<lparr>decoder := h, eldASCHex := asc\<rparr>)))"

definition detectFrameCount :: nat where
  "detectFrameCount = 20"

text \<open>The replay of the buffered frames, whose output is dropped.\<close>

fun replayFrames :: "('d, 'e) codec \<Rightarrow> bytes list \<Rightarrow> AudioTranscoder \<Rightarrow> ('d, 'e) handles \<Rightarrow> ('d, 'e) handles \<times> AudioTranscoder" where
  "replayFrames lib [] t w = (w, t)"
| "replayFrames lib (f # fs) t w = (case transcodeFrame lib f t w of (w', t', _) \<Rightarrow> replayFrames lib fs t' w')"

definition Transcode :: "('d, 'e) codec \<Rightarrow> bytes \<Rightarrow> AudioTranscoder \<Rightarrow> ('d, 'e) handles \<Rightarrow> ('d, 'e) handles \<times> AudioTranscoder \<times> bytes option result" where
  "Transcode lib frame t w =
     (if frame = [] then (w, t, Inl ''empty input frame'')
      else if detecting t
      then let t1 = t\<lparr>detectFrames := detectFrames t @ [frame]\<rparr> in
           if length (detectFrames t1) < detectFrameCount then (w, t1, Inr None)
           else (case switchASC lib (t1\<lparr>detecting := False\<rparr>) w of
                   (w2, t2) \<Rightarrow>
                     (case replayFrames lib (detectFrames t2) t2 w2 of
                        (w3, t3) \<Rightarrow> (w3, t3\<lparr>detectFrames := []\<rparr>, Inr None)))
      else transcodeFrame lib frame t w)"

definition TestDecodePeakPCM :: "('d, 'e) codec \<Rightarrow> bytes \<Rightarrow> AudioTranscoder \<Rightarrow> ('d, 'e) handles \<Rightarrow> ('d, 'e) handles \<times> int" where
  "TestDecodePeakPCM lib data t w0 =
     (if data = [] then (w0, - 1)
      else case openDecoder lib w0 of
        (w, None) \<Rightarrow> (w, - 2)
      | (w, Some h) \<Rightarrow>
          (case hexDecode (eldASCHex t) of
             Inl _ \<Rightarrow> (aacDecoder_Close (Some h) w, - 3)
           | Inr ascBytes \<Rightarrow>
               (case onDecoder (Some h) (config_raw lib ascBytes) 0 w of
                  (w1, code) \<Rightarrow>
                    if code \<noteq> 0 then (aacDecoder_Close (Some h) w1, - 4)
                    else (case onDecoder (Some h) (decode_frame lib data (replicate 8192 0)) ([], - 1) w1 of
                            (w2, buf, n) \<Rightarrow>
                              (aacDecoder_Close (Some h) w2, if n \<le> 0 then n else sint (fold peakStep (take (nat n) buf) 0))))))"

fun transcodeAll :: "('d, 'e) codec \<Rightarrow> bytes list \<Rightarrow> AudioTranscoder \<Rightarrow> ('d, 'e) handles \<Rightarrow> ('d, 'e) handles \<times> AudioTranscoder" where
  "transcodeAll lib [] t w = (w, t)"
| "transcodeAll lib (f # fs) t w = (case Transcode lib f t w of (w', t', _) \<Rightarrow> transcodeAll lib fs t' w')"

section \<open>Saturation\<close>

definition clamp16 :: "int \<Rightarrow> int" where
  "clamp16 x = max (-32768) (min 32767 x)"

lemma sint_small:
  "- (2 ^ 31) \<le> x \<Longrightarrow> x < 2 ^ 31 \<Longrightarrow> sint (of_int x :: 32 word) = x"
  by (simp add: sint_sbintrunc' signed_take_bit_int_eq_self)

lemma sint16_small: "- 32768 \<le> x \<Longrightarrow> x \<le> 32767 \<Longrightarrow> sint (of_int x :: 16 word) = x"
  by (simp add: sint_sbintrunc' signed_take_bit_int_eq_self)

text \<open>
  Amplification saturates. For every gain between -65535 and 65535, each sample is multiplied exactly and clamped to the
  16-bit range: no intermediate result overflows.
\<close>

lemma amplify_saturates:
  assumes "\<bar>g\<bar> \<le> 65535"
  shows "sint (amplify g s) = clamp16 (sint s * g)"
proof -
  have s: "-32768 \<le> sint s" "sint s \<le> 32767"
    using sint_ge [of s] sint_lt [of s] by simp_all
  have "\<bar>sint s * g\<bar> \<le> 32768 * 65535"
    unfolding abs_mult using assms s by (intro mult_mono) auto
  then have r: "- (2 ^ 31) \<le> sint s * g" "sint s * g < 2 ^ 31" by simp_all
  have "(scast s :: 32 word) * of_int g = of_int (sint s * g)" by simp
  then have v: "sint ((scast s :: 32 word) * of_int g) = sint s * g" using sint_small [OF r] by simp
  show ?thesis
    using sint16_small [of "clamp16 (sint s * g)"] sint16_small [of 32767]
    by (auto simp: amplify_def v Let_def clamp16_def max_def min_def)
qed

lemma amplify_saturates_witness: "sint (amplify 512 100) = clamp16 (sint (100 :: sample) * 512)"
  by (rule amplify_saturates) simp

lemma applyGain_append [simp]: "applyGain g (xs @ ys) = applyGain g xs @ applyGain g ys" "applyGain g [] = []"
  by (simp_all add: applyGain_def)

lemma length_applyGain [simp]: "length (applyGain g xs) = length xs"
  by (simp add: applyGain_def)

section \<open>Hexadecimal text\<close>

lemma hexVal_hexDigit: "unat x < 16 \<Longrightarrow> hexVal (hexDigit x) = Some x"
  by (auto simp: hexVal_def hexDigit_def Let_def unat_sub_if' word_unat_eq_iff take_bit_eq_mod)

text \<open>The configuration printed for the SDP reads back as the encoder's own bytes.\<close>

lemma hexDecode_encode: "hexDecode (hexEncodeUpper bs) = Inr bs"
proof (induction bs)
  case (Cons b bs)
  have "unat b < 256" using unsigned_less [where 'a = nat, of b] by simp
  then have "unat (b div 16) < 16" "unat (b mod 16) < 16" by (simp_all add: unat_div unat_mod less_mult_imp_div_less)
  then show ?case using Cons.IH div_mult_mod_eq [of b 16] by (simp add: hexEncodeUpper_def hexVal_hexDigit)
qed (simp add: hexEncodeUpper_def)

section \<open>Handles are balanced\<close>

text \<open>
  \<open>adds D E w w'\<close>: between \<open>w\<close> and \<open>w'\<close> exactly the decoders \<open>D\<close> and encoders \<open>E\<close> were opened and not closed, and no call
  used a handle that is not open.
\<close>

definition adds :: "nat set \<Rightarrow> nat set \<Rightarrow> ('d, 'e) handles \<Rightarrow> ('d, 'e) handles \<Rightarrow> bool" where
  "adds D E w w' \<longleftrightarrow> dom (decoders w') = dom (decoders w) \<union> D \<and> dom (encoders w') = dom (encoders w) \<union> E
     \<and> misuse w' = misuse w \<and> nextHandle w \<le> nextHandle w'"

definition handlesFresh :: "('d, 'e) handles \<Rightarrow> bool" where
  "handlesFresh w \<longleftrightarrow> (\<forall>h\<in>dom (decoders w) \<union> dom (encoders w). h < nextHandle w)"

definition owns :: "AudioTranscoder \<Rightarrow> ('d, 'e) handles \<Rightarrow> bool" where
  "owns t w \<longleftrightarrow> (\<exists>h\<in>dom (decoders w). decoder t = Some h) \<and> (\<exists>k\<in>dom (encoders w). encoder t = Some k)"

lemma adds_refl: "adds {} {} w w"
  by (simp add: adds_def)

lemma adds_trans: "adds D E w1 w2 \<Longrightarrow> adds {} {} w2 w3 \<Longrightarrow> adds D E w1 w3"
  by (auto simp: adds_def)

lemma adds_owns: "adds {} {} w w' \<Longrightarrow> owns t w \<Longrightarrow> owns t w'"
  by (auto simp: adds_def owns_def)

lemma onDecoder_open:
  "decoders w h = Some d \<Longrightarrow> onDecoder (Some h) f bad w = (case f d of (d', r) \<Rightarrow> (w\<lparr>decoders := (decoders w)(h \<mapsto> d')\<rparr>, r))"
  by (simp add: onDecoder_def)

lemma onEncoder_open:
  "encoders w h = Some e \<Longrightarrow> onEncoder (Some h) f bad w = (case f e of (e', r) \<Rightarrow> (w\<lparr>encoders := (encoders w)(h \<mapsto> e')\<rparr>, r))"
  by (simp add: onEncoder_def)

lemma onDecoder_adds:
  assumes "h \<in> dom (decoders w)" "onDecoder (Some h) f bad w = (w', r)"
  shows "adds {} {} w w'"
  using assms by (auto simp: onDecoder_def adds_def split: prod.splits if_splits)

lemma onEncoder_adds:
  assumes "h \<in> dom (encoders w)" "onEncoder (Some h) f bad w = (w', r)"
  shows "adds {} {} w w'"
  using assms by (auto simp: onEncoder_def adds_def split: prod.splits if_splits)

lemma openDecoder_adds:
  assumes "handlesFresh w" "openDecoder lib w = (w', r)"
  shows "case r of None \<Rightarrow> adds {} {} w w' | Some h \<Rightarrow> h \<notin> dom (decoders w) \<and> adds {h} {} w w' \<and> handlesFresh w'"
proof -
  have "decoders w (nextHandle w) = None" "\<forall>h\<in>dom (decoders w) \<union> dom (encoders w). h < Suc (nextHandle w)"
    using assms(1) by (auto simp: handlesFresh_def intro: less_SucI)
  then show ?thesis
    using assms(2) by (cases "aacDecoder_Open lib (nextHandle w)") (auto simp: openDecoder_def adds_def handlesFresh_def Let_def)
qed

lemma openEnc_adds:
  assumes "adds D {} w w1" "handlesFresh w" "openEnc lib w1 = (w', r)"
  shows "case r of Inl _ \<Rightarrow> adds D {} w w' | Inr k \<Rightarrow> k \<notin> dom (encoders w) \<and> adds D {k} w w'"
proof -
  have "nextHandle w1 \<notin> dom (encoders w)"
    using assms(1,2) unfolding handlesFresh_def adds_def by (meson UnI2 not_less)
  then show ?thesis
    using assms(1,3) by (cases "aacEncOpen lib (nextHandle w1)") (auto simp: openEnc_def adds_def Let_def)
qed

lemma aacDecoder_Close_adds:
  assumes "adds {h} E w w'" "h \<notin> dom (decoders w)"
  shows "adds {} E w (aacDecoder_Close (Some h) w')"
proof -
  have "h \<in> dom (decoders w')" using assms(1) by (simp add: adds_def)
  then obtain x where "decoders w' h = Some x" by blast
  then show ?thesis using assms by (auto simp: adds_def aacDecoder_Close_def)
qed

lemma aacEncClose_adds:
  assumes "adds D {k} w w'" "k \<notin> dom (encoders w)"
  shows "adds D {} w (aacEncClose (Some k) w')"
proof -
  have "k \<in> dom (encoders w')" using assms(1) by (simp add: adds_def)
  then obtain x where "encoders w' k = Some x" by blast
  then show ?thesis using assms by (auto simp: adds_def aacEncClose_def)
qed

lemma CloseTranscoder_adds:
  assumes "adds {h} {k} w w'" "h \<notin> dom (decoders w)" "k \<notin> dom (encoders w)" "decoder t = Some h" "encoder t = Some k"
  shows "adds {} {} w (fst (CloseTranscoder t w'))"
  using aacEncClose_adds [OF aacDecoder_Close_adds [OF assms(1,2)] assms(3)] assms(4,5) by (simp add: CloseTranscoder_def)

lemma setDecoderParams_adds:
  assumes "h \<in> dom (decoders w)"
  shows "adds {} {} w (setDecoderParams lib (Some h) w)"
proof -
  have "h \<in> dom (decoders w) \<Longrightarrow> adds {} {} w (fold (\<lambda>(p, v) w. fst (onDecoder (Some h) (aacDecoder_SetParam lib p v) 0 w)) ps w)" for ps
  proof (induction ps arbitrary: w)
    case (Cons q ps)
    obtain p v where q: "q = (p, v)" by fastforce
    obtain w' r where o: "onDecoder (Some h) (aacDecoder_SetParam lib p v) 0 w = (w', r)" by fastforce
    note a = onDecoder_adds [OF Cons.prems o]
    then have "h \<in> dom (decoders w')" using Cons.prems by (simp add: adds_def)
    from adds_trans [OF a Cons.IH [OF this]] show ?case by (simp add: q o)
  qed (simp add: adds_refl)
  then show ?thesis using assms unfolding setDecoderParams_def by blast
qed

lemma setParams_adds: "k \<in> dom (encoders w) \<Longrightarrow> setParams lib (Some k) ps w = (w', r) \<Longrightarrow> adds {} {} w w'"
proof (induction ps arbitrary: w)
  case (Cons q ps)
  obtain p v where q: "q = (p, v)" by fastforce
  obtain w1 code where o: "onEncoder (Some k) (aacEncoder_SetParam lib p v) 0 w = (w1, code)" by fastforce
  note a = onEncoder_adds [OF Cons.prems(1) o]
  then have "k \<in> dom (encoders w1)" using Cons.prems(1) by (simp add: adds_def)
  then show ?case using a Cons.prems(2) adds_trans [OF a Cons.IH] by (auto simp: q o split: if_splits)
qed (simp add: adds_refl)

lemma configureEncoder_adds:
  assumes "k \<in> dom (encoders w)" "configureEncoder lib rate (Some k) w = (w', r)"
  shows "adds {} {} w w'"
proof -
  obtain w1 r1 where 1: "setParams lib (Some k) (encoderParams lib rate) w = (w1, r1)" by fastforce
  obtain w2 r2 where 2: "onEncoder (Some k) (aacEncInit lib) 0 w1 = (w2, r2)" by fastforce
  obtain w3 r3 where 3: "onEncoder (Some k) (\<lambda>e. (e, aacEncInfo lib e)) (Inl 0) w2 = (w3, r3)" by fastforce
  have a1: "adds {} {} w w1" by (rule setParams_adds [OF assms(1) 1])
  have a2: "adds {} {} w1 w2" by (rule onEncoder_adds [OF _ 2]) (use a1 assms(1) in \<open>simp add: adds_def\<close>)
  have a3: "adds {} {} w2 w3" by (rule onEncoder_adds [OF _ 3]) (use a1 a2 assms(1) in \<open>simp add: adds_def\<close>)
  show ?thesis
    using assms(2) a1 adds_trans [OF a1 a2] adds_trans [OF adds_trans [OF a1 a2] a3]
    by (auto simp: configureEncoder_def 1 2 3 split: sum.splits if_splits)
qed

lemma buildEncoder_adds:
  assumes "handlesFresh w" "adds {h} {} w w1" "h \<notin> dom (decoders w)" "decoder t0 = Some h" "buildEncoder lib rate t0 w1 = (w', r)"
  shows "case r of Inl _ \<Rightarrow> adds {} {} w w'
    | Inr t \<Rightarrow> (\<exists>k. k \<notin> dom (encoders w) \<and> adds {h} {k} w w' \<and> decoder t = Some h \<and> encoder t = Some k)
        \<and> length (decBuf t) = 8192 \<and> pcmRing t = pcmRing t0 \<and> detecting t = detecting t0"
proof -
  obtain w2 r2 where 2: "openEnc lib w1 = (w2, r2)" by fastforce
  note a2 = openEnc_adds [OF assms(2,1) 2]
  show ?thesis
  proof (cases r2)
    case (Inl code)
    then show ?thesis using assms(5) a2 aacDecoder_Close_adds [OF _ assms(3)] by (auto simp: buildEncoder_def 2 assms(4))
  next
    case (Inr k)
    then have k: "k \<notin> dom (encoders w)" "adds {h} {k} w w2" using a2 by simp_all
    obtain w3 r3 where 3: "configureEncoder lib rate (Some k) w2 = (w3, r3)" by fastforce
    have "k \<in> dom (encoders w2)" using k by (simp add: adds_def)
    from adds_trans [OF k(2) configureEncoder_adds [OF this 3]] have a3: "adds {h} {k} w w3" .
    show ?thesis
      using assms(4,5) k(1) a3 CloseTranscoder_adds [OF a3 assms(3) k(1), of "t0\<lparr>encoder := Some k\<rparr>"]
      by (auto simp: buildEncoder_def 2 3 Inr Let_def split: sum.splits)
  qed
qed

lemma TrimSpace_decode: "hexDecode s = Inr [] \<Longrightarrow> s = []"
  by (induction s rule: hexDecode.induct) (auto split: option.splits sum.splits)

lemma NewAudioTranscoder_adds:
  assumes "handlesFresh w" "TrimSpace asc \<noteq> []" "NewAudioTranscoder lib rate asc g w = (w', r)"
  shows "case r of Inl _ \<Rightarrow> adds {} {} w w'
    | Inr t \<Rightarrow> (\<exists>h k. h \<notin> dom (decoders w) \<and> k \<notin> dom (encoders w) \<and> adds {h} {k} w w' \<and> decoder t = Some h \<and> encoder t = Some k)
        \<and> length (decBuf t) = 8192 \<and> pcmRing t = [] \<and> \<not> detecting t \<and> gain t = g"
proof -
  obtain w1 r1 where 1: "openDecoder lib w = (w1, r1)" by fastforce
  note a1 = openDecoder_adds [OF assms(1) 1]
  show ?thesis
  proof (cases r1)
    case None
    then show ?thesis using assms(3) a1 by (auto simp: NewAudioTranscoder_def newTranscoderWithASC_def 1)
  next
    case (Some h)
    then have h: "h \<notin> dom (decoders w)" "adds {h} {} w w1" using a1 by simp_all
    show ?thesis
    proof (cases "hexDecode (TrimSpace asc)")
      case (Inl e)
      then show ?thesis using assms(3) aacDecoder_Close_adds [OF h(2,1)]
        by (auto simp: NewAudioTranscoder_def newTranscoderWithASC_def 1 Some)
    next
      case (Inr bs)
      then have bs: "bs \<noteq> []" using TrimSpace_decode assms(2) by blast
      obtain w2 code where 2: "onDecoder (Some h) (config_raw lib bs) 0 w1 = (w2, code)" by fastforce
      have "h \<in> dom (decoders w1)" using h(2) by (simp add: adds_def)
      from adds_trans [OF h(2) onDecoder_adds [OF this 2]] have a2: "adds {h} {} w w2" .
      then have "h \<in> dom (decoders w2)" by (simp add: adds_def)
      from adds_trans [OF a2 setDecoderParams_adds [OF this]] have a3: "adds {h} {} w (setDecoderParams lib (Some h) w2)" .
      obtain w4 r4 where 4: "buildEncoder lib rate (emptyTranscoder asc (Some h)) (setDecoderParams lib (Some h) w2) = (w4, r4)" by fastforce
      have e: "decoder (emptyTranscoder asc (Some h)) = Some h" "pcmRing (emptyTranscoder asc (Some h)) = []"
        "\<not> detecting (emptyTranscoder asc (Some h))" by (simp_all add: emptyTranscoder_def)
      note b = buildEncoder_adds [OF assms(1) a3 h(1) e(1) 4]
      show ?thesis
        using assms(3) b h(1) aacDecoder_Close_adds [OF a2 h(1)] bs
        by (cases "code = 0"; cases r4)
          (auto simp: NewAudioTranscoder_def newTranscoderWithASC_def 1 2 4 Some Inr e)
    qed
  qed
qed

text \<open>Transcoding uses only the transcoder's own handles and keeps them open.\<close>

lemma onDecoder_owned:
  assumes "owns t w" "onDecoder (decoder t) f bad w = (w', r)"
  shows "adds {} {} w w'"
  using assms onDecoder_adds unfolding owns_def by metis

lemma onEncoder_owned:
  assumes "owns t w" "onEncoder (encoder t) f bad w = (w', r)"
  shows "adds {} {} w w'"
  using assms onEncoder_adds unfolding owns_def by metis

lemma encodeRing_keeps:
  assumes "owns t w" "encodeRing lib t w = (w', t', r)"
  shows "adds {} {} w w' \<and> decoder t' = decoder t \<and> encoder t' = encoder t \<and> detecting t' = detecting t"
proof -
  obtain w1 buf n where 1: "onEncoder (encoder t) (encode_frame lib (take (encFrameSize t) (pcmRing t)) (encBuf t)) (encBuf t, - 1) w = (w1, buf, n)"
    using prod_cases3 by blast
  show ?thesis
    using assms(2) onEncoder_owned [OF assms(1) 1] adds_refl by (auto simp: encodeRing_def 1 Let_def split: if_splits)
qed

lemma transcodeFrame_keeps:
  assumes "owns t w" "transcodeFrame lib f t w = (w', t', r)"
  shows "adds {} {} w w' \<and> decoder t' = decoder t \<and> encoder t' = encoder t \<and> detecting t' = detecting t"
proof -
  obtain w1 buf n where 1: "onDecoder (decoder t) (decode_frame lib f (decBuf t)) (decBuf t, - 1) w = (w1, buf, n)"
    using prod_cases3 by blast
  note a = onDecoder_owned [OF assms(1) 1]
  define amp where "amp = applyGain (gain t) (take (nat n) buf)"
  define t1 where "t1 = t\<lparr>frameCount := frameCount t + 1, decBuf := amp @ drop (nat n) buf, pcmRing := pcmRing t @ amp\<rparr>"
  have o: "owns t1 w1" using adds_owns [OF a assms(1)] by (simp add: owns_def t1_def)
  have cases: "(w' = w1 \<and> decoder t' = decoder t \<and> encoder t' = encoder t \<and> detecting t' = detecting t) \<or> encodeRing lib t1 w1 = (w', t', r)"
    using assms(2) by (auto simp: transcodeFrame_def 1 Let_def t1_def amp_def split: if_splits)
  then show ?thesis
  proof
    assume "encodeRing lib t1 w1 = (w', t', r)"
    from encodeRing_keeps [OF o this] show ?thesis using adds_trans [OF a] by (simp add: t1_def)
  qed (use a in simp)
qed

lemma Transcode_keeps:
  assumes "owns t w" "\<not> detecting t" "Transcode lib f t w = (w', t', r)"
  shows "adds {} {} w w' \<and> decoder t' = decoder t \<and> encoder t' = encoder t \<and> \<not> detecting t'"
  using assms transcodeFrame_keeps [OF assms(1), of lib f] by (auto simp: Transcode_def adds_refl split: if_splits)

lemma transcodeAll_keeps:
  "owns t w \<Longrightarrow> \<not> detecting t \<Longrightarrow> transcodeAll lib fs t w = (w', t') \<Longrightarrow>
   adds {} {} w w' \<and> decoder t' = decoder t \<and> encoder t' = encoder t \<and> \<not> detecting t'"
proof (induction fs arbitrary: t w)
  case (Cons f fs)
  obtain w1 t1 r where 1: "Transcode lib f t w = (w1, t1, r)" using prod_cases3 by blast
  note k = Transcode_keeps [OF Cons.prems(1,2) 1]
  then have "owns t1 w1" using adds_owns [of w w1 t] Cons.prems(1) by (simp add: owns_def)
  then show ?case using Cons.IH [of t1 w1] Cons.prems(3) k adds_trans [of "{}" "{}" w w1 w'] by (auto simp: 1)
qed (simp add: adds_refl)

lemma transcoder_balanced:
  assumes "handlesFresh w" "TrimSpace asc \<noteq> []" "NewAudioTranscoder lib rate asc g w = (w1, Inr t)" "transcodeAll lib fs t w1 = (w2, t2)"
  shows "owns t2 w2 \<and> misuse w2 = misuse w \<and> adds {} {} w (fst (CloseTranscoder t2 w2))"
proof -
  obtain h k where hk: "h \<notin> dom (decoders w)" "k \<notin> dom (encoders w)" "adds {h} {k} w w1" "decoder t = Some h" "encoder t = Some k"
    and d: "\<not> detecting t"
    using NewAudioTranscoder_adds [OF assms(1-3)] by auto
  have o: "owns t w1" using hk by (auto simp: owns_def adds_def)
  note k2 = transcodeAll_keeps [OF o d assms(4)]
  then have a2: "adds {h} {k} w w2" using adds_trans [OF hk(3)] by blast
  have "owns t2 w2" using adds_owns [OF _ o] k2 by (simp add: owns_def)
  then show ?thesis using a2 CloseTranscoder_adds [OF a2 hk(1,2)] k2 hk(4,5) by (simp add: adds_def)
qed

text \<open>
  C36. Codec handles are balanced. A transcoder whose construction fails leaves no decoder or encoder open, whichever
  call of the library failed; one that was made holds exactly one of each while it transcodes, and closing it after any
  frames leaves the open handles as they were. No call ever uses a nil or closed handle.
\<close>

theorem codec_handles_balanced:
  assumes "handlesFresh w" "TrimSpace asc \<noteq> []" "NewAudioTranscoder lib rate asc g w = (w1, r)"
  shows "case r of Inl _ \<Rightarrow> adds {} {} w w1
    | Inr t \<Rightarrow> (case transcodeAll lib fs t w1 of (w2, t2) \<Rightarrow> case CloseTranscoder t2 w2 of (w3, t3) \<Rightarrow>
        owns t2 w2 \<and> misuse w2 = misuse w \<and> adds {} {} w w3 \<and> decoder t3 = None \<and> encoder t3 = None)"
proof (cases r)
  case (Inl e)
  then show ?thesis using NewAudioTranscoder_adds [OF assms] by simp
next
  case (Inr t)
  obtain w2 t2 where 2: "transcodeAll lib fs t w1 = (w2, t2)" by fastforce
  show ?thesis
    using transcoder_balanced [OF assms(1,2) assms(3) [unfolded Inr] 2] by (auto simp: Inr 2 CloseTranscoder_def Let_def)
qed

text \<open>Closing twice is harmless: the first call sets both handles to nil.\<close>

lemma CloseTranscoder_idem:
  assumes "CloseTranscoder t w = (w1, t1)"
  shows "CloseTranscoder t1 w1 = (w1, t1)"
  using assms by (auto simp: CloseTranscoder_def Let_def)

text \<open>After closing, a frame is sent into the library with a nil decoder.\<close>

lemma Transcode_after_Close:
  assumes "CloseTranscoder t w = (w1, t1)" "\<not> detecting t" "f \<noteq> []"
  shows "misuse (fst (Transcode lib f t1 w1))"
proof -
  have "decoder t1 = None" "\<not> detecting t1" using assms(1,2) by (auto simp: CloseTranscoder_def Let_def)
  then show ?thesis using assms(3) by (simp add: Transcode_def transcodeFrame_def onDecoder_def)
qed

text \<open>The temporary decoder of the peak test is always closed again.\<close>

lemma TestDecodePeakPCM_balanced:
  assumes "handlesFresh w" "TestDecodePeakPCM lib data t w = (w', p)"
  shows "adds {} {} w w'"
proof (cases "data = []")
  case True
  then show ?thesis using assms(2) by (simp add: TestDecodePeakPCM_def adds_refl)
next
  case False
  obtain w1 r1 where 1: "openDecoder lib w = (w1, r1)" by fastforce
  note a1 = openDecoder_adds [OF assms(1) 1]
  show ?thesis
  proof (cases r1)
    case None
    then show ?thesis using assms(2) a1 False by (simp add: TestDecodePeakPCM_def 1)
  next
    case (Some h)
    then have h: "h \<notin> dom (decoders w)" "adds {h} {} w w1" using a1 by simp_all
    note close = aacDecoder_Close_adds [OF _ h(1)]
    show ?thesis
    proof (cases "hexDecode (eldASCHex t)")
      case (Inl e)
      then show ?thesis using assms(2) False close [OF h(2)] by (simp add: TestDecodePeakPCM_def 1 Some)
    next
      case (Inr bs)
      obtain w2 code where 2: "onDecoder (Some h) (config_raw lib bs) 0 w1 = (w2, code)" by fastforce
      obtain w3 buf n where 3: "onDecoder (Some h) (decode_frame lib data (replicate 8192 0)) ([], - 1) w2 = (w3, buf, n)"
        using prod_cases3 by blast
      have a2: "adds {h} {} w w2" using adds_trans [OF h(2) onDecoder_adds [OF _ 2]] h(2) by (simp add: adds_def)
      have a3: "adds {h} {} w w3" using adds_trans [OF a2 onDecoder_adds [OF _ 3]] a2 by (simp add: adds_def)
      show ?thesis using assms(2) False close [OF a2] close [OF a3] by (auto simp: TestDecodePeakPCM_def 1 2 3 Some Inr split: if_splits)
    qed
  qed
qed

section \<open>The detection\<close>

text \<open>The detection returns a candidate of the highest positive peak.\<close>

lemma bestCandidate_best:
  assumes "bestCandidate rs best m = r"
    and "case best of None \<Rightarrow> m = 0 | Some a \<Rightarrow> 0 < m"
  shows "case r of None \<Rightarrow> best = None \<and> (\<forall>a k. (a, Some k) \<in> set rs \<longrightarrow> k \<le> 0)
    | Some a \<Rightarrow> (\<exists>k>0. (best = Some a \<and> k = m \<or> (a, Some k) \<in> set rs) \<and> m \<le> k
        \<and> (\<forall>a' k'. (a', Some k') \<in> set rs \<longrightarrow> k' \<le> k))"
  using assms
proof (induction rs arbitrary: best m)
  case Nil
  then show ?case by (auto split: option.splits)
next
  case (Cons x rs)
  obtain asc p where x: "x = (asc, p)" by fastforce
  show ?case
  proof (cases "\<exists>k. p = Some k \<and> k > m")
    case True
    then obtain k where k: "p = Some k" "k > m" by blast
    moreover have "0 < k" using k(2) Cons.prems(2) by (auto split: option.splits)
    ultimately show ?thesis
      using Cons.IH [of "Some asc" k] Cons.prems by (fastforce simp: x split: option.splits)
  next
    case False
    then show ?thesis using Cons.IH [of best m] Cons.prems by (fastforce simp: x split: option.splits if_splits)
  qed
qed

lemma testCandidates_names: "map fst (snd (testCandidates lib frs ascs w)) = ascs"
  by (induction ascs arbitrary: w) (auto split: prod.splits, metis snd_conv)

lemma autoDetectASC_best:
  assumes "autoDetectASC lib t w = (w', Inr asc)"
  shows "asc \<in> set (ascCandidates t) \<and> (\<exists>k>0. (asc, Some k) \<in> set (snd (testCandidates lib (detectFrames t) (ascCandidates t) w))
    \<and> (\<forall>a k'. (a, Some k') \<in> set (snd (testCandidates lib (detectFrames t) (ascCandidates t) w)) \<longrightarrow> k' \<le> k))"
proof -
  define rs where "rs = snd (testCandidates lib (detectFrames t) (ascCandidates t) w)"
  have "bestCandidate rs None 0 = Some asc"
    using assms by (auto simp: autoDetectASC_def rs_def split: prod.splits option.splits)
  from bestCandidate_best [OF this] obtain k where k: "0 < k" "(asc, Some k) \<in> set rs" "\<forall>a k'. (a, Some k') \<in> set rs \<longrightarrow> k' \<le> k"
    by auto
  then have "asc \<in> fst ` set rs" by force
  then have "asc \<in> set (ascCandidates t)"
    using testCandidates_names [of lib "detectFrames t" "ascCandidates t" w] unfolding rs_def by (metis list.set_map)
  then show ?thesis using k unfolding rs_def by blast
qed

text \<open>The constructor never fills the candidate list, so a detection would find nothing to try.\<close>

lemma autoDetectASC_no_candidates:
  assumes "NewAudioTranscoder lib rate asc g w = (w', Inr t)"
  shows "autoDetectASC lib (t\<lparr>detectFrames := frs\<rparr>) w1 = (w1, Inl ''no valid ASC candidate found'')"
  using assms
  by (auto simp: autoDetectASC_def NewAudioTranscoder_def newTranscoderWithASC_def buildEncoder_def emptyTranscoder_def Let_def
      split: sum.splits if_splits prod.splits option.splits)

section \<open>The bits of an AudioSpecificConfig\<close>

text \<open>
  The layout the source documents for \<open>eldASCCandidates\<close>: bits are counted from the most significant bit of the first byte.
  \<open>samplingFrequencies\<close> is the table of ISO/IEC 14496-3, of which the source quotes the entries 8, 9 and 11.
\<close>

definition ascBits :: "bytes \<Rightarrow> bool list" where
  "ascBits bs = concat (map (\<lambda>b. map (bit b) [7, 6, 5, 4, 3, 2, 1, 0]) bs)"

definition ascField :: "nat \<Rightarrow> nat \<Rightarrow> bytes \<Rightarrow> nat" where
  "ascField from n bs = fold (\<lambda>b acc. 2 * acc + of_bool b) (take n (drop from (ascBits bs))) 0"

definition samplingFrequencies :: "int list" where
  "samplingFrequencies = [96000, 88200, 64000, 48000, 44100, 32000, 24000, 22050, 16000, 12000, 11025, 8000, 7350]"

record eldConfig =
  objectType :: nat
  coreRate :: "int option"
  channelConfig :: nat
  frameLength480 :: bool
  ldSbr :: bool

definition parseASC :: "string \<Rightarrow> eldConfig option" where
  "parseASC hex =
     (case hexDecode hex of
        Inl _ \<Rightarrow> None
      | Inr bs \<Rightarrow>
          if ascField 0 5 bs \<noteq> 31 \<or> length bs < 3 then None
          else let i = ascField 11 4 bs in
               Some \<lparr>objectType = 32 + ascField 5 6 bs,
                     coreRate = (if i < length samplingFrequencies then Some (samplingFrequencies ! i) else None),
                     channelConfig = ascField 15 4 bs, frameLength480 = (ascField 19 1 bs = 1), ldSbr = (ascField 23 1 bs = 1)\<rparr>)"

text \<open>The rate of the decoded samples: with LD-SBR it is twice the core's.\<close>

definition outputRate :: "eldConfig \<Rightarrow> int option" where
  "outputRate c = map_option (\<lambda>r. if ldSbr c then 2 * r else r) (coreRate c)"

definition ascRate :: "string \<Rightarrow> int option" where
  "ascRate hex =
     (case parseASC hex of
        None \<Rightarrow> None
      | Some c \<Rightarrow> if objectType c = 39 \<and> channelConfig c = 1 then outputRate c else None)"

text \<open>
  Every candidate for 16 and 24 kHz is a mono AAC-ELD configuration (object type 39) of the requested output rate. The
  two for 8 kHz are not: their frequency index is 12, which stands for 7350 Hz, where 8 kHz is index 11.
\<close>

lemma candidates_rate:
  "list_all (\<lambda>a. ascRate a = Some 16000) (eldASCCandidates 16000)"
  "list_all (\<lambda>a. ascRate a = Some 24000) (eldASCCandidates 24000)"
  "list_all (\<lambda>a. ascRate a = Some 7350) (eldASCCandidates 8000)"
  by code_simp+

section \<open>The ring\<close>

text \<open>
  What the decoder library yields for one frame, apart from the buffer it writes to, and all samples for a
  sequence of frames in order; failing frames yield none.
\<close>

definition decodeOne :: "('d, 'e) codec \<Rightarrow> bytes \<Rightarrow> 'd \<Rightarrow> 'd \<times> sample list option" where
  "decodeOne lib f d =
     (case aacDecoder_Fill lib f d of
        (d1, err) \<Rightarrow>
          if err \<noteq> 0 then (d1, None)
          else (case aacDecoder_DecodeFrame lib 8192 d1 of
                  (d2, err2, pcm) \<Rightarrow> (d2, if err2 \<noteq> 0 \<or> aacDecoder_GetStreamInfo lib d2 = None then None else Some pcm)))"

fun decodedSamples :: "('d, 'e) codec \<Rightarrow> bytes list \<Rightarrow> 'd \<Rightarrow> sample list" where
  "decodedSamples lib [] d = []"
| "decodedSamples lib (f # fs) d =
     (if f = [] then decodedSamples lib fs d
      else case decodeOne lib f d of
             (d', None) \<Rightarrow> decodedSamples lib fs d'
           | (d', Some ss) \<Rightarrow> ss @ decodedSamples lib fs d')"

text \<open>
  What the library documents of a decoded frame: it has \<^verbatim>\<open>frameSize * numChannels\<close> samples and fits the buffer;
  here also at most \<open>m\<close> samples.
\<close>

definition decodesWithin :: "nat \<Rightarrow> ('d, 'e) codec \<Rightarrow> bool" where
  "decodesWithin m lib \<longleftrightarrow> (\<forall>n d d2 pcm fs ch. aacDecoder_DecodeFrame lib n d = (d2, 0, pcm) \<longrightarrow>
     aacDecoder_GetStreamInfo lib d2 = Some (fs, ch) \<longrightarrow> int (length pcm) = fs * ch \<and> length pcm \<le> n \<and> length pcm \<le> m)"

text \<open>An encoder that never fails and whose state is the list of the samples it was given.\<close>

definition recording :: "(sample list \<Rightarrow> bytes) \<Rightarrow> ('d, sample list) codec \<Rightarrow> bool" where
  "recording out lib \<longleftrightarrow> aacEncEncode lib = (\<lambda>fr n log. (log @ fr, 0, out fr))"

lemma writeBuf_simps [simp]:
  "length (writeBuf out buf) = length buf"
  "length out \<le> length buf \<Longrightarrow> take (length out) (writeBuf out buf) = out"
  by (simp_all add: writeBuf_def)

lemma decode_frame_One:
  assumes "decodesWithin m lib" "length buf = 8192" "decode_frame lib f buf d = (d', buf', n)"
  shows "length buf' = 8192
    \<and> (decodeOne lib f d = (d', None) \<and> n < 0
       \<or> (\<exists>ss. decodeOne lib f d = (d', Some ss) \<and> n = int (length ss) \<and> take (nat n) buf' = ss \<and> length ss \<le> m \<and> length ss \<le> 8192))"
proof -
  obtain d1 err where 1: "aacDecoder_Fill lib f d = (d1, err)" by fastforce
  obtain d2 err2 pcm where 2: "aacDecoder_DecodeFrame lib 8192 d1 = (d2, err2, pcm)" using prod_cases3 by blast
  have law: "int (length pcm) = fs * ch \<and> length pcm \<le> 8192 \<and> length pcm \<le> m"
    if "err2 = 0" "aacDecoder_GetStreamInfo lib d2 = Some (fs, ch)" for fs ch
    using assms(1) 2 that unfolding decodesWithin_def by blast
  show ?thesis
  proof (cases "aacDecoder_GetStreamInfo lib d2")
    case None
    then show ?thesis using assms(2,3) by (auto simp: decode_frame_def decodeOne_def 1 2 split: if_splits)
  next
    case (Some i)
    then obtain fs ch where i: "aacDecoder_GetStreamInfo lib d2 = Some (fs, ch)" by (cases i) auto
    show ?thesis
    proof (cases "err = 0 \<and> err2 = 0")
      case True
      note l = law [OF conjunct2 [OF True] i]
      have n: "n = int (length pcm)" "buf' = writeBuf pcm buf" "d' = d2"
        using assms(2,3) True i l by (auto simp: decode_frame_def 1 2)
      moreover have "nat (fs * ch) = length pcm" using l by (metis nat_int)
      ultimately show ?thesis using l assms(2) True i by (simp add: decodeOne_def 1 2)
    next
      case False
      then show ?thesis using assms(2,3) i by (auto simp: decode_frame_def decodeOne_def 1 2 split: if_splits)
    qed
  qed
qed

text \<open>A transcoder in step with the library: its decoder is in state \<open>d\<close>, its encoder was given the samples \<open>log\<close>.\<close>

definition inStep :: "AudioTranscoder \<Rightarrow> ('d, sample list) handles \<Rightarrow> 'd \<Rightarrow> sample list \<Rightarrow> bool" where
  "inStep t w d log \<longleftrightarrow> Option.bind (decoder t) (decoders w) = Some d \<and> Option.bind (encoder t) (encoders w) = Some log
     \<and> length (decBuf t) = 8192 \<and> \<not> detecting t \<and> length (pcmRing t) < encFrameSize t"

lemma encodeRing_recording:
  assumes "recording out lib" "Option.bind (encoder t) (encoders w) = Some log" "0 < encFrameSize t"
    "encodeRing lib t w = (w', t', r)"
  shows "decoders w' = decoders w \<and> Option.bind (encoder t) (encoders w') = Some (log @ take (encFrameSize t) (pcmRing t))
    \<and> (\<exists>buf. t' = t\<lparr>encBuf := buf, pcmRing := drop (encFrameSize t) (pcmRing t)\<rparr>)"
proof -
  obtain k where k: "encoder t = Some k" "encoders w k = Some log" using assms(2) by (cases "encoder t") auto
  have "\<exists>buf. t\<lparr>encBuf := b, pcmRing := rest\<rparr> = t\<lparr>encBuf := buf, pcmRing := rest\<rparr>" for b rest by blast
  then show ?thesis
    using assms(1,3,4) k
    by (auto simp: encodeRing_def onEncoder_def encode_frame_def recording_def Let_def split: if_splits)
qed

lemma transcodeFrame_decoded:
  fixes t :: AudioTranscoder and ss :: "sample list" and buf :: "sample list"
  defines "amp \<equiv> applyGain (gain t) ss"
  defines "t1 \<equiv> t\<lparr>frameCount := frameCount t + 1, decBuf := amp @ drop (length ss) buf, pcmRing := pcmRing t @ amp\<rparr>"
  assumes "onDecoder (decoder t) (decode_frame lib f (decBuf t)) (decBuf t, - 1) w = (w1, buf, int (length ss))"
    and "take (length ss) buf = ss" "length (pcmRing t) + length ss \<le> ringCapacity t" "length ss \<le> length buf"
  shows "transcodeFrame lib f t w = (if length (pcmRing t1) < encFrameSize t then (w1, t1, Inr None) else encodeRing lib t1 w1)"
  using assms(4-6) by (simp add: transcodeFrame_def assms(3) Let_def ringCapacity_def t1_def amp_def)

lemma Transcode_failed:
  assumes "decodesWithin m lib" "inStep t w d log" "f \<noteq> []" "Transcode lib f t w = (w', t', r)" "decodeOne lib f d = (d', None)"
  shows "inStep t' w' d' log \<and> gain t' = gain t \<and> encFrameSize t' = encFrameSize t \<and> pcmRing t' = pcmRing t"
proof -
  obtain h where h: "decoder t = Some h" "decoders w h = Some d" using assms(2) by (cases "decoder t") (auto simp: inStep_def)
  obtain d1 buf n where dec: "decode_frame lib f (decBuf t) d = (d1, buf, n)" using prod_cases3 by blast
  have "length (decBuf t) = 8192" using assms(2) by (simp add: inStep_def)
  from decode_frame_One [OF assms(1) this dec] assms(5) have "d1 = d'" "n < 0" "length buf = 8192" by auto
  then show ?thesis
    using assms(2-4) h by (auto simp: Transcode_def transcodeFrame_def onDecoder_def dec inStep_def)
qed

lemma Transcode_decoded:
  assumes "recording out lib" "decodesWithin (encFrameSize t) lib" "inStep t w d log" "f \<noteq> []" "Transcode lib f t w = (w', t', r)"
    "decodeOne lib f d = (d', Some ss)"
  shows "\<exists>log'. inStep t' w' d' log' \<and> gain t' = gain t \<and> encFrameSize t' = encFrameSize t
    \<and> log' @ pcmRing t' = log @ pcmRing t @ applyGain (gain t) ss"
proof -
  obtain h where h: "decoder t = Some h" "decoders w h = Some d" using assms(3) by (cases "decoder t") (auto simp: inStep_def)
  obtain d1 buf n where dec: "decode_frame lib f (decBuf t) d = (d1, buf, n)" using prod_cases3 by blast
  have len: "length (decBuf t) = 8192" "\<not> detecting t" using assms(3) by (simp_all add: inStep_def)
  from decode_frame_One [OF assms(2) len(1) dec] assms(6)
  have ss: "d1 = d'" "n = int (length ss)" "take (length ss) buf = ss" "length ss \<le> encFrameSize t" "length ss \<le> 8192" "length buf = 8192"
    by auto
  define amp where "amp = applyGain (gain t) ss"
  define t1 where "t1 = t\<lparr>frameCount := frameCount t + 1, decBuf := amp @ drop (length ss) buf, pcmRing := pcmRing t @ amp\<rparr>"
  define w1 where "w1 = w\<lparr>decoders := (decoders w)(h \<mapsto> d')\<rparr>"
  have on: "onDecoder (decoder t) (decode_frame lib f (decBuf t)) (decBuf t, - 1) w = (w1, buf, int (length ss))"
    by (simp add: h onDecoder_def dec w1_def ss(1,2))
  have room: "length (pcmRing t) + length ss \<le> ringCapacity t" "0 < encFrameSize t" "length ss \<le> length buf"
    using ss assms(3) by (auto simp: ringCapacity_def inStep_def)
  have step: "(w', t', r) = (if length (pcmRing t1) < encFrameSize t then (w1, t1, Inr None) else encodeRing lib t1 w1)"
    using assms(4,5) len(2) transcodeFrame_decoded [OF on ss(3) room(1,3)] unfolding Transcode_def t1_def amp_def by simp
  have e1: "Option.bind (encoder t1) (encoders w1) = Some log" "0 < encFrameSize t1" using assms(3) room by (simp_all add: inStep_def t1_def w1_def)
  show ?thesis
  proof (cases "length (pcmRing t1) < encFrameSize t")
    case True
    moreover have "inStep t1 w1 d' log" using True h assms(3) ss(5,6) by (simp add: inStep_def t1_def w1_def amp_def)
    ultimately show ?thesis using step by (intro exI [of _ log]) (simp add: t1_def amp_def)
  next
    case False
    then have "encodeRing lib t1 w1 = (w', t', r)" using step by simp
    note er = encodeRing_recording [OF assms(1) e1 this]
    have "inStep t' w' d' (log @ take (encFrameSize t1) (pcmRing t1))"
      using er room ss(4-6) h assms(3) by (auto simp: inStep_def t1_def amp_def w1_def)
    moreover have "(log @ take (encFrameSize t1) (pcmRing t1)) @ pcmRing t' = log @ pcmRing t1" using er by auto
    moreover have "gain t' = gain t1" "encFrameSize t' = encFrameSize t1" using er by auto
    ultimately show ?thesis unfolding amp_def t1_def by fastforce
  qed
qed

lemma Transcode_recording:
  assumes "recording out lib" "decodesWithin (encFrameSize t) lib" "inStep t w d log" "Transcode lib f t w = (w', t', r)"
  shows "\<exists>d' log'. inStep t' w' d' log' \<and> gain t' = gain t \<and> encFrameSize t' = encFrameSize t
    \<and> log' @ pcmRing t' = log @ pcmRing t @ applyGain (gain t) (decodedSamples lib [f] d)
    \<and> decodedSamples lib (f # fs) d = decodedSamples lib [f] d @ decodedSamples lib fs d'"
proof (cases "f = []")
  case True
  then show ?thesis using assms(3,4) by (auto simp: Transcode_def)
next
  case False
  obtain d' o' where o: "decodeOne lib f d = (d', o')" by fastforce
  show ?thesis
    using Transcode_failed [OF assms(2,3) False assms(4), of d'] Transcode_decoded [OF assms(1-3) False assms(4), of d']
    by (cases o') (fastforce simp: o False)+
qed

lemma transcodeAll_recording:
  assumes "recording out lib"
  shows "decodesWithin (encFrameSize t) lib \<Longrightarrow> inStep t w d log \<Longrightarrow> transcodeAll lib fs t w = (w', t') \<Longrightarrow>
      \<exists>log'. Option.bind (encoder t') (encoders w') = Some log' \<and> log' @ pcmRing t' = log @ pcmRing t @ applyGain (gain t) (decodedSamples lib fs d)
        \<and> length (pcmRing t') < encFrameSize t"
proof (induction fs arbitrary: t w d log)
  case Nil
  then show ?case by (auto simp: inStep_def)
next
  case (Cons f fs)
  obtain w1 t1 r where r: "Transcode lib f t w = (w1, t1, r)" using prod_cases3 by blast
  from Transcode_recording [OF assms Cons.prems(1,2) r, of fs] obtain d1 log1 where
    1: "inStep t1 w1 d1 log1" "gain t1 = gain t" "encFrameSize t1 = encFrameSize t"
      "log1 @ pcmRing t1 = log @ pcmRing t @ applyGain (gain t) (decodedSamples lib [f] d)"
      "decodedSamples lib (f # fs) d = decodedSamples lib [f] d @ decodedSamples lib fs d1" by blast
  have "transcodeAll lib fs t1 w1 = (w', t')" using Cons.prems(3) r by simp
  from Cons.IH [OF _ 1(1) this] Cons.prems(1) 1(3)
  obtain log' where 2: "Option.bind (encoder t') (encoders w') = Some log'"
      "log' @ pcmRing t' = log1 @ pcmRing t1 @ applyGain (gain t1) (decodedSamples lib fs d1)" "length (pcmRing t') < encFrameSize t1"
    by auto
  have "log' @ pcmRing t' = log @ pcmRing t @ applyGain (gain t) (decodedSamples lib (f # fs) d)"
    unfolding 2(2) 1(2,5) applyGain_append using 1(4) by (metis append.assoc)
  then show ?case using 2(1,3) 1(3) by auto
qed

text \<open>
  No audio is lost or doubled on the way to the encoder. For a transcoder as the constructor makes it, while the encoder
  works and the decoder's frames are no longer than the encoder's, the samples given to the encoder
  followed by those left in the ring are exactly the decoded samples with the configured gain applied, in
  order; and less than one encoder frame is left, so the ring never overflows.
\<close>

lemma transcoder_conserves:
  assumes "handlesFresh w" "TrimSpace asc \<noteq> []" "NewAudioTranscoder lib rate asc g w = (w1, Inr t)"
    and "recording out lib" "decodesWithin (encFrameSize t) lib" "0 < encFrameSize t"
    and "transcodeAll lib fs t w1 = (w2, t2)"
  shows "\<exists>d log log'. Option.bind (decoder t) (decoders w1) = Some d \<and> Option.bind (encoder t) (encoders w1) = Some log
    \<and> Option.bind (encoder t2) (encoders w2) = Some log'
    \<and> log' @ pcmRing t2 = log @ applyGain g (decodedSamples lib fs d) \<and> length (pcmRing t2) < encFrameSize t"
proof -
  from NewAudioTranscoder_adds [OF assms(1-3)] obtain h k where
    1: "adds {h} {k} w w1" "decoder t = Some h" "encoder t = Some k" "length (decBuf t) = 8192" "pcmRing t = []" "\<not> detecting t" "gain t = g"
    by auto
  have "h \<in> dom (decoders w1)" "k \<in> dom (encoders w1)" using 1(1) by (simp_all add: adds_def)
  then obtain d log where 2: "decoders w1 h = Some d" "encoders w1 k = Some log" by blast
  have "inStep t w1 d log" using 1 2 assms(6) by (simp add: inStep_def)
  from transcodeAll_recording [OF assms(4,5) this assms(7)] show ?thesis using 1 2 by auto
qed

text \<open>
  A full ring stays full. Once the ring has no room for the decoder's next frame (which failing encodes bring about, since they
  keep the samples), every further call fails with an overflow and leaves the ring as it is: the check comes
  before the encoder is tried, so audio does not recover even if the encoder would work again.
\<close>

lemma ring_overflow_step:
  assumes "\<forall>f buf d. n \<le> snd (snd (decode_frame lib f buf d))"
    and "int (length (pcmRing t)) + n > int (ringCapacity t)" "0 \<le> n" "\<not> detecting t" "owns t w" "Transcode lib f t w = (w', t', r)"
  shows "pcmRing t' = pcmRing t \<and> encFrameSize t' = encFrameSize t \<and> \<not> detecting t' \<and> owns t' w' \<and> (f = [] \<or> (\<exists>e. r = Inl e))"
proof -
  obtain h d where h: "decoder t = Some h" "decoders w h = Some d" using assms(5) by (auto simp: owns_def)
  obtain d' buf m where dec: "decode_frame lib f (decBuf t) d = (d', buf, m)" using prod_cases3 by blast
  have m: "n \<le> m" using assms(1) dec by (metis snd_conv)
  have "owns t' w'" using Transcode_keeps [OF assms(5,4,6)] adds_owns [OF _ assms(5)] by (auto simp: owns_def)
  then show ?thesis
    using assms(2-4,6) m by (auto simp: Transcode_def transcodeFrame_def onDecoder_def h dec ringCapacity_def Let_def split: if_splits)
qed

lemma ring_overflow_permanent:
  assumes "\<forall>f buf d. n \<le> snd (snd (decode_frame lib f buf d))" "0 \<le> n"
    and "int (length (pcmRing t)) + n > int (ringCapacity t)" "\<not> detecting t" "owns t w" "f \<noteq> []"
  shows "case transcodeAll lib fs t w of (w', t') \<Rightarrow> pcmRing t' = pcmRing t \<and> (\<exists>e. snd (snd (Transcode lib f t' w')) = Inl e)"
proof -
  have all: "pcmRing t' = pcmRing t \<and> encFrameSize t' = encFrameSize t \<and> \<not> detecting t' \<and> owns t' w'"
    if "transcodeAll lib fs t w = (w', t')" "int (length (pcmRing t)) + n > int (ringCapacity t)" "\<not> detecting t" "owns t w" for fs w' t' t w
    using that
  proof (induction fs arbitrary: t w)
    case (Cons g fs)
    obtain w1 t1 r where 1: "Transcode lib g t w = (w1, t1, r)" using prod_cases3 by blast
    note S = ring_overflow_step [OF assms(1) Cons.prems(2) assms(2) Cons.prems(3,4) 1]
    have "int (length (pcmRing t1)) + n > int (ringCapacity t1)" using S Cons.prems(2) by (simp add: ringCapacity_def)
    with Cons.IH [of t1 w1] S Cons.prems(1) 1 show ?case by simp
  qed simp
  obtain w' t' where 2: "transcodeAll lib fs t w = (w', t')" by fastforce
  note A = all [OF 2 assms(3-5)]
  obtain w1 t1 r where 3: "Transcode lib f t' w' = (w1, t1, r)" using prod_cases3 by blast
  have "\<exists>e. r = Inl e"
    using ring_overflow_step [OF assms(1) _ assms(2) _ _ 3] A assms(3,6) by (simp add: ringCapacity_def)
  then show ?thesis using A by (simp add: 2 3)
qed

section \<open>A worked run\<close>

definition demoCodec :: "(unit, sample list) codec" where
  "demoCodec =
     \<lparr>aacDecoder_Open = \<lambda>_. Some (), aacDecoder_ConfigRaw = \<lambda>b d. (d, 0), aacDecoder_SetParam = \<lambda>p v d. (d, 0),
      aacDecoder_Fill = \<lambda>b d. (d, 0), aacDecoder_DecodeFrame = \<lambda>n d. if n < 3 then (d, 1, []) else (d, 0, [1, 2, 3]),
      aacDecoder_GetStreamInfo = \<lambda>d. Some (3, 1), aacEncOpen = \<lambda>_. Inr [], paramCode = \<lambda>_. 0, paramValue = \<lambda>_. 2,
      aacEncoder_SetParam = \<lambda>p v e. (e, 0), aacEncInit = \<lambda>e. (e, 0),
      aacEncEncode = \<lambda>fr n log. (log @ fr, 0, [9]), aacEncInfo = \<lambda>e. Inr (4, [20, 8])\<rparr>"

definition demoHandles :: "(unit, sample list) handles" where
  "demoHandles = \<lparr>decoders = \<lambda>_. None, encoders = \<lambda>_. None, nextHandle = 0, misuse = False\<rparr>"

definition demoTranscoder :: "sample list \<Rightarrow> AudioTranscoder" where
  "demoTranscoder ring =
     \<lparr>gain = 2, decoder = Some 0, encoder = Some 1, outASC = [20, 8], decBuf = replicate 8192 0, pcmRing = ring,
      encBuf = replicate 2048 0, encFrameSize = 4, frameCount = 0,
      ascCandidates = [], sampleRate = 16000, eldASCHex = ''F8F02000'', detecting = False, detectFrames = []\<rparr>"

lemma demo_asc: "hexDecode (TrimSpace ''F8F02000'') = Inr [0xF8, 0xF0, 0x20, 0x00]" "TrimSpace ''F8F02000'' \<noteq> []"
  by code_simp+

lemma demo_new:
  "\<exists>w. NewAudioTranscoder demoCodec 16000 ''F8F02000'' 2 demoHandles = (w, Inr (demoTranscoder []))"
  by (simp add: NewAudioTranscoder_def newTranscoderWithASC_def openDecoder_def demoHandles_def demoCodec_def demo_asc onDecoder_def
      config_raw_def setDecoderParams_def buildEncoder_def openEnc_def configureEncoder_def encoderParams_def onEncoder_def
      emptyTranscoder_def demoTranscoder_def Let_def)

lemma demo_laws: "handlesFresh demoHandles" "recording (\<lambda>_. [9]) demoCodec" "decodesWithin 4 demoCodec"
  "decodedSamples demoCodec [[0], [0]] () = [1, 2, 3, 1, 2, 3]"
  by (auto simp: handlesFresh_def demoHandles_def recording_def decodesWithin_def demoCodec_def decodeOne_def split: if_splits)

theorem codec_handles_balanced_witness:
  "\<exists>w1 w2 t2 w3 t3. NewAudioTranscoder demoCodec 16000 ''F8F02000'' 2 demoHandles = (w1, Inr (demoTranscoder []))
     \<and> transcodeAll demoCodec [[0], [0]] (demoTranscoder []) w1 = (w2, t2) \<and> CloseTranscoder t2 w2 = (w3, t3)
     \<and> owns t2 w2 \<and> adds {} {} demoHandles w3"
proof -
  obtain w1 where 1: "NewAudioTranscoder demoCodec 16000 ''F8F02000'' 2 demoHandles = (w1, Inr (demoTranscoder []))"
    using demo_new by blast
  from codec_handles_balanced [OF demo_laws(1) demo_asc(2) 1, of "[[0], [0]]"] 1 show ?thesis
    by (auto split: prod.splits)
qed

lemma ring_overflow_permanent_witness:
  "case transcodeAll (demoCodec\<lparr>aacDecoder_DecodeFrame := \<lambda>n d. (d, 0, [1, 2, 3])\<rparr>) [[0], [0]] (demoTranscoder [1, 2, 3, 4, 5, 6, 7, 8, 9, 10])
     (demoHandles\<lparr>decoders := [0 \<mapsto> ()], encoders := [1 \<mapsto> []], nextHandle := 2\<rparr>) of
     (w', t') \<Rightarrow> pcmRing t' = [1, 2, 3, 4, 5, 6, 7, 8, 9, 10]"
proof -
  let ?lib = "demoCodec\<lparr>aacDecoder_DecodeFrame := \<lambda>n d. (d, 0, [1, 2, 3])\<rparr>"
  have d: "\<forall>f buf d. 3 \<le> snd (snd (decode_frame ?lib f buf d))" by (simp add: decode_frame_def demoCodec_def)
  show ?thesis
    using ring_overflow_permanent [OF d, of "demoTranscoder [1, 2, 3, 4, 5, 6, 7, 8, 9, 10]"
        "demoHandles\<lparr>decoders := [0 \<mapsto> ()], encoders := [1 \<mapsto> []], nextHandle := 2\<rparr>" "[0]" "[[0], [0]]"]
    by (auto simp: owns_def demoTranscoder_def ringCapacity_def simp del: transcodeAll.simps split: prod.splits)
qed

end
