(* ===== verification/Audio_Path.thy ===== *)
theory Audio_Path
  imports Camera_Service Transcoder
begin

text \<open>
  The audio path of a camera as a whole: the RTSP server of \<^verbatim>\<open>internal/stream/rtsp_server.go\<close> with the transcoder of
  \<^verbatim>\<open>internal/stream/audio_transcoder.go\<close> as its transcoder state, the audio description it announces, and
  the closing of the transcoder when the server stops. The state of the transcoder comes with the heap of codec handles it lives in.
\<close>

type_synonym ('d, 'e) liveTranscoder = "('d, 'e) handles \<times> AudioTranscoder"

definition newLive :: "('d, 'e) codec \<Rightarrow> ('d, 'e) handles \<Rightarrow> int \<Rightarrow> string \<Rightarrow> int \<Rightarrow> ('d, 'e) liveTranscoder result" where
  "newLive lib w rate asc g =
     (case NewAudioTranscoder lib rate asc g w of
        (_, Inl e) \<Rightarrow> Inl e
      | (w', Inr t) \<Rightarrow> Inr (w', t))"

definition transcodeLive :: "('d, 'e) codec \<Rightarrow> ('d, 'e) liveTranscoder transcode" where
  "transcodeLive lib wt f = (case wt of (w, t) \<Rightarrow> case Transcode lib f t w of (w', t', r) \<Rightarrow> ((w', t'), r))"

section \<open>The announced format\<close>

text \<open>
  The audio format of the session description: \<^verbatim>\<open>format.Opus\<close>, or \<^verbatim>\<open>format.Generic\<close> with its RTP map and attributes; none
  when the transcoder could not be made.
\<close>

datatype rtpFormat = OpusFormat byte | GenericFormat byte string "(string \<times> string) list"

definition audioFormat :: "RTSPServerConfig \<Rightarrow> AudioTranscoder option \<Rightarrow> rtpFormat option" where
  "audioFormat rc tc =
     (if \<not> HasAudio rc then None
      else if AudioCodec rc = ''opus'' then Some (OpusFormat 97)
      else case tc of
        None \<Rightarrow> None
      | Some t \<Rightarrow>
          Some (GenericFormat 97 (''mpeg4-generic/'' @ showInt (effectiveSampleRate rc) @ ''/1'')
            [(''streamtype'', ''5''), (''profile-level-id'', ''1''), (''mode'', ''AAC-hbr''), (''sizelength'', ''13''),
             (''indexlength'', ''3''), (''indexdeltalength'', ''3''), (''config'', hexEncodeUpper (AudioSpecificConfig t))]))"

text \<open>The video format: payload type 96, packetization mode 1, and the parameter sets once they are known.\<close>

record H264Format =
  PayloadTyp :: byte
  PacketizationMode :: int
  formatSPS :: "bytes option"
  formatPPS :: "bytes option"

definition videoFormat :: "'t RTSPServer \<Rightarrow> H264Format" where
  "videoFormat s = \<lparr>PayloadTyp = 96, PacketizationMode = 1, formatSPS = spsParam s, formatPPS = ppsParam s\<rparr>"

text \<open>
  The payload types the server stamps on its packets are those it announces, so clients can match them to the
  formats. The one exception is a server whose transcoder could not be made: it announces no audio
  format and stamps 0.
\<close>

lemma announced_payload_types:
  assumes "NewRTSPServer snap (newLive lib w) rc = s"
  shows "PayloadTyp (videoFormat s) = videoPT
    \<and> (case audioFormat rc (map_option snd (transcoder s)) of
         None \<Rightarrow> audioPT s = 0 | Some (OpusFormat pt) \<Rightarrow> audioPT s = pt | Some (GenericFormat pt _ _) \<Rightarrow> audioPT s = pt)"
  using assms by (auto simp: NewRTSPServer_def audioFormat_def videoFormat_def Let_def split: sum.splits)

text \<open>
  A server whose transcoder cannot be made logs that audio is disabled. It is not: the session description has an audio media
  without a format, and the camera's packets go out untouched under payload type 0.
\<close>

lemma failed_transcoder_forwards_raw:
  assumes "HasAudio rc" "AudioCodec rc \<noteq> ''opus''" "newLive lib w (effectiveSampleRate rc) (eldASC (effectiveSampleRate rc)) (AudioGain rc) = Inl e"
    and "StartServer (Inr ()) (Inr ()) (NewRTSPServer snap (newLive lib w) rc) = (s, Inr ())"
  shows "hasAudioMedia s \<and> audioFormat rc (map_option snd (transcoder s)) = None
    \<and> WriteAudioPacket tc pkt s = (s, [AudioOut (pkt\<lparr>payloadType := 0\<rparr>)])"
  using assms by (auto simp: NewRTSPServer_def StartServer_def audioFormat_def WriteAudioPacket_def Let_def)

text \<open>
  The answers to \<^verbatim>\<open>DESCRIBE\<close> and \<^verbatim>\<open>SETUP\<close>: status 200 and the stream, whose description is the list of media, each with its formats
  (a \<^verbatim>\<open>nil\<close> format is none). The stream is \<^verbatim>\<open>nil\<close> before the start and after the stop of the server.
\<close>

datatype media = VideoMedia H264Format | AudioMedia "rtpFormat option"

definition medias :: "RTSPServerConfig \<Rightarrow> ('d, 'e) liveTranscoder RTSPServer \<Rightarrow> media list" where
  "medias rc s = VideoMedia (videoFormat s) # (if hasAudioMedia s then [AudioMedia (audioFormat rc (map_option snd (transcoder s)))] else [])"

definition OnDescribe :: "RTSPServerConfig \<Rightarrow> ('d, 'e) liveTranscoder RTSPServer \<Rightarrow> nat \<times> media list option" where
  "OnDescribe rc s = (200, if streamOpen s then Some (medias rc s) else None)"

definition OnSetup :: "RTSPServerConfig \<Rightarrow> ('d, 'e) liveTranscoder RTSPServer \<Rightarrow> nat \<times> media list option" where
  "OnSetup rc s = (200, if streamOpen s then Some (medias rc s) else None)"

text \<open>
  A client that describes the stream of a running server is offered the video and, exactly if the camera has audio, a second media; a
  client that describes a stopped one is answered with success and no stream.
\<close>

lemma describe_offers:
  assumes "StartServer (Inr ()) (Inr ()) (NewRTSPServer snap (newLive lib w) rc) = (s, Inr ())"
  shows "(\<exists>ms. OnDescribe rc s = (200, Some ms) \<and> OnSetup rc s = OnDescribe rc s \<and> length ms = (if HasAudio rc then 2 else 1)
      \<and> hd ms = VideoMedia \<lparr>PayloadTyp = 96, PacketizationMode = 1, formatSPS = None, formatPPS = None\<rparr>)
    \<and> OnDescribe rc (StopServer s) = (200, None)"
  using assms by (auto simp: NewRTSPServer_def StartServer_def StopServer_def OnDescribe_def OnSetup_def medias_def videoFormat_def Let_def)

text \<open>The announced configuration is the encoder's own, in a form that reads back to its bytes.\<close>

lemma announced_config:
  assumes "audioFormat rc (Some t) = Some (GenericFormat pt m fmtp)"
  shows "map_of fmtp ''config'' = Some (AudioSpecificConfigHex t) \<and> hexDecode (AudioSpecificConfigHex t) = Inr (outASC t)"
  using assms by (auto simp: audioFormat_def AudioSpecificConfigHex_def AudioSpecificConfig_def hexDecode_encode split: if_splits)

section \<open>The decoder's configuration\<close>

text \<open>
  The decoder is configured for mono AAC-ELD of the rate the camera was asked for when that is 16 or 24 kHz. For 8 kHz the
  constant names 7350 Hz, and for every other rate the decoder is set up for 16 kHz.
\<close>

lemma eldASC_rate:
  "ascRate (eldASC 16000) = Some 16000" "ascRate (eldASC 24000) = Some 24000" "ascRate (eldASC 8000) = Some 7350"
  "r \<noteq> 24000 \<Longrightarrow> r \<noteq> 8000 \<Longrightarrow> ascRate (eldASC r) = Some 16000"
proof -
  have "ascRate ''F8F02000'' = Some 16000" by code_simp
  then show "r \<noteq> 24000 \<Longrightarrow> r \<noteq> 8000 \<Longrightarrow> ascRate (eldASC r) = Some 16000" "ascRate (eldASC 16000) = Some 16000"
    by (simp_all add: eldASC_def)
  show "ascRate (eldASC 24000) = Some 24000" "ascRate (eldASC 8000) = Some 7350" by code_simp+
qed

text \<open>
  The rate \<^verbatim>\<open>main.go\<close> asks the camera for is fixed by the codec, whatever the configuration says. For AAC-ELD, what the camera
  is asked for, what the decoder is set up for and what clients are told agree exactly when the configured rate is 16 kHz (or left open).
\<close>

definition requestedRate :: "AudioSelection \<Rightarrow> int" where
  "requestedRate a = (if ASampleRate a = AudioSampleRate8kHz then 8000 else if ASampleRate a = AudioSampleRate16kHz then 16000 else 24000)"

lemma audio_rates_agree_iff:
  assumes "audioCodec (Audio cam) \<noteq> ''opus''"
  shows "ascRate (eldASC (effectiveSampleRate (serverConfig cam))) = Some (requestedRate (audioSelection (Audio cam)))
      \<and> effectiveSampleRate (serverConfig cam) = requestedRate (audioSelection (Audio cam))
    \<longleftrightarrow> audioSampleRate (Audio cam) \<in> {0, 16000}"
proof -
  have "requestedRate (audioSelection (Audio cam)) = 16000" using assms by (simp add: audioSelection_def requestedRate_def)
  then show ?thesis using eldASC_rate by (auto simp: effectiveSampleRate_def serverConfig_def)
qed

lemma eldASC_trim: "TrimSpace (eldASC r) \<noteq> []"
proof -
  have "TrimSpace ''F8F02000'' \<noteq> []" "TrimSpace ''F8EC2000'' \<noteq> []" "TrimSpace ''F8F82000'' \<noteq> []" by code_simp+
  then show ?thesis by (simp add: eldASC_def)
qed

section \<open>From the camera's packets to the encoder\<close>

text \<open>The AAC-ELD frames in the camera's packets: the payloads without the 4-byte AU header.\<close>

definition audioFrames :: "packet list \<Rightarrow> bytes list" where
  "audioFrames pkts = map (\<lambda>p. drop 4 (payload p)) (filter (\<lambda>p. 4 < length (payload p)) pkts)"

lemma WriteAudioPacket_live:
  assumes "streamOpen s" "hasAudioMedia s" "transcoder s = Some (w, t)" "WriteAudioPacket (transcodeLive lib) pkt s = (s', out)"
  shows "streamOpen s' \<and> hasAudioMedia s' \<and> transcoder s' = Some (transcodeAll lib (audioFrames [pkt]) t w)"
  using assms by (auto simp: WriteAudioPacket_def transcodeLive_def audioFrames_def Let_def split: if_splits prod.splits sum.splits option.splits)

lemma transcodeAll_append:
  "transcodeAll lib (fs @ gs) t w = (case transcodeAll lib fs t w of (w', t') \<Rightarrow> transcodeAll lib gs t' w')"
  by (induction fs arbitrary: t w) (auto split: prod.splits)

lemma runAll_audio:
  "streamOpen s \<Longrightarrow> hasAudioMedia s \<Longrightarrow> transcoder s = Some (w, t) \<Longrightarrow>
   streamOpen (fst (runAll (WriteAudioPacket (transcodeLive lib)) pkts s))
   \<and> transcoder (fst (runAll (WriteAudioPacket (transcodeLive lib)) pkts s)) = Some (transcodeAll lib (audioFrames pkts) t w)"
proof (induction pkts arbitrary: s w t)
  case Nil
  then show ?case by (simp add: audioFrames_def)
next
  case (Cons p pkts)
  obtain s1 o1 where 1: "WriteAudioPacket (transcodeLive lib) p s = (s1, o1)" by fastforce
  obtain w1 t1 where 2: "transcodeAll lib (audioFrames [p]) t w = (w1, t1)" by fastforce
  note L = WriteAudioPacket_live [OF Cons.prems 1]
  have "audioFrames (p # pkts) = audioFrames [p] @ audioFrames pkts" by (simp add: audioFrames_def)
  then show ?case
    using Cons.IH [of s1 w1 t1] L by (simp add: 1 2 transcodeAll_append Let_def split_beta del: transcodeAll.simps)
qed

text \<open>\<^verbatim>\<open>Stop\<close> closes the transcoder before it forgets it; what is left of the heap of handles.\<close>

definition stopAudio :: "('d, 'e) liveTranscoder RTSPServer \<Rightarrow> ('d, 'e) handles option" where
  "stopAudio s = (case transcoder s of None \<Rightarrow> None | Some (w, t) \<Rightarrow> Some (fst (CloseTranscoder t w)))"

definition audioServer :: "bool \<Rightarrow> ('d, 'e) codec \<Rightarrow> ('d, 'e) handles \<Rightarrow> RTSPServerConfig \<Rightarrow> ('d, 'e) liveTranscoder RTSPServer" where
  "audioServer snap lib w rc = fst (StartServer (Inr ()) (Inr ()) (NewRTSPServer snap (newLive lib w) rc))"

lemma audioServer_fields:
  assumes "HasAudio rc" "AudioCodec rc \<noteq> ''opus''"
    "NewAudioTranscoder lib (effectiveSampleRate rc) (eldASC (effectiveSampleRate rc)) (AudioGain rc) w = (w1, Inr t)"
  shows "streamOpen (audioServer snap lib w rc) \<and> hasAudioMedia (audioServer snap lib w rc) \<and> transcoder (audioServer snap lib w rc) = Some (w1, t)"
  using assms by (simp add: audioServer_def StartServer_def NewRTSPServer_def newLive_def Let_def)


definition demoAudioConfig :: RTSPServerConfig where
  "demoAudioConfig = \<lparr>HasAudio = True, AudioCodec = ''aac-eld'', SampleRate = 0, AudioGain = 2\<rparr>"

definition demoAudioPacket :: packet where
  "demoAudioPacket = \<lparr>marker = True, payloadType = 110, seqNum = 7, timestamp = 0, ssrc = 1, payload = [0, 16, 0, 8, 1]\<rparr>"


end
