(* ===== verification/Controller_Life.thy ===== *)
theory Controller_Life
  imports Controller_Props
begin

text \<open>
  The life of the HAP controller in \<^verbatim>\<open>internal/hap/controller.go\<close>: starting it, protecting the key store, and
  stopping it, with an account of the connections it opens and closes on the way. The file system is a record: the
  modes of the files, what \<^verbatim>\<open>ReadDir\<close> lists and which \<^verbatim>\<open>Chmod\<close> calls fail.
\<close>

section \<open>The key store\<close>

record fileSystem =
  modes :: "string \<Rightarrow> nat"
  chmodErr :: "string \<Rightarrow> go_error option"
  readDir :: "(string \<times> bool) list result"

definition Chmod :: "string \<Rightarrow> nat \<Rightarrow> fileSystem \<Rightarrow> unit result \<times> fileSystem" where
  "Chmod p m fs = (case chmodErr fs p of Some e \<Rightarrow> (Inl e, fs) | None \<Rightarrow> (Inr (), fs\<lparr>modes := (modes fs)(p := m)\<rparr>))"

abbreviation hkStorePath :: string where "hkStorePath \<equiv> ''./.hkontroller''"

text \<open>\<^verbatim>\<open>filepath.Join(storePath, name)\<close>, which cleans the leading \<^verbatim>\<open>./\<close>.\<close>

definition storeFile :: "string \<Rightarrow> string" where
  "storeFile f = ''.hkontroller/'' @ f"

definition hardenEntry :: "string \<times> bool \<Rightarrow> fileSystem \<Rightarrow> fileSystem" where
  "hardenEntry e fs = snd (Chmod (storeFile (fst e)) (if snd e then 448 else 384) fs)"

definition hardenStorePerms :: "fileSystem \<Rightarrow> fileSystem" where
  "hardenStorePerms fs =
     (case Chmod hkStorePath 448 fs of
        (Inl _, fs1) \<Rightarrow> fs1
      | (Inr _, fs1) \<Rightarrow> (case readDir fs1 of Inl _ \<Rightarrow> fs1 | Inr es \<Rightarrow> fold hardenEntry es fs1))"

text \<open>No access for group and others: the six low permission bits are clear.\<close>

definition ownerOnly :: "nat \<Rightarrow> bool" where
  "ownerOnly m \<longleftrightarrow> m mod 64 = 0"

lemma Chmod_simps [simp]:
  "chmodErr (snd (Chmod p m fs)) = chmodErr fs" "readDir (snd (Chmod p m fs)) = readDir fs"
  "modes (snd (Chmod p m fs)) q = (if q = p \<and> chmodErr fs p = None then m else modes fs q)"
  by (auto simp: Chmod_def split: option.splits)

lemma hardenEntry_simps [simp]:
  "chmodErr (hardenEntry e fs) = chmodErr fs" "readDir (hardenEntry e fs) = readDir fs"
  "modes (hardenEntry e fs) q
     = (if q = storeFile (fst e) \<and> chmodErr fs q = None then if snd e then 448 else 384 else modes fs q)"
  by (auto simp: hardenEntry_def)

lemma fold_hardenEntry:
  "chmodErr (fold hardenEntry es fs) = chmodErr fs"
  "ownerOnly (modes fs q) \<or> (q \<in> storeFile ` fst ` set es \<and> chmodErr fs q = None) \<Longrightarrow> ownerOnly (modes (fold hardenEntry es fs) q)"
  "q \<notin> storeFile ` fst ` set es \<Longrightarrow> modes (fold hardenEntry es fs) q = modes fs q"
proof (induction es arbitrary: fs)
  case (Cons e es)
  {
    case 1
    then show ?case using Cons.IH(1) by simp
  next
    case 2
    have "ownerOnly (modes (hardenEntry e fs) q) \<or> q \<in> storeFile ` fst ` set es \<and> chmodErr (hardenEntry e fs) q = None"
      using 2 by (auto simp: ownerOnly_def)
    then show ?case using Cons.IH(2) by simp
  next
    case 3
    then show ?case using Cons.IH(3) by simp
  }
qed auto

text \<open>
  The key store is private. When the directory can be secured and listed, its mode is 0700 and every file and directory in
  it whose mode can be changed ends up closed to group and others, also when other files fail; nothing outside the store is touched.
\<close>

lemma store_private:
  assumes "chmodErr fs hkStorePath = None" "readDir fs = Inr es"
  shows "modes (hardenStorePerms fs) hkStorePath = 448"
    and "(f, d) \<in> set es \<Longrightarrow> chmodErr fs (storeFile f) = None \<Longrightarrow> ownerOnly (modes (hardenStorePerms fs) (storeFile f))"
    and "q \<noteq> hkStorePath \<Longrightarrow> q \<notin> storeFile ` fst ` set es \<Longrightarrow> modes (hardenStorePerms fs) q = modes fs q"
proof -
  have h: "hardenStorePerms fs = fold hardenEntry es (fs\<lparr>modes := (modes fs)(hkStorePath := 448)\<rparr>)"
    using assms by (simp add: hardenStorePerms_def Chmod_def)
  have "hkStorePath \<notin> storeFile ` fst ` set es" by (auto simp: storeFile_def)
  then show "modes (hardenStorePerms fs) hkStorePath = 448" unfolding h by (simp add: fold_hardenEntry(3))
  show "(f, d) \<in> set es \<Longrightarrow> chmodErr fs (storeFile f) = None \<Longrightarrow> ownerOnly (modes (hardenStorePerms fs) (storeFile f))"
    unfolding h by (rule fold_hardenEntry(2)) force
  show "q \<noteq> hkStorePath \<Longrightarrow> q \<notin> storeFile ` fst ` set es \<Longrightarrow> modes (hardenStorePerms fs) q = modes fs q"
    unfolding h by (simp add: fold_hardenEntry(3))
qed

section \<open>Starting\<close>

text \<open>
  The library's side of a start: making its controller, which creates the key store, and reading the known
  pairings. \<open>base\<close> is the state the other operations work on.
\<close>

record hkLib =
  newHkController :: "fileSystem \<Rightarrow> unit result \<times> fileSystem"
  loadPairings :: "unit result"

record 'v hapController =
  base :: "'v Controller"
  hkController :: bool
  cancelFunc :: bool
  discovering :: bool

definition StartController :: "hkLib \<Rightarrow> 'v hapController \<Rightarrow> fileSystem \<Rightarrow> unit result \<times> 'v hapController \<times> fileSystem" where
  "StartController lib h fs =
     (case newHkController lib fs of
        (Inl e, fs1) \<Rightarrow> (Inl (''create hkontroller: '' @ e), h, fs1)
      | (Inr _, fs1) \<Rightarrow>
          (Inr (), h\<lparr>hkController := True, cancelFunc := True, discovering := True\<rparr>, hardenStorePerms fs1))"

text \<open>Pair-setup writes new files into the store, which are secured before the handshake goes on.\<close>

definition pairStore :: "(fileSystem \<Rightarrow> fileSystem) \<Rightarrow> pairLib \<Rightarrow> string \<Rightarrow> device \<Rightarrow> fileSystem \<Rightarrow> fileSystem" where
  "pairStore writes lib code d fs =
     (if isPaired d then fs
      else case pairSetup lib d code of Inl _ \<Rightarrow> writes fs | Inr _ \<Rightarrow> hardenStorePerms (writes fs))"

section \<open>Stopping\<close>

datatype stopAction = CancelDiscovery | StopDiscovery | CloseConnection string | CloseDevice string

definition StopController :: "string list \<Rightarrow> string list \<Rightarrow> 'v hapController \<Rightarrow> stopAction list" where
  "StopController vorder dorder h =
     (if cancelFunc h then [CancelDiscovery] else []) @ (if hkController h then [StopDiscovery] else [])
     @ map CloseConnection (filter (\<lambda>n. verified (base h) n \<noteq> None) vorder)
     @ map CloseDevice (filter (\<lambda>n. devices (base h) n \<noteq> None) dorder)"

text \<open>
  Stopping closes every connection and device of the tables once. \<open>vorder\<close> and \<open>dorder\<close> are the orders in which
  the maps are visited.
\<close>

lemma stop_closes_each_once:
  assumes "distinct vorder" "set vorder = dom (verified (base h))" "distinct dorder" "set dorder = dom (devices (base h))"
  shows "count_list (StopController vorder dorder h) (CloseConnection n) = (if n \<in> dom (verified (base h)) then 1 else 0)
    \<and> count_list (StopController vorder dorder h) (CloseDevice n) = (if n \<in> dom (devices (base h)) then 1 else 0)"
proof -
  have v: "filter (\<lambda>n. verified (base h) n \<noteq> None) vorder = vorder" using assms(2) by (auto simp: filter_id_conv)
  have d: "filter (\<lambda>n. devices (base h) n \<noteq> None) dorder = dorder" using assms(4) by (auto simp: filter_id_conv)
  have count: "count_list (map f xs) (f n) = (if n \<in> set xs then 1 else 0)" if "distinct xs" "inj f" for f :: "string \<Rightarrow> stopAction" and xs
    using that by (induction xs) (auto simp: inj_eq)
  have none: "count_list (map f xs) y = 0" if "\<And>n. f n \<noteq> y" for f :: "string \<Rightarrow> stopAction" and xs y
    using that by (induction xs) auto
  show ?thesis
    unfolding StopController_def v d
    using count [OF assms(1), of CloseConnection] count [OF assms(3), of CloseDevice] none
    by (auto simp: assms(2,4) inj_def simp flip: assms(2,4))
qed

section \<open>Connections that nobody closes\<close>

text \<open>
  An account of the open connections. Pair-verify opens one; when the accessory database cannot be read it is closed
  again (\<^verbatim>\<open>vc.Client.Close()\<close>); otherwise it is put into the table. Neither pairing nor reconnecting closes the connection it replaces.
\<close>

definition openAfter :: "unit result \<times> 'v Controller \<Rightarrow> nat \<Rightarrow> 'v Controller \<times> nat" where
  "openAfter rc n = (case rc of (Inl _, c) \<Rightarrow> (c, n) | (Inr _, c) \<Rightarrow> (c, n + 1))"

fun reconnects :: "('v, 'r) hapEnv \<Rightarrow> string list \<Rightarrow> string \<Rightarrow> nat \<Rightarrow> 'v Controller \<times> nat \<Rightarrow> 'v Controller \<times> nat" where
  "reconnects env order deviceName 0 s = s"
| "reconnects env order deviceName (Suc k) s = reconnects env order deviceName k (openAfter (reconnect env order deviceName (fst s)) (snd s))"

lemma doSubscribeMotion_dom: "dom (verified (snd (doSubscribeMotion env deviceName c))) = dom (verified c)"
  by (auto simp: doSubscribeMotion_def split: option.splits prod.splits if_splits)

lemma reconnect_dom:
  assumes "reconnect env order deviceName c = (r, c')" "deviceName \<in> dom (verified c)"
  shows "dom (verified c') = dom (verified c)"
proof -
  have i: "dom (verified (installConnection env deviceName v ids c)) = dom (verified c)" for v ids
    using assms(2) by (simp add: installConnection_def Let_def doSubscribeMotion_dom insert_absorb del: dom_def)
  show ?thesis using assms(1) i by (fastforce simp: reconnect_def split: sum.splits prod.splits)
qed

text \<open>
  Every successful reconnection of a camera adds an open connection and no entry to the table that stopping works
  through: after \<open>k\<close> of them, \<open>k\<close> connections have been dropped without being closed.
\<close>

lemma reconnect_drops_connection:
  assumes "\<And>c. deviceName \<in> dom (verified c) \<Longrightarrow> fst (reconnect env order deviceName c) = Inr ()"
    and "deviceName \<in> dom (verified c)"
  shows "snd (reconnects env order deviceName k (c, n)) = n + k
    \<and> card (dom (verified (fst (reconnects env order deviceName k (c, n))))) = card (dom (verified c))"
  using assms(2)
proof (induction k arbitrary: c n)
  case (Suc k)
  obtain c1 where 1: "reconnect env order deviceName c = (Inr (), c1)" using assms(1) [OF Suc.prems] by (metis prod.collapse)
  have d: "dom (verified c1) = dom (verified c)" by (rule reconnect_dom [OF 1 Suc.prems])
  then show ?case using Suc.IH [of c1 "n + 1"] Suc.prems by (simp add: 1 openAfter_def)
qed simp

end
