(* ===== verification/Pairing_Store.thy ===== *)
theory Pairing_Store
  imports Prelude
begin

text \<open>
  The pairing store of \<^verbatim>\<open>internal/hap/pairing_store.go\<close>: a table of pairings kept in memory and written to a JSON file on every
  change. Reading the file gives its bytes, its absence or an error; \<^verbatim>\<open>encoding/json\<close> is the pair of functions between tables and bytes.
\<close>

record PairingData =
  pdDeviceID :: string
  DeviceLTPK :: bytes
  pdControllerLTSK :: bytes
  ControllerLTPK :: bytes
  pdControllerID :: string
  IPAddress :: string
  pdPort :: int

record PairingStore =
  storePath :: string
  pairings :: "string \<rightharpoonup> PairingData"

datatype fileContent = NotExist | ReadError go_error | FileData bytes

definition NewPairingStore :: "(bytes \<Rightarrow> (string \<rightharpoonup> PairingData) result) \<Rightarrow> string \<Rightarrow> fileContent \<Rightarrow> PairingStore result" where
  "NewPairingStore unmarshal p file =
     (case file of
        NotExist \<Rightarrow> Inr \<lparr>storePath = p, pairings = Map.empty\<rparr>
      | ReadError e \<Rightarrow> Inl (''read pairing store: '' @ e)
      | FileData bs \<Rightarrow>
          bindR (wrapR ''parse pairing store: '' (unmarshal bs)) (\<lambda>m. Inr \<lparr>storePath = p, pairings = m\<rparr>))"

definition Get :: "string \<Rightarrow> PairingStore \<Rightarrow> PairingData option" where
  "Get deviceID ps = pairings ps deviceID"

text \<open>What \<^verbatim>\<open>save\<close> returns, and the bytes it writes when the write succeeds.\<close>

definition save ::
  "((string \<rightharpoonup> PairingData) \<Rightarrow> bytes result) \<Rightarrow> (bytes \<Rightarrow> unit result) \<Rightarrow> PairingStore \<Rightarrow> unit result \<times> bytes option" where
  "save marshal write ps =
     (case marshal (pairings ps) of
        Inl e \<Rightarrow> (Inl (''marshal pairing store: '' @ e), None)
      | Inr bs \<Rightarrow> (case write bs of Inl e \<Rightarrow> (Inl (''write pairing store: '' @ e), None) | Inr _ \<Rightarrow> (Inr (), Some bs)))"

definition Put ::
  "((string \<rightharpoonup> PairingData) \<Rightarrow> bytes result) \<Rightarrow> (bytes \<Rightarrow> unit result) \<Rightarrow> PairingData \<Rightarrow> PairingStore
    \<Rightarrow> (unit result \<times> bytes option) \<times> PairingStore" where
  "Put marshal write d ps = (let ps' = ps\<lparr>pairings := (pairings ps)(pdDeviceID d \<mapsto> d)\<rparr> in (save marshal write ps', ps'))"

lemma Get_Put: "Get i (snd (Put marshal write d ps)) = (if i = pdDeviceID d then Some d else Get i ps)"
  by (simp add: Get_def Put_def Let_def)

text \<open>
  What was stored is found again after a restart, given that the JSON library reads back what it wrote; a failing write
  leaves the new pairing in memory only.
\<close>

lemma reopened_store:
  assumes "Put marshal write d ps = ((Inr (), Some bs), ps')" "\<And>m b. marshal m = Inr b \<Longrightarrow> unmarshal b = Inr m"
  shows "NewPairingStore unmarshal (storePath ps) (FileData bs) = Inr ps'"
  using assms by (auto simp: Put_def save_def NewPairingStore_def Let_def split: sum.splits)

end
