(* ===== verification/Main_Start.thy ===== *)
theory Main_Start
  imports Service_Props Onvif_Props Quality_Signal Audio_Path Controller_Life Pairing_Store
begin

text \<open>
  The program of \<^verbatim>\<open>cmd/homekit-rtsp-proxy/main.go\<close> from its flags to the point where it waits for clients, and its shutdown:
  configuration, removal of pairing data, the pairing store, the HAP controller, pairing of all cameras,
  the health reporter, and the services of each camera. A step that ends the program with \<^verbatim>\<open>os.Exit\<close> gives \<open>Exit\<close>.

  What comes from outside is the record \<open>mainEnv\<close>; the fields that belong to one camera get its position in the
  configuration. \<open>arrivals\<close> are the devices the discovery loop has added before an attempt to pair.
\<close>

datatype logLevel = LevelInfo | LevelDebug | LevelWarn | LevelError

definition logLevelOf :: "string \<Rightarrow> logLevel" where
  "logLevelOf s = (if s = ''debug'' then LevelDebug else if s = ''warn'' then LevelWarn else if s = ''error'' then LevelError else LevelInfo)"

record ('v, 't) mainEnv =
  unpairFlag :: bool
  configFile :: "bytes result"
  yaml :: "bytes \<Rightarrow> App_Config.Config \<Rightarrow> App_Config.Config result"
  storeContent :: "string \<Rightarrow> fileContent"
  json :: "bytes \<Rightarrow> (string \<rightharpoonup> PairingData) result"
  hkLibrary :: hkLib
  startFS :: fileSystem
  arrivals :: "string \<Rightarrow> nat \<Rightarrow> device list"
  pairOutside :: "string \<Rightarrow> nat \<Rightarrow> ('v, unit) hapEnv \<times> pairLib \<times> string list"
  startTime :: int
  snapshotterOk :: "nat \<Rightarrow> bool"
  makeTranscoder :: "nat \<Rightarrow> int \<Rightarrow> string \<Rightarrow> int \<Rightarrow> 't result"
  rtspListen :: "nat \<Rightarrow> unit result"
  rtspInit :: "nat \<Rightarrow> unit result"
  onvifListen :: "nat \<Rightarrow> unit result"
  motionOutside :: "nat \<Rightarrow> ('v, unit) hapEnv"

record ('c, 't) cameraServices =
  svcName :: string
  rtspServer :: "'t RTSPServer"
  onvifSrv :: "Server option"
  onvifUp :: bool
  srtpProxy :: "'c SRTPProxy"
  session :: Session

record ('v, 'c, 't) program =
  prLevel :: logLevel
  prController :: "'v hapController"
  prReporter :: "Reporter option"
  prServices :: "('c, 't) cameraServices list"
  prFiles :: fileSystem

text \<open>\<open>Exit n removed\<close>: the exit code, and the paths removed on the way.\<close>

datatype ('v, 'c, 't) outcome = Exit nat "string list" | Running "('v, 'c, 't) program"

section \<open>The parts of the start\<close>

definition configLoaded :: "('v, 't) mainEnv \<Rightarrow> App_Config.Config result" where
  "configLoaded env = Load (yaml env) (configFile env)"

definition storeOpened :: "('v, 't) mainEnv \<Rightarrow> App_Config.Config \<Rightarrow> Pairing_Store.PairingStore result" where
  "storeOpened env conf = NewPairingStore (json env) (App_Config.PairingStore conf) (storeContent env (App_Config.PairingStore conf))"

definition newHap :: "'v hapController" where
  "newHap = \<lparr>base = NewController, hkController = False, cancelFunc = False, discovering = False\<rparr>"

definition pairWith :: "('v, 't) mainEnv \<Rightarrow> string \<Rightarrow> string \<Rightarrow> nat \<Rightarrow> 'v Controller \<Rightarrow> unit result \<times> 'v Controller" where
  "pairWith env n code k c =
     (case pairOutside env n k of
        (hapEnv, lib, order) \<Rightarrow>
          PairCamera hapEnv lib order n code (fold (\<lambda>d c. c\<lparr>devices := (devices c)(devName d \<mapsto> d)\<rparr>) (arrivals env n k) c))"

definition startReporter :: "App_Config.Config \<Rightarrow> int \<Rightarrow> Reporter option" where
  "startReporter conf now =
     (if mqttEnabled (MQTT conf)
      then (case New (healthConfig (MQTT conf)) (map camName (Cameras conf)) now of Inl _ \<Rightarrow> None | Inr r \<Rightarrow> Some r)
      else None)"

definition onvifConfig :: "App_Config.Config \<Rightarrow> CameraConfig \<Rightarrow> ServerConfig" where
  "onvifConfig conf cam =
     \<lparr>CfgListenAddress = ListenAddress conf, CfgPort = onvifPort (ONVIF cam),
      CfgHostAddr = advertiseAddr conf @ '':'' @ showInt (onvifPort (ONVIF cam)), CfgRTSPURL = rtspURL conf cam,
      CfgCameraName = camName cam, CfgVideoWidth = videoWidth (Video cam), CfgVideoHeight = videoHeight (Video cam),
      CfgVideoFPS = videoFPS (Video cam), CfgVideoBitrate = videoMaxBitrate (Video cam), CfgSnapshots = True\<rparr>"

text \<open>
  \<^verbatim>\<open>Start\<close> of the ONVIF server (\<^verbatim>\<open>onvif/server.go\<close>): the listener runs in a goroutine, which logs its error; the call itself
  succeeds. The flag says whether the server listens.
\<close>

definition StartOnvif :: "unit result \<Rightarrow> unit result \<times> bool" where
  "StartOnvif listen = (Inr (), \<not> isl listen)"

text \<open>The ONVIF server of a camera and its motion events; a camera without a motion sensor is only logged.\<close>

definition startOnvif ::
  "('v, 't) mainEnv \<Rightarrow> App_Config.Config \<Rightarrow> nat \<Rightarrow> CameraConfig \<Rightarrow> 'v Controller \<Rightarrow> (Server option \<times> bool) result \<times> 'v Controller" where
  "startOnvif env conf i cam c =
     (if onvifEnabled (ONVIF cam)
      then (let srv = NewServer (onvifConfig conf cam) in
            case StartOnvif (onvifListen env i) of
              (Inl e, _) \<Rightarrow> (Inl e, c)
            | (Inr _, up) \<Rightarrow> (Inr (Some srv, up), snd (SubscribeMotionSensor (motionOutside env i) (camName cam) c)))
      else (Inr (None, False), c))"

definition startCamera ::
  "('v, 't) mainEnv \<Rightarrow> App_Config.Config \<Rightarrow> event list option \<Rightarrow> nat \<Rightarrow> CameraConfig \<Rightarrow> 'v Controller \<Rightarrow> ('c, 't) cameraServices result \<times> 'v Controller" where
  "startCamera env conf q i cam c =
     (case newService (snapshotterOk env i) (makeTranscoder env i) (rtspListen env i) (rtspInit env i) cam c () q of
        Inl e \<Rightarrow> (Inl e, c)
      | Inr s \<Rightarrow>
          (case startOnvif env conf i cam c of
             (Inl e, c') \<Rightarrow> (Inl e, c')
           | (Inr (onvif, up), c') \<Rightarrow>
               (Inr \<lparr>svcName = camName cam, rtspServer = server s, onvifSrv = onvif, onvifUp = up, srtpProxy = srtp s,
                     session = NewSession (camName cam) (rtspIdleTimeout (RTSP cam))\<rparr>, c')))"

fun startCameras ::
  "('v, 't) mainEnv \<Rightarrow> App_Config.Config \<Rightarrow> event list option \<Rightarrow> nat \<Rightarrow> CameraConfig list \<Rightarrow> 'v Controller \<Rightarrow> ('c, 't) cameraServices list result \<times> 'v Controller" where
  "startCameras env conf q i [] c = (Inr [], c)"
| "startCameras env conf q i (cam # rest) c =
     (case startCamera env conf q i cam c of
        (Inl e, c1) \<Rightarrow> (Inl e, c1)
      | (Inr svc, c1) \<Rightarrow>
          (case startCameras env conf q (i + 1) rest c1 of
             (Inl e, c2) \<Rightarrow> (Inl e, c2)
           | (Inr svcs, c2) \<Rightarrow> (Inr (svc # svcs), c2)))"

definition startServices :: "('v, 't) mainEnv \<Rightarrow> App_Config.Config \<Rightarrow> 'v hapController \<Rightarrow> fileSystem \<Rightarrow> ('v, 'c, 't) outcome" where
  "startServices env conf h fs =
     (let rep = startReporter conf (startTime env) in
      case startCameras env conf (map_option (\<lambda>_. []) rep) 0 (Cameras conf) (base h) of
        (Inl _, _) \<Rightarrow> Exit 1 []
      | (Inr svcs, c) \<Rightarrow>
          Running \<lparr>prLevel = logLevelOf (LogLevel conf), prController = h\<lparr>base := SetRecoveredCallback c\<rparr>,
                   prReporter = rep, prServices = svcs, prFiles = fs\<rparr>)"

definition main :: "('v, 't) mainEnv \<Rightarrow> ('v, 'c, 't) outcome" where
  "main env =
     (case configLoaded env of
        Inl _ \<Rightarrow> Exit 1 []
      | Inr conf \<Rightarrow>
          if unpairFlag env then Exit 0 [''./.hkontroller'', App_Config.PairingStore conf]
          else (case storeOpened env conf of
             Inl _ \<Rightarrow> Exit 1 []
           | Inr _ \<Rightarrow>
               (case StartController (hkLibrary env) newHap (startFS env) of
                  (Inl _, _, _) \<Rightarrow> Exit 1 []
                | (Inr _, h, fs) \<Rightarrow>
                    (case pairAll (pairWith env) (Cameras conf) (base h) of
                       (Inl _, _) \<Rightarrow> Exit 1 []
                     | (Inr _, c) \<Rightarrow> startServices env conf (h\<lparr>base := c\<rparr>) fs))))"

section \<open>What a running program has\<close>

lemma PairCamera_verified:
  assumes "PairCamera env lib order n code c = (r, c')"
  shows "dom (verified c) \<subseteq> dom (verified c') \<and> (\<forall>u. r = Inr u \<longrightarrow> n \<in> dom (verified c'))"
proof -
  have "ensurePaired lib code kd c = (d, c1) \<Longrightarrow> verified c1 = verified c" for kd d c1
    by (auto simp: ensurePaired_def split: if_splits sum.splits option.splits)
  then show ?thesis
    using assms by (auto simp: PairCamera_def split: sum.splits prod.splits)
qed

lemma fold_devices: "verified (fold (\<lambda>d c. c\<lparr>devices := (devices c)(devName d \<mapsto> d)\<rparr>) ds c) = verified c"
  "idsKnown (fold (\<lambda>d c. c\<lparr>devices := (devices c)(devName d \<mapsto> d)\<rparr>) ds c) = idsKnown c"
  by (induction ds arbitrary: c) simp_all

lemma pairWith_verified:
  assumes "pairWith env n code k c = (r, c')"
  shows "dom (verified c) \<subseteq> dom (verified c') \<and> (\<forall>u. r = Inr u \<longrightarrow> n \<in> dom (verified c')) \<and> (idsKnown c \<longrightarrow> idsKnown c')"
proof -
  obtain e lib order where p: "pairOutside env n k = (e, lib, order)" using prod_cases3 by blast
  define c1 where "c1 = fold (\<lambda>d c. c\<lparr>devices := (devices c)(devName d \<mapsto> d)\<rparr>) (arrivals env n k) c"
  have q: "PairCamera e lib order n code c1 = (r, c')" using assms by (simp add: pairWith_def p c1_def)
  show ?thesis
    using PairCamera_verified [OF q] idsKnown_PairCamera [OF _ q] by (simp add: c1_def fold_devices)
qed

lemma pairAttempts_verified:
  "pairAttempts (pairWith env n code) k m c = (r, c') \<Longrightarrow>
   dom (verified c) \<subseteq> dom (verified c') \<and> (\<forall>u. r = Inr u \<longrightarrow> n \<in> dom (verified c')) \<and> (idsKnown c \<longrightarrow> idsKnown c')"
proof (induction m arbitrary: k c)
  case (Suc m)
  obtain r1 c1 where 1: "pairWith env n code k c = (r1, c1)" by fastforce
  note P = pairWith_verified [OF 1]
  show ?case
  proof (cases "(\<exists>u. r1 = Inr u) \<or> m = 0")
    case True
    then show ?thesis using Suc.prems P by (auto simp: 1 split: sum.splits if_splits)
  next
    case False
    then have "pairAttempts (pairWith env n code) (k + 1) m c1 = (r, c')" using Suc.prems by (cases r1) (auto simp: 1)
    from Suc.IH [OF this] show ?thesis using P by blast
  qed
qed auto

lemma pairAll_verified:
  "pairAll (pairWith env) cs c = (Inr u, c') \<Longrightarrow>
   dom (verified c) \<subseteq> dom (verified c') \<and> camName ` set cs \<subseteq> dom (verified c') \<and> (idsKnown c \<longrightarrow> idsKnown c')"
proof (induction cs arbitrary: c)
  case (Cons cam cs)
  obtain r1 c1 where 1: "pairAttempts (pairWith env (camName cam) (SetupCode cam)) 1 6 c = (r1, c1)" by fastforce
  note P = pairAttempts_verified [OF 1]
  obtain u1 where r: "r1 = Inr u1" using Cons.prems by (cases r1) (auto simp: 1 simp del: One_nat_def)
  then have "pairAll (pairWith env) cs c1 = (Inr u, c')" using Cons.prems by (simp add: 1 del: One_nat_def)
  note IH = Cons.IH [OF this]
  have v: "camName cam \<in> dom (verified c1)" "dom (verified c) \<subseteq> dom (verified c1)" "idsKnown c \<Longrightarrow> idsKnown c1" using P r by simp_all
  show ?case
  proof (intro conjI impI)
    show "dom (verified c) \<subseteq> dom (verified c')" using v(2) IH by (meson order_trans)
    show "camName ` set (cam # cs) \<subseteq> dom (verified c')" using v(1) IH by (simp add: subset_iff)
    show "idsKnown c'" if "idsKnown c" using IH v(3) [OF that] by simp
  qed
qed simp

lemma SubscribeMotionSensor_verified:
  "dom (verified (snd (SubscribeMotionSensor env n c))) = dom (verified c)" "idsKnown c \<Longrightarrow> idsKnown (snd (SubscribeMotionSensor env n c))"
  by (simp_all add: SubscribeMotionSensor_def doSubscribeMotion_dom idsKnown_subscribe)

lemma startOnvif_keeps:
  assumes "startOnvif env conf i cam c = (Inr (o', up), c')"
  shows "o' = (if onvifEnabled (ONVIF cam) then Some (NewServer (onvifConfig conf cam)) else None)"
    "dom (verified c') = dom (verified c)" "idsKnown c \<Longrightarrow> idsKnown c'"
proof -
  have "(onvifEnabled (ONVIF cam) \<and> o' = Some (NewServer (onvifConfig conf cam))
        \<and> c' = snd (SubscribeMotionSensor (motionOutside env i) (camName cam) c)) \<or> (\<not> onvifEnabled (ONVIF cam) \<and> o' = None \<and> c' = c)"
    using assms by (auto simp: startOnvif_def StartOnvif_def split: if_splits)
  then show "o' = (if onvifEnabled (ONVIF cam) then Some (NewServer (onvifConfig conf cam)) else None)"
    "dom (verified c') = dom (verified c)" "idsKnown c \<Longrightarrow> idsKnown c'"
    using SubscribeMotionSensor_verified by metis+
qed

definition serviceReady :: "App_Config.Config \<Rightarrow> CameraConfig \<Rightarrow> ('c, 't) cameraServices \<Rightarrow> bool" where
  "serviceReady conf cam v \<longleftrightarrow> svcName v = camName cam \<and> streamOpen (rtspServer v) \<and> quiet (srtpProxy v)
     \<and> onVideoRTP (srtpProxy v) \<and> session v = NewSession (camName cam) (rtspIdleTimeout (RTSP cam))
     \<and> onvifSrv v = (if onvifEnabled (ONVIF cam) then Some (NewServer (onvifConfig conf cam)) else None)"

lemma startCamera_ready:
  fixes v :: "('c, 't) cameraServices" and c :: "'v Controller"
  assumes "startCamera env conf q i cam c = (Inr v, c')"
  shows "serviceReady conf cam v \<and> dom (verified c') = dom (verified c) \<and> (idsKnown c \<longrightarrow> idsKnown c')
    \<and> onVideoStats (srtpProxy v) = (q \<noteq> None)"
proof -
  obtain s :: "('v, 'c, 't, unit) service" where s: "newService (snapshotterOk env i) (makeTranscoder env i) (rtspListen env i) (rtspInit env i) cam c () q = Inr s"
    using assms by (auto simp: startCamera_def split: sum.splits)
  have "streamOpen (server s)" "onVideoRTP (srtp s)" "onVideoStats (srtp s) = (q \<noteq> None)"
    using s by (auto simp: newService_def StartServer_def newProxy_def SetVideoStallCallback_def SetIDRCallback_def SetCallbacks_def
        SetVideoStatsCallback_def NewSRTPProxy_def Let_def split: sum.splits prod.splits if_splits)
  moreover obtain o' up where o: "startOnvif env conf i cam c = (Inr (o', up), c')"
    and v: "v = \<lparr>svcName = camName cam, rtspServer = server s, onvifSrv = o', onvifUp = up, srtpProxy = srtp s,
                 session = NewSession (camName cam) (rtspIdleTimeout (RTSP cam))\<rparr>"
    using assms by (auto simp: startCamera_def s split: sum.splits prod.splits)
  ultimately show ?thesis
    using startOnvif_keeps [OF o] newService_quiet [OF s] by (simp add: v serviceReady_def)
qed

lemma startCameras_ready:
  fixes vs :: "('c, 't) cameraServices list"
  shows "startCameras env conf q i cs c = (Inr vs, c') \<Longrightarrow>
   list_all2 (serviceReady conf) cs vs \<and> dom (verified c') = dom (verified c) \<and> (idsKnown c \<longrightarrow> idsKnown c')
   \<and> (\<forall>v\<in>set vs. onVideoStats (srtpProxy v) = (q \<noteq> None))"
proof (induction cs arbitrary: i c vs)
  case (Cons cam cs)
  obtain r1 :: "('c, 't) cameraServices result" and c1 where 1: "startCamera env conf q i cam c = (r1, c1)" by fastforce
  obtain v where v: "r1 = Inr v" using Cons.prems by (cases r1) (auto simp: 1)
  obtain vs' :: "('c, 't) cameraServices list" where r: "startCameras env conf q (i + 1) cs c1 = (Inr vs', c')" "vs = v # vs'"
    using Cons.prems by (auto simp: 1 v split: sum.splits prod.splits)
  from Cons.IH [OF r(1)] startCamera_ready [OF 1 [unfolded v]] show ?case by (auto simp: r(2))
qed simp

text \<open>
  C18. A program that comes up is complete. When \<^verbatim>\<open>main\<close> reaches the point where it waits for clients, every configured camera, in
  order, has its services: a listening RTSP server, an idle session without clients, an SRTP proxy with its callbacks
  and neither sockets nor loops, and an ONVIF server exactly if it is enabled. Every camera has a verified connection with
  the characteristics that streaming needs; there is a health reporter exactly if MQTT is enabled, fed with statistics by every
  proxy; and the recovery callback is set.
\<close>

theorem startup_complete:
  fixes env :: "('v, 't) mainEnv"
  assumes "main env = (Running pr :: ('v, 'c, 't) outcome)" "configLoaded env = Inr conf"
  shows "list_all2 (serviceReady conf) (Cameras conf) (prServices pr)
    \<and> (\<forall>cam\<in>set (Cameras conf). \<exists>v ids. verified (base (prController pr)) (camName cam) = Some v
         \<and> charIDs (base (prController pr)) (camName cam) = Some ids \<and> setupEndpointsIID ids \<noteq> 0 \<and> selectedConfigIID ids \<noteq> 0)
    \<and> (prReporter pr \<noteq> None \<longleftrightarrow> mqttEnabled (MQTT conf))
    \<and> (\<forall>v\<in>set (prServices pr). onVideoStats (srtpProxy v) \<longleftrightarrow> mqttEnabled (MQTT conf))
    \<and> recoveredCallback (base (prController pr)) \<and> cancelFunc (prController pr)"
proof -
  obtain h fs c1 where h: "StartController (hkLibrary env) newHap (startFS env) = (Inr (), h, fs)"
    and p: "pairAll (pairWith env) (Cameras conf) (base h) = (Inr (), c1)" and s: "startServices env conf (h\<lparr>base := c1\<rparr>) fs = Running pr"
    using assms(1,2) by (auto simp: main_def split: sum.splits if_splits prod.splits)
  have b: "base h = NewController" "cancelFunc h" using h by (auto simp: StartController_def newHap_def split: prod.splits sum.splits)
  have k: "idsKnown (base h)" by (simp add: b idsKnown_def NewController_def)
  define q where "q = map_option (\<lambda>_. [] :: event list) (startReporter conf (startTime env))"
  obtain vs :: "('c, 't) cameraServices list" and c2 where c: "startCameras env conf q 0 (Cameras conf) c1 = (Inr vs, c2)"
    and pr: "prServices pr = vs" "base (prController pr) = SetRecoveredCallback c2" "prReporter pr = startReporter conf (startTime env)"
      "cancelFunc (prController pr) = cancelFunc h"
    using s by (auto simp: startServices_def q_def Let_def split: sum.splits prod.splits)
  have rep: "startReporter conf (startTime env) \<noteq> None \<longleftrightarrow> mqttEnabled (MQTT conf)"
    using assms(2) by (auto simp: startReporter_def New_def configLoaded_def elim: LoadE)
  note R = startCameras_ready [OF c]
  note P = pairAll_verified [OF p]
  have ids: "idsKnown c2" "camName ` set (Cameras conf) \<subseteq> dom (verified c2)" using R P k by auto
  have known: "\<exists>v ids. verified c2 (camName cam) = Some v \<and> charIDs c2 (camName cam) = Some ids \<and> setupEndpointsIID ids \<noteq> 0 \<and> selectedConfigIID ids \<noteq> 0"
    if "cam \<in> set (Cameras conf)" for cam
  proof -
    have "camName cam \<in> dom (verified c2)" by (rule subsetD [OF ids(2) imageI [OF that]])
    then obtain v where "verified c2 (camName cam) = Some v" by (auto simp: dom_def)
    then show ?thesis using ids(1) unfolding idsKnown_def by (metis not_Some_eq)
  qed
  have "list_all2 (serviceReady conf) (Cameras conf) (prServices pr)" using R pr(1) by blast
  moreover have "\<forall>v\<in>set (prServices pr). onVideoStats (srtpProxy v) \<longleftrightarrow> mqttEnabled (MQTT conf)"
    using R rep by (simp add: pr(1) q_def)
  moreover have "\<forall>cam\<in>set (Cameras conf). \<exists>v ids. verified (base (prController pr)) (camName cam) = Some v
      \<and> charIDs (base (prController pr)) (camName cam) = Some ids \<and> setupEndpointsIID ids \<noteq> 0 \<and> selectedConfigIID ids \<noteq> 0"
    using known by (simp add: pr(2) SetRecoveredCallback_def)
  moreover have "prReporter pr \<noteq> None \<longleftrightarrow> mqttEnabled (MQTT conf)" unfolding pr(3) by (rule rep)
  moreover have "recoveredCallback (base (prController pr))" "cancelFunc (prController pr)" by (simp_all add: pr SetRecoveredCallback_def b)
  ultimately show ?thesis by (intro conjI)
qed

text \<open>
  A port the ONVIF server cannot listen on does not end the program, contrary to the test in \<^verbatim>\<open>main\<close>: the camera starts
  as usual, with an ONVIF server that does not listen.
\<close>

lemma onvif_listen_unnoticed:
  fixes v :: "('c, 't) cameraServices"
  assumes "startCamera env conf q i cam c = (Inr v, c')" "onvifEnabled (ONVIF cam)"
  shows "startCamera (env\<lparr>onvifListen := \<lambda>_. Inl e\<rparr>) conf q i cam c = (Inr (v\<lparr>onvifUp := False\<rparr>), c')"
  using assms by (auto simp: startCamera_def startOnvif_def StartOnvif_def Let_def split: sum.splits prod.splits)

text \<open>The exit code tells success from failure, and only \<^verbatim>\<open>-unpair\<close> removes files: the controller's keys and the pairing store.\<close>

lemma main_fails:
  fixes env :: "('v, 't) mainEnv"
  assumes "main env = (Exit n removed :: ('v, 'c, 't) outcome)" "\<not> unpairFlag env"
  shows "n = 1 \<and> removed = []"
proof (cases "configLoaded env")
  case (Inr conf)
  show ?thesis
  proof (cases "storeOpened env conf")
    case (Inr ps)
    obtain r and h :: "'v hapController" and fs where h: "StartController (hkLibrary env) newHap (startFS env) = (r, h, fs)" using prod_cases3 by blast
    obtain r2 c where p: "pairAll (pairWith env) (Cameras conf) (base h) = (r2, c)" by fastforce
    obtain r3 :: "('c, 't) cameraServices list result" and c3 where s: "startCameras env conf (map_option (\<lambda>_. []) (startReporter conf (startTime env))) 0 (Cameras conf) c = (r3, c3)" by fastforce
    show ?thesis
      using assms by (cases r; cases r2; cases r3) (simp_all add: main_def startServices_def Let_def h p s Inr \<open>configLoaded env = Inr conf\<close>)
  qed (use assms Inr in \<open>simp add: main_def\<close>)
qed (use assms in \<open>simp add: main_def\<close>)

lemma exit_codes:
  assumes "main env = Exit n removed"
  shows "(n = 0 \<longleftrightarrow> unpairFlag env \<and> (\<exists>conf. configLoaded env = Inr conf)) \<and> (removed \<noteq> [] \<longrightarrow> unpairFlag env)
    \<and> (\<forall>conf. configLoaded env = Inr conf \<longrightarrow> unpairFlag env \<longrightarrow> removed = [hkStorePath, App_Config.PairingStore conf])"
proof (cases "unpairFlag env")
  case True
  then show ?thesis using assms by (cases "configLoaded env") (auto simp: main_def)
next
  case False
  then show ?thesis using main_fails [OF assms] by simp
qed

section \<open>Shutdown\<close>

text \<open>
  After the signal the cameras are shut down one after the other (ONVIF server, session, RTSP server, proxy), then the reporter is closed
  and the controller stopped. The controller is shared: each camera's stop command goes out over the state the previous one left.
\<close>

definition asService :: "('c, 't) cameraServices \<Rightarrow> 'v Controller \<times> 'r \<times> event list option \<Rightarrow> ('v, 'c, 't, 'r) service" where
  "asService v shared = (case shared of (c, r, q) \<Rightarrow> \<lparr>server = rtspServer v, srtp = srtpProxy v, controller = c, random = r, reports = q\<rparr>)"

definition shutdownCamera ::
  "('v, 'c, 'r) startEnv \<Rightarrow> CameraConfig \<Rightarrow> nat \<Rightarrow> ('c, 't) cameraServices \<Rightarrow> 'v Controller \<times> 'r \<times> event list option
    \<Rightarrow> ('c, 't) cameraServices \<times> 'v Controller \<times> 'r \<times> event list option" where
  "shutdownCamera env cam i v shared =
     (case shutdownService env cam i (session v, asService v shared) of
        (ss, s) \<Rightarrow> (v\<lparr>onvifUp := False, session := ss, rtspServer := server s, srtpProxy := srtp s\<rparr>, controller s, random s, reports s))"

fun shutdownAll ::
  "(nat \<Rightarrow> ('v, 'c, 'r) startEnv) \<Rightarrow> nat \<Rightarrow> (CameraConfig \<times> ('c, 't) cameraServices) list \<Rightarrow> 'v Controller \<times> 'r \<times> event list option
    \<Rightarrow> ('c, 't) cameraServices list \<times> 'v Controller \<times> 'r \<times> event list option" where
  "shutdownAll env i [] shared = ([], shared)"
| "shutdownAll env i ((cam, v) # rest) shared =
     (case shutdownCamera (env i) cam i v shared of
        (v', shared1) \<Rightarrow> (case shutdownAll env (i + 1) rest shared1 of (vs, shared2) \<Rightarrow> (v' # vs, shared2)))"

definition down :: "('c, 't) cameraServices \<Rightarrow> bool" where
  "down v \<longleftrightarrow> state (session v) = StateIdle \<and> stopTimer (session v) = None \<and> quiet (srtpProxy v) \<and> \<not> streamOpen (rtspServer v) \<and> \<not> onvifUp v"

text \<open>A camera's services as they are between callbacks: the session's invariant holds and no callback is in flight.\<close>

definition betweenCallbacks :: "('c, 't) cameraServices \<Rightarrow> bool" where
  "betweenCallbacks v \<longleftrightarrow> (\<exists>w. ses w = session v \<and> inflight w = {#} \<and> session_inv w
     \<and> (if streamUp (state (session v)) then live (srtpProxy v) else quiet (srtpProxy v)))"

lemma shutdownCamera_down:
  assumes "betweenCallbacks v" "shutdownCamera env cam i v shared = (v', shared')"
  shows "down v'"
proof -
  obtain w where w: "ses w = session v" "inflight w = {#}" "session_inv w"
    "if streamUp (state (session v)) then live (srtpProxy v) else quiet (srtpProxy v)"
    using assms(1) unfolding betweenCallbacks_def by blast
  obtain c r q where sh: "shared = (c, r, q)" using prod_cases3 by blast
  have "svcInv (w, asService v shared)" using w by (simp add: svcInv_def asService_def sh)
  from shutdown_stops_all [OF this w(2), of env cam i] show ?thesis
    using assms(2) by (auto simp: shutdownCamera_def down_def w(1) split: prod.splits)
qed

lemma shutdownAll_down:
  "\<forall>x\<in>set cvs. betweenCallbacks (snd x) \<Longrightarrow> list_all down (fst (shutdownAll env i cvs shared))"
proof (induction cvs arbitrary: i shared)
  case (Cons x cvs)
  obtain cam v where x: "x = (cam, v)" by fastforce
  obtain v' s1 where 1: "shutdownCamera (env i) cam i v shared = (v', s1)" by (metis prod.exhaust)
  obtain vs s2 where 2: "shutdownAll env (i + 1) cvs s1 = (vs, s2)" by (metis prod.exhaust)
  have "down v'" using shutdownCamera_down [OF _ 1] Cons.prems x by simp
  moreover have "list_all down vs" using Cons.IH [of "i + 1" s1] Cons.prems 2 by simp
  ultimately show ?case using x 1 2 by simp
qed simp

text \<open>
  The whole shutdown: the cameras in order, then the controller, whose tables are visited in the orders \<open>vorder\<close> and \<open>dorder\<close>. Between
  the two the reporter is closed, a process of its own (\<open>Close_begin\<close> and \<open>Close_end\<close>).
\<close>

definition shutdownProgram ::
  "(nat \<Rightarrow> ('v, 'c, 'r) startEnv) \<Rightarrow> string list \<Rightarrow> string list \<Rightarrow> (CameraConfig \<times> ('c, 't) cameraServices) list
    \<Rightarrow> 'v hapController \<Rightarrow> 'r \<Rightarrow> event list option \<Rightarrow> ('c, 't) cameraServices list \<times> 'v hapController \<times> stopAction list" where
  "shutdownProgram env vorder dorder cvs h r q =
     (case shutdownAll env 0 cvs (base h, r, q) of
        (vs, c, _) \<Rightarrow> (vs, h\<lparr>base := c\<rparr>, StopController vorder dorder (h\<lparr>base := c\<rparr>)))"

text \<open>After it no camera has a stream, a timer, a socket or a listening server, and every connection of the table has been closed.\<close>

lemma shutdown_complete:
  assumes "shutdownProgram env vorder dorder cvs h r q = (vs, h', acts)" "\<forall>x\<in>set cvs. betweenCallbacks (snd x)"
    and "distinct vorder" "set vorder = dom (verified (base h'))" "distinct dorder" "set dorder = dom (devices (base h'))"
  shows "list_all down vs \<and> (\<forall>n\<in>dom (verified (base h')). count_list acts (CloseConnection n) = 1)
    \<and> (\<forall>n\<in>dom (devices (base h')). count_list acts (CloseDevice n) = 1)"
proof -
  have a: "acts = StopController vorder dorder h'" and v: "vs = fst (shutdownAll env 0 cvs (base h, r, q))"
    using assms(1) by (auto simp: shutdownProgram_def split: prod.splits)
  show ?thesis
    using stop_closes_each_once [OF assms(3-6)] shutdownAll_down [OF assms(2)] by (simp add: a v)
qed

section \<open>A worked run\<close>

definition rawCamera :: CameraConfig where
  "rawCamera = oneCamera\<lparr>SetupCode := ''12345678'', ONVIF := \<lparr>onvifEnabled = True, onvifPort = 8580\<rparr>\<rparr>"

definition rawConf :: App_Config.Config where
  "rawConf = plainConfig\<lparr>Cameras := [rawCamera], MQTT := emptyMQTT\<lparr>mqttEnabled := True\<rparr>\<rparr>"

definition demoEnv :: "(nat, unit) mainEnv" where
  "demoEnv = \<lparr>unpairFlag = False, configFile = Inr [], yaml = \<lambda>_ _. Inr rawConf, storeContent = \<lambda>_. NotExist, json = \<lambda>_. Inl [],
     hkLibrary = \<lparr>newHkController = \<lambda>fs. (Inr (), fs), loadPairings = Inr ()\<rparr>,
     startFS = \<lparr>modes = \<lambda>_. 420, chmodErr = \<lambda>_. None, readDir = Inr [(''keypair'', False)]\<rparr>,
     arrivals = \<lambda>_ _. [], pairOutside = \<lambda>_ _. (pairEnv, \<lparr>allDevices = [], pairSetup = \<lambda>_ _. Inl ''no''\<rparr>, []),
     startTime = 0, snapshotterOk = \<lambda>_. True, makeTranscoder = \<lambda>_ _ _ _. Inr (), rtspListen = \<lambda>_. Inr (), rtspInit = \<lambda>_. Inr (),
     onvifListen = \<lambda>_. Inr (), motionOutside = \<lambda>_. pairEnv\<rparr>"

definition demoCamera :: CameraConfig where
  "demoCamera = App_Config.applyDefaults rawCamera"

definition demoConf :: App_Config.Config where
  "demoConf = rawConf\<lparr>Cameras := [demoCamera], MQTT := applyMQTTDefaults (MQTT rawConf)\<rparr>"

lemma demo_fields: "camName demoCamera = ''cam''" "SetupCode demoCamera = ''123-45-678''" "Cameras demoConf = [demoCamera]"
  "onvifEnabled (ONVIF demoCamera)" "mqttEnabled (MQTT demoConf)"
  by (simp_all add: demoCamera_def demoConf_def rawCamera_def rawConf_def App_Config.applyDefaults_def applyMQTTDefaults_def normalizeSetupCode_def)

lemma demo_configLoaded: "configLoaded demoEnv = Inr demoConf"
  by (simp add: configLoaded_def demoEnv_def Load_def rawConf_def demoConf_def demoCamera_def Let_def)

lemma demo_running: "\<exists>pr. main demoEnv = (Running pr :: (nat, unit, unit) outcome)"
proof -
  obtain c where c: "PairCamera pairEnv \<lparr>allDevices = [], pairSetup = \<lambda>_ _. Inl ''no''\<rparr> [] ''cam'' ''123-45-678'' NewController = (Inr (), c)"
    using pair_run by blast
  have p: "pairAll (pairWith demoEnv) (Cameras demoConf) NewController = (Inr (), c)"
    by (simp add: demo_fields eval_nat_numeral pairWith_def demoEnv_def c)
  have s: "\<exists>pr. startServices demoEnv demoConf h fs = (Running pr :: (nat, unit, unit) outcome)" for h fs
    by (auto simp: startServices_def demo_fields startCamera_def startOnvif_def StartOnvif_def newService_def StartServer_def demoEnv_def Let_def)
  obtain ps where e: "storeOpened demoEnv demoConf = Inr ps" "\<not> unpairFlag demoEnv" by (simp add: demoEnv_def storeOpened_def NewPairingStore_def)
  obtain h :: "nat hapController" and fs where h: "StartController (hkLibrary demoEnv) newHap (startFS demoEnv) = (Inr (), h, fs)" "base h = NewController"
    by (auto simp: StartController_def newHap_def demoEnv_def)
  show ?thesis using s by (simp add: main_def e h p demo_configLoaded)
qed

theorem startup_complete_witness:
  "\<exists>pr :: (nat, unit, unit) program. main demoEnv = Running pr \<and> list_all2 (serviceReady demoConf) [demoCamera] (prServices pr)
     \<and> prReporter pr \<noteq> None \<and> (\<exists>v. verified (base (prController pr)) ''cam'' = Some v)"
proof -
  obtain pr :: "(nat, unit, unit) program" where r: "main demoEnv = Running pr" using demo_running by blast
  from startup_complete [OF r demo_configLoaded] r show ?thesis by (auto simp: demo_fields)
qed

end
