(* ===== verification/Snapshots.thy ===== *)
theory Snapshots
  imports Rtsp_Server
begin

text \<open>
  The snapshotter of \<^verbatim>\<open>internal/stream/snapshotter.go\<close> and its use by the RTSP server: decoding a cached key picture
  and keeping the JPEG of the last one that could be decoded. The libavcodec wrappers are the record \<open>avLib\<close> of functions on the decoder's
  state; they return a code that is negative on failure.
\<close>

record 'x avLib =
  snapDecode :: "'x \<Rightarrow> bytes \<Rightarrow> (int \<times> int \<times> int) \<times> 'x"
  snapInitEncoder :: "'x \<Rightarrow> int \<Rightarrow> int \<Rightarrow> int \<Rightarrow> int \<times> 'x"
  snapEncodeJpeg :: "'x \<Rightarrow> (int \<times> bytes) \<times> 'x"

record 'x Snapshotter =
  snapCtx :: "'x option"
  jpeg :: bytes
  snapWidth :: int
  snapHeight :: int

definition NewSnapshotter :: "'x option \<Rightarrow> 'x Snapshotter result" where
  "NewSnapshotter c =
     (case c of None \<Rightarrow> Inl ''snapshotter: failed to allocate H.264 decoder''
      | Some x \<Rightarrow> Inr \<lparr>snapCtx = Some x, jpeg = [], snapWidth = 0, snapHeight = 0\<rparr>)"

definition CloseSnapshotter :: "'x Snapshotter \<Rightarrow> 'x Snapshotter" where
  "CloseSnapshotter s = s\<lparr>snapCtx := None\<rparr>"

definition Update :: "'x avLib \<Rightarrow> bytes \<Rightarrow> 'x Snapshotter \<Rightarrow> unit result \<times> 'x Snapshotter" where
  "Update lib bitstream s =
     (if bitstream = [] then (Inl ''snapshotter: empty bitstream'', s)
      else case snapCtx s of
        None \<Rightarrow> (Inl ''snapshotter: closed'', s)
      | Some x \<Rightarrow>
          (case snapDecode lib x bitstream of ((rc, w, h), x1) \<Rightarrow>
             if rc < 0 then (Inl (''snapshotter: H.264 decode failed (avcodec '' @ showInt rc @ '')''), s\<lparr>snapCtx := Some x1\<rparr>)
             else case snapInitEncoder lib x1 w h 3 of (rc2, x2) \<Rightarrow>
               if rc2 < 0 then (Inl ''snapshotter: MJPEG encoder init failed'', s\<lparr>snapCtx := Some x2\<rparr>)
               else case snapEncodeJpeg lib x2 of ((rc3, out), x3) \<Rightarrow>
                 if rc3 < 0 then (Inl (''snapshotter: MJPEG encode failed (avcodec '' @ showInt rc3 @ '')''), s\<lparr>snapCtx := Some x3\<rparr>)
                 else (Inr (), s\<lparr>snapCtx := Some x3, jpeg := out, snapWidth := w, snapHeight := h\<rparr>)))"

definition LatestJPEG :: "'x Snapshotter \<Rightarrow> bytes" where
  "LatestJPEG s = jpeg s"

text \<open>The RTSP server's refresh, which only logs an error, and its answer to the ONVIF server.\<close>

definition refreshSnapshot :: "'x avLib \<Rightarrow> packet list \<Rightarrow> bytes \<Rightarrow> bytes \<Rightarrow> 'x Snapshotter \<Rightarrow> 'x Snapshotter" where
  "refreshSnapshot lib cache sps pps s = snd (Update lib (BuildIDRAnnexB cache sps pps) s)"

definition LatestSnapshotJPEG :: "'x Snapshotter option \<Rightarrow> bytes" where
  "LatestSnapshotJPEG s = (case s of None \<Rightarrow> [] | Some x \<Rightarrow> LatestJPEG x)"

section \<open>The snapshot is the last picture that could be decoded\<close>

lemma Update_fail:
  assumes "Update lib b s = (Inl e, s')"
  shows "LatestJPEG s' = LatestJPEG s \<and> snapWidth s' = snapWidth s \<and> snapHeight s' = snapHeight s \<and> (snapCtx s' = None \<longleftrightarrow> snapCtx s = None)"
  using assms by (auto simp: Update_def LatestJPEG_def split: if_splits option.splits prod.splits)

lemma Update_ok:
  assumes "Update lib b s = (Inr (), s')"
  shows "b \<noteq> [] \<and> (\<exists>x x1 x2 x3 rc rc2 rc3. snapCtx s = Some x \<and> snapDecode lib x b = ((rc, snapWidth s', snapHeight s'), x1) \<and> 0 \<le> rc
     \<and> snapInitEncoder lib x1 (snapWidth s') (snapHeight s') 3 = (rc2, x2) \<and> 0 \<le> rc2
     \<and> snapEncodeJpeg lib x2 = ((rc3, LatestJPEG s'), x3) \<and> 0 \<le> rc3 \<and> snapCtx s' = Some x3)"
  using assms by (auto simp: Update_def LatestJPEG_def split: if_splits option.splits prod.splits)

lemma closed_keeps_jpeg: "snapCtx s = None \<Longrightarrow> refreshSnapshot lib cache sps pps s = s"
  by (simp add: refreshSnapshot_def Update_def)

text \<open>The JPEGs that successive refreshes produced, the failed ones left out.\<close>

fun goodJpegs :: "'x avLib \<Rightarrow> (packet list \<times> bytes \<times> bytes) list \<Rightarrow> 'x Snapshotter \<Rightarrow> bytes list" where
  "goodJpegs lib [] s = []"
| "goodJpegs lib ((cache, sps, pps) # cs) s =
     (case Update lib (BuildIDRAnnexB cache sps pps) s of
        (Inl _, s') \<Rightarrow> goodJpegs lib cs s'
      | (Inr _, s') \<Rightarrow> LatestJPEG s' # goodJpegs lib cs s')"

lemma latest_is_last_good:
  "LatestJPEG (fold (\<lambda>(cache, sps, pps). refreshSnapshot lib cache sps pps) cs s) = last (LatestJPEG s # goodJpegs lib cs s)"
proof (induction lib cs s rule: goodJpegs.induct)
  case (2 lib cache sps pps cs s)
  obtain r s' where u: "Update lib (BuildIDRAnnexB cache sps pps) s = (r, s')" by fastforce
  show ?case
  proof (cases r)
    case (Inl e)
    then show ?thesis using u "2.IH"(1) [OF u [symmetric] Inl] Update_fail [of lib _ s e s'] by (simp add: refreshSnapshot_def)
  next
    case (Inr x)
    then show ?thesis using u "2.IH"(2) [OF u [symmetric] Inr] by (simp add: refreshSnapshot_def)
  qed
qed simp

end
