(* ===== verification/Snap_Memory.thy ===== *)
theory Snap_Memory
  imports Snapshots
begin

text \<open>
  The C functions in the preamble of \<^verbatim>\<open>internal/stream/snapshotter.go\<close> and the memory they manage: every context, frame, packet and buffer they
  allocate is an object with a kind, and a use or release of anything that is not live is recorded as misuse. The libavcodec calls
  are the record \<open>avcodec\<close>, on a state \<open>'x\<close> of the library's own; any of them, and any allocation, may fail.
\<close>

datatype cKind = CtxBlock | CodecCtx | AvFrame | AvPacket | Buffer

record 'x cMem =
  liveObjs :: "nat \<rightharpoonup> cKind"
  nextPtr :: nat
  cMisuse :: bool
  av :: 'x

record 'x avcodec =
  allocOk :: "cKind \<Rightarrow> nat \<Rightarrow> bool"
  hasH264 :: bool
  hasMJPEG :: bool
  qp2lambda :: int
  openDec :: "'x \<Rightarrow> int \<times> 'x"
  openEncoder :: "int \<Rightarrow> int \<Rightarrow> int \<Rightarrow> 'x \<Rightarrow> int \<times> 'x"
  sendPacket :: "bytes \<Rightarrow> 'x \<Rightarrow> int \<times> 'x"
  receiveFrame :: "'x \<Rightarrow> (int \<times> int \<times> int) \<times> 'x"
  sendFrame :: "'x \<Rightarrow> int \<times> 'x"
  receivePacket :: "'x \<Rightarrow> (int \<times> bytes) \<times> 'x"

record snap_ctx =
  self :: nat
  dec :: nat
  enc :: "nat option"
  yuv :: nat
  in_pkt :: nat
  out_pkt :: nat

section \<open>The wrappers\<close>

definition cAlloc :: "'x avcodec \<Rightarrow> cKind \<Rightarrow> 'x cMem \<Rightarrow> nat option \<times> 'x cMem" where
  "cAlloc lib k m =
     (if allocOk lib k (nextPtr m)
      then (Some (nextPtr m), m\<lparr>liveObjs := (liveObjs m)(nextPtr m \<mapsto> k), nextPtr := nextPtr m + 1\<rparr>) else (None, m))"

definition cFree :: "cKind \<Rightarrow> nat \<Rightarrow> 'x cMem \<Rightarrow> 'x cMem" where
  "cFree k a m = (if liveObjs m a = Some k then m\<lparr>liveObjs := (liveObjs m)(a := None)\<rparr> else m\<lparr>cMisuse := True\<rparr>)"

definition cFreeOpt :: "cKind \<Rightarrow> nat option \<Rightarrow> 'x cMem \<Rightarrow> 'x cMem" where
  "cFreeOpt k p m = (case p of None \<Rightarrow> m | Some a \<Rightarrow> cFree k a m)"

text \<open>A library call on the objects it is given.\<close>

definition onObjs :: "(nat \<times> cKind) list \<Rightarrow> ('x \<Rightarrow> 'a \<times> 'x) \<Rightarrow> 'x cMem \<Rightarrow> 'a \<times> 'x cMem" where
  "onObjs objs f m =
     (case f (av m) of (r, x) \<Rightarrow> (r, m\<lparr>av := x, cMisuse := cMisuse m \<or> (\<exists>(a, k)\<in>set objs. liveObjs m a \<noteq> Some k)\<rparr>))"

definition snap_new_frames :: "'x avcodec \<Rightarrow> nat \<Rightarrow> nat \<Rightarrow> 'x cMem \<Rightarrow> snap_ctx option \<times> 'x cMem" where
  "snap_new_frames lib s d m3 =
     (case cAlloc lib AvFrame m3 of (f, m4) \<Rightarrow> case cAlloc lib AvPacket m4 of (i, m5) \<Rightarrow> case cAlloc lib AvPacket m5 of (p, m6) \<Rightarrow>
        (case (f, i, p) of
           (Some f', Some i', Some p') \<Rightarrow> (Some \<lparr>self = s, dec = d, enc = None, yuv = f', in_pkt = i', out_pkt = p'\<rparr>, m6)
         | _ \<Rightarrow> (None, cFree CtxBlock s (cFree CodecCtx d (cFreeOpt AvPacket p (cFreeOpt AvPacket i (cFreeOpt AvFrame f m6)))))))"

definition snap_new_decoder :: "'x avcodec \<Rightarrow> nat \<Rightarrow> 'x cMem \<Rightarrow> snap_ctx option \<times> 'x cMem" where
  "snap_new_decoder lib s m1 =
     (if \<not> hasH264 lib then (None, cFree CtxBlock s m1)
      else case cAlloc lib CodecCtx m1 of
        (None, m2) \<Rightarrow> (None, cFree CtxBlock s m2)
      | (Some d, m2) \<Rightarrow>
          (case onObjs [(d, CodecCtx)] (openDec lib) m2 of
             (rc, m3) \<Rightarrow> if rc < 0 then (None, cFree CtxBlock s (cFree CodecCtx d m3)) else snap_new_frames lib s d m3))"

definition snap_new :: "'x avcodec \<Rightarrow> 'x cMem \<Rightarrow> snap_ctx option \<times> 'x cMem" where
  "snap_new lib m = (case cAlloc lib CtxBlock m of (None, m1) \<Rightarrow> (None, m1) | (Some s, m1) \<Rightarrow> snap_new_decoder lib s m1)"

definition snap_free :: "snap_ctx \<Rightarrow> 'x cMem \<Rightarrow> 'x cMem" where
  "snap_free s m =
     cFree CtxBlock (self s) (cFree AvPacket (out_pkt s) (cFree AvPacket (in_pkt s) (cFree AvFrame (yuv s)
       (cFreeOpt CodecCtx (enc s) (cFree CodecCtx (dec s) m)))))"

definition snap_decode :: "'x avcodec \<Rightarrow> 'x cMem \<times> snap_ctx \<Rightarrow> bytes \<Rightarrow> (int \<times> int \<times> int) \<times> 'x cMem \<times> snap_ctx" where
  "snap_decode lib ms data =
     (let (m, s) = ms in
      case onObjs [(in_pkt s, AvPacket), (dec s, CodecCtx)] (sendPacket lib data) m of
        (rc, m1) \<Rightarrow>
          if rc < 0 then ((rc, 0, 0), m1, s)
          else (case onObjs [(dec s, CodecCtx), (yuv s, AvFrame)] (receiveFrame lib) m1 of
                  ((rc, w, h), m2) \<Rightarrow> if rc < 0 then ((rc, 0, 0), m2, s) else ((0, w, h), m2, s)))"

definition snap_init_encoder :: "'x avcodec \<Rightarrow> 'x cMem \<times> snap_ctx \<Rightarrow> int \<Rightarrow> int \<Rightarrow> int \<Rightarrow> int \<times> 'x cMem \<times> snap_ctx" where
  "snap_init_encoder lib ms w h quality =
     (let (m, s) = ms in
      if enc s \<noteq> None then (0, m, s)
      else if \<not> hasMJPEG lib then (- 1, m, s)
      else (case cAlloc lib CodecCtx m of
              (None, m1) \<Rightarrow> (- 1, m1, s)
            | (Some e, m1) \<Rightarrow>
                (case onObjs [(e, CodecCtx)] (openEncoder lib w h (quality * qp2lambda lib)) m1 of
                   (rc, m2) \<Rightarrow> if rc < 0 then (- 1, cFree CodecCtx e m2, s) else (0, m2, s\<lparr>enc := Some e\<rparr>))))"

text \<open>The buffer the caller has to free, with its content. Without an encoder the call would be on a null pointer.\<close>

definition snap_encode_jpeg :: "'x avcodec \<Rightarrow> 'x cMem \<times> snap_ctx \<Rightarrow> (int \<times> (nat \<times> bytes) option) \<times> 'x cMem \<times> snap_ctx" where
  "snap_encode_jpeg lib ms =
     (let (m, s) = ms in
      case enc s of
        None \<Rightarrow> ((- 1, None), m\<lparr>cMisuse := True\<rparr>, s)
      | Some e \<Rightarrow>
          (case onObjs [(e, CodecCtx), (yuv s, AvFrame)] (sendFrame lib) m of
             (rc, m1) \<Rightarrow>
               if rc < 0 then ((rc, None), m1, s)
               else (case onObjs [(e, CodecCtx), (out_pkt s, AvPacket)] (receivePacket lib) m1 of
                       ((rc, data), m2) \<Rightarrow>
                         if rc < 0 then ((rc, None), m2, s)
                         else (case cAlloc lib Buffer m2 of
                                 (None, m3) \<Rightarrow> ((- 1, None), m3, s)
                               | (Some b, m3) \<Rightarrow> ((0, Some (b, data)), m3, s)))))"

text \<open>The calls as \<^verbatim>\<open>Update\<close> makes them; it copies the buffer and frees it.\<close>

definition cLib :: "'x avcodec \<Rightarrow> ('x cMem \<times> snap_ctx) avLib" where
  "cLib lib =
     \<lparr>snapDecode = snap_decode lib, snapInitEncoder = snap_init_encoder lib,
      snapEncodeJpeg = \<lambda>ms. case snap_encode_jpeg lib ms of
        ((rc, Some (b, data)), m, s) \<Rightarrow> ((rc, data), cFree Buffer b m, s)
      | ((rc, None), m, s) \<Rightarrow> ((rc, []), m, s)\<rparr>"

text \<open>The memory after \<^verbatim>\<open>Close\<close>, which does nothing on a snapshotter that is closed.\<close>

definition closeMem :: "('x cMem \<times> snap_ctx) Snapshotter \<Rightarrow> 'x cMem option" where
  "closeMem sn = map_option (\<lambda>(m, s). snap_free s m) (snapCtx sn)"

section \<open>Ownership\<close>

definition memFresh :: "'x cMem \<Rightarrow> bool" where
  "memFresh m \<longleftrightarrow> (\<forall>a\<ge>nextPtr m. liveObjs m a = None) \<and> \<not> cMisuse m"

definition owned :: "snap_ctx \<Rightarrow> (nat \<times> cKind) list" where
  "owned s = (case enc s of None \<Rightarrow> [] | Some e \<Rightarrow> [(e, CodecCtx)])
     @ [(dec s, CodecCtx), (yuv s, AvFrame), (in_pkt s, AvPacket), (out_pkt s, AvPacket), (self s, CtxBlock)]"

text \<open>The live objects are those of \<open>base\<close> and, beside them, those of \<open>own\<close>.\<close>

definition holds :: "(nat \<rightharpoonup> cKind) \<Rightarrow> 'x cMem \<Rightarrow> (nat \<rightharpoonup> cKind) \<Rightarrow> bool" where
  "holds base m own \<longleftrightarrow> memFresh m \<and> (\<forall>a. base a = None \<or> own a = None) \<and> liveObjs m = base ++ own"

definition ctxOk :: "(nat \<rightharpoonup> cKind) \<Rightarrow> 'x cMem \<Rightarrow> snap_ctx \<Rightarrow> bool" where
  "ctxOk base m s \<longleftrightarrow> holds base m (map_of (owned s)) \<and> distinct (map fst (owned s))"

lemma holds_alloc:
  assumes "holds base m own" "cAlloc lib k m = (Some a, m')"
  shows "holds base m' (own(a \<mapsto> k))" "own a = None"
proof -
  have m: "m' = m\<lparr>liveObjs := (liveObjs m)(a \<mapsto> k), nextPtr := a + 1\<rparr>" "a = nextPtr m"
    using assms(2) by (auto simp: cAlloc_def split: if_splits)
  have "liveObjs m a = None" using assms(1) m(2) unfolding holds_def memFresh_def by (metis order_refl)
  then have n: "base a = None" "own a = None" using assms(1) by (auto simp: holds_def)
  then show "holds base m' (own(a \<mapsto> k))" "own a = None" using assms(1) m by (auto simp: holds_def memFresh_def)
qed

lemma holds_alloc_none: "holds base m own \<Longrightarrow> cAlloc lib k m = (None, m') \<Longrightarrow> holds base m' own"
  by (auto simp: cAlloc_def split: if_splits)

lemma holds_free:
  assumes "holds base m own" "own a = Some k"
  shows "holds base (cFree k a m) (own(a := None))"
proof -
  have b: "base a = None" and l: "liveObjs m a = Some k" using assms by (auto simp: holds_def)
  then have "(liveObjs m)(a := None) = base ++ own(a := None)" using assms(1) by (auto simp: holds_def map_add_def fun_eq_iff)
  then show ?thesis using assms(1) l by (auto simp: holds_def memFresh_def cFree_def)
qed

lemma holds_use:
  assumes "holds base m own" "\<forall>(a, k)\<in>set objs. own a = Some k" "onObjs objs f m = (r, m')"
  shows "holds base m' own"
proof -
  have "\<forall>(a, k)\<in>set objs. liveObjs m a = Some k" using assms(1,2) by (auto simp: holds_def)
  then show ?thesis using assms(1,3) by (auto simp: holds_def memFresh_def onObjs_def split: prod.splits)
qed

lemma holds_freeOpt:
  assumes "holds base m own" "\<And>a. p = Some a \<Longrightarrow> own a = Some k"
  shows "holds base (cFreeOpt k p m) (own |` (- set_option p))"
proof (cases p)
  case None
  moreover have "own |` UNIV = own" by (simp add: restrict_map_def)
  ultimately show ?thesis using assms(1) by (simp add: cFreeOpt_def)
next
  case (Some a)
  then show ?thesis using holds_free [OF assms(1) assms(2) [OF Some]] by (simp add: cFreeOpt_def restrict_complement_singleton_eq)
qed

definition addOwn :: "nat option \<Rightarrow> cKind \<Rightarrow> (nat \<rightharpoonup> cKind) \<Rightarrow> nat \<rightharpoonup> cKind" where
  "addOwn p k own = (case p of None \<Rightarrow> own | Some a \<Rightarrow> own(a \<mapsto> k))"

lemma holds_allocOpt:
  assumes "holds base m own" "cAlloc lib k m = (p, m')"
  shows "holds base m' (addOwn p k own) \<and> (\<forall>a\<in>set_option p. own a = None)"
  using assms holds_alloc [OF assms(1)] holds_alloc_none [OF assms(1)] by (cases p) (auto simp: addOwn_def)

text \<open>The three allocations at the end of \<^verbatim>\<open>snap_new\<close>: what they own when all succeed, and that the clean-up undoes them in every case.\<close>

lemma snap_frames:
  assumes "holds base m3 own" "cAlloc lib AvFrame m3 = (f, m4)" "cAlloc lib AvPacket m4 = (i, m5)" "cAlloc lib AvPacket m5 = (p, m6)"
  shows "holds base m6 (addOwn p AvPacket (addOwn i AvPacket (addOwn f AvFrame own)))"
    "set_option f \<inter> dom own = {}" "set_option i \<inter> (dom own \<union> set_option f) = {}"
    "set_option p \<inter> (dom own \<union> set_option f \<union> set_option i) = {}"
    "holds base (cFreeOpt AvPacket p (cFreeOpt AvPacket i (cFreeOpt AvFrame f m6))) own"
proof -
  note h4 = holds_allocOpt [OF assms(1,2)]
  note h5 = holds_allocOpt [OF h4 [THEN conjunct1] assms(3)]
  note h6 = holds_allocOpt [OF h5 [THEN conjunct1] assms(4)]
  let ?o = "addOwn p AvPacket (addOwn i AvPacket (addOwn f AvFrame own))"
  show 6: "holds base m6 ?o" using h6 by blast
  show d: "set_option f \<inter> dom own = {}" "set_option i \<inter> (dom own \<union> set_option f) = {}"
    "set_option p \<inter> (dom own \<union> set_option f \<union> set_option i) = {}"
    using h4 h5 h6 by (auto simp: addOwn_def split: option.splits if_splits)
  have o: "?o a = (if a \<in> set_option p \<union> set_option i then Some AvPacket else if a \<in> set_option f then Some AvFrame else own a)" for a
    by (auto simp: addOwn_def split: option.splits)
  note g = holds_freeOpt [OF holds_freeOpt [OF holds_freeOpt [OF 6, of f AvFrame], of i AvPacket], of p AvPacket]
  have "?o |` (- set_option f) |` (- set_option i) |` (- set_option p) = own"
    using d by (fastforce simp: restrict_map_def o fun_eq_iff)
  moreover have "?o a = Some AvFrame" if "f = Some a" for a unfolding o using d that by auto
  moreover have "(?o |` (- set_option f)) a = Some AvPacket" if "i = Some a" for a unfolding restrict_map_def o using d that by auto
  moreover have "(?o |` (- set_option f) |` (- set_option i)) a = Some AvPacket" if "p = Some a" for a
    unfolding restrict_map_def o using d that by auto
  ultimately show "holds base (cFreeOpt AvPacket p (cFreeOpt AvPacket i (cFreeOpt AvFrame f m6))) own" using g by metis
qed

definition newOk :: "(nat \<rightharpoonup> cKind) \<Rightarrow> snap_ctx option \<times> 'x cMem \<Rightarrow> bool" where
  "newOk base rm = (case rm of (None, m) \<Rightarrow> holds base m Map.empty | (Some s, m) \<Rightarrow> ctxOk base m s)"

lemma free_ctx: "holds base m [s \<mapsto> CtxBlock] \<Longrightarrow> newOk base (None, cFree CtxBlock s m)"
  using holds_free [of base m "[s \<mapsto> CtxBlock]" s CtxBlock] by (simp add: newOk_def)

lemma free_decoder:
  assumes "holds base m [s \<mapsto> CtxBlock, d \<mapsto> CodecCtx]" "s \<noteq> d"
  shows "newOk base (None, cFree CtxBlock s (cFree CodecCtx d m))"
proof -
  have "[s \<mapsto> CtxBlock, d \<mapsto> CodecCtx](d := None) = [s \<mapsto> CtxBlock]" using assms(2) by (auto simp: fun_eq_iff)
  then show ?thesis using holds_free [OF assms(1), of d CodecCtx] by (intro free_ctx) simp
qed

lemma snap_new_frames_memory:
  assumes "holds base m3 [s \<mapsto> CtxBlock, d \<mapsto> CodecCtx]" "s \<noteq> d"
  shows "newOk base (snap_new_frames lib s d m3)"
proof -
  obtain f m4 i m5 p m6 where a: "cAlloc lib AvFrame m3 = (f, m4)" "cAlloc lib AvPacket m4 = (i, m5)" "cAlloc lib AvPacket m5 = (p, m6)"
    by fastforce
  note h = snap_frames [OF assms(1) a]
  show ?thesis
  proof (cases "f = None \<or> i = None \<or> p = None")
    case True
    then have "snap_new_frames lib s d m3 = (None, cFree CtxBlock s (cFree CodecCtx d (cFreeOpt AvPacket p (cFreeOpt AvPacket i (cFreeOpt AvFrame f m6)))))"
      by (auto simp: snap_new_frames_def a split: option.splits)
    then show ?thesis using free_decoder [OF h(5) assms(2)] by simp
  next
    case False
    then obtain f' i' p' where fip: "f = Some f'" "i = Some i'" "p = Some p'" by (cases f; cases i; cases p) auto
    define c where "c = \<lparr>self = s, dec = d, enc = None, yuv = f', in_pkt = i', out_pkt = p'\<rparr>"
    have "map_of (owned c) = addOwn p AvPacket (addOwn i AvPacket (addOwn f AvFrame [s \<mapsto> CtxBlock, d \<mapsto> CodecCtx]))"
      "distinct (map fst (owned c))"
      using h(2-4) assms(2) by (auto simp: c_def owned_def addOwn_def fip fun_eq_iff split: if_splits)
    then have "ctxOk base m6 c" using h(1) by (simp add: ctxOk_def)
    then show ?thesis by (simp add: snap_new_frames_def a fip c_def newOk_def)
  qed
qed

lemma snap_new_memory:
  assumes "memFresh m"
  shows "newOk (liveObjs m) (snap_new lib m)"
proof -
  let ?b = "liveObjs m"
  have h0: "holds ?b m Map.empty" using assms by (simp add: holds_def)
  have dec: "newOk ?b (snap_new_decoder lib s m1)" if h1: "holds ?b m1 [s \<mapsto> CtxBlock]" for s m1
  proof -
    obtain pd m2 where a2: "cAlloc lib CodecCtx m1 = (pd, m2)" by fastforce
    show ?thesis
    proof (cases pd)
      case None
      then show ?thesis
        using free_ctx [OF h1] free_ctx [OF holds_alloc_none [OF h1 a2 [unfolded None]]] by (simp add: snap_new_decoder_def a2)
    next
      case (Some d)
      note h2 = holds_alloc [OF h1 a2 [unfolded Some]]
      have sd: "s \<noteq> d" using h2(2) by auto
      obtain rc m3 where u: "onObjs [(d, CodecCtx)] (openDec lib) m2 = (rc, m3)" by fastforce
      have h3: "holds ?b m3 [s \<mapsto> CtxBlock, d \<mapsto> CodecCtx]" using holds_use [OF h2(1) _ u] by simp
      show ?thesis
        using free_ctx [OF h1] free_decoder [OF h3 sd] snap_new_frames_memory [OF h3 sd] by (simp add: snap_new_decoder_def a2 Some u)
    qed
  qed
  obtain ps m1 where a1: "cAlloc lib CtxBlock m = (ps, m1)" by fastforce
  show ?thesis
  proof (cases ps)
    case None
    then show ?thesis using holds_alloc_none [OF h0 a1 [unfolded None]] by (simp add: snap_new_def a1 newOk_def)
  next
    case (Some s)
    then show ?thesis using dec [OF holds_alloc(1) [OF h0 a1 [unfolded Some]]] by (simp add: snap_new_def a1)
  qed
qed

text \<open>Releasing a list of objects one after the other.\<close>

lemma holds_free_all:
  assumes "holds base m (map_of os)" "distinct (map fst os)"
  shows "holds base (fold (\<lambda>(a, k). cFree k a) os m) Map.empty"
  using assms
proof (induction os arbitrary: m)
  case (Cons ak os)
  obtain a k where ak: "ak = (a, k)" by fastforce
  have e: "(map_of ((a, k) # os))(a := None) = map_of os" using Cons.prems(2) map_of_eq_None_iff [of os a] by (auto simp: ak fun_eq_iff)
  have "holds base (cFree k a m) ((map_of ((a, k) # os))(a := None))"
    using Cons.prems(1) unfolding ak by (rule holds_free) simp
  then have "holds base (cFree k a m) (map_of os)" unfolding e .
  then show ?case using Cons by (simp add: ak)
qed simp

lemma snap_free_memory:
  assumes "ctxOk base m s"
  shows "holds base (snap_free s m) Map.empty"
proof -
  define os where "os = (dec s, CodecCtx) # (case enc s of None \<Rightarrow> [] | Some e \<Rightarrow> [(e, CodecCtx)])
     @ [(yuv s, AvFrame), (in_pkt s, AvPacket), (out_pkt s, AvPacket), (self s, CtxBlock)]"
  have d: "distinct (map fst (owned s))" and h: "holds base m (map_of (owned s))" using assms by (simp_all add: ctxOk_def)
  have "map_of os = map_of (owned s)" "distinct (map fst os)"
    using d by (auto simp: os_def owned_def fun_eq_iff split: option.splits)
  moreover have "snap_free s m = fold (\<lambda>(a, k). cFree k a) os m" by (simp add: snap_free_def os_def cFreeOpt_def split: option.splits)
  ultimately show ?thesis using holds_free_all [of base m os] h by simp
qed

section \<open>The calls keep the account\<close>

lemma owned_values:
  assumes "distinct (map fst (owned s))"
  shows "map_of (owned s) (dec s) = Some CodecCtx" "map_of (owned s) (yuv s) = Some AvFrame" "map_of (owned s) (in_pkt s) = Some AvPacket"
    "map_of (owned s) (out_pkt s) = Some AvPacket" "enc s = Some e \<Longrightarrow> map_of (owned s) e = Some CodecCtx"
  by (rule map_of_is_SomeI [OF assms]; simp add: owned_def)+

lemma snap_decode_memory:
  assumes "ctxOk base m s" "snap_decode lib (m, s) data = (r, m', s')"
  shows "s' = s \<and> ctxOk base m' s"
proof -
  have d: "distinct (map fst (owned s))" and h: "holds base m (map_of (owned s))" using assms(1) by (simp_all add: ctxOk_def)
  obtain rc m1 where 1: "onObjs [(in_pkt s, AvPacket), (dec s, CodecCtx)] (sendPacket lib data) m = (rc, m1)" by fastforce
  have h1: "holds base m1 (map_of (owned s))" using holds_use [OF h _ 1] owned_values [OF d] by simp
  obtain rc2 m2 where 2: "onObjs [(dec s, CodecCtx), (yuv s, AvFrame)] (receiveFrame lib) m1 = (rc2, m2)" by fastforce
  have "holds base m2 (map_of (owned s))" using holds_use [OF h1 _ 2] owned_values [OF d] by simp
  then show ?thesis using assms(2) 1 2 h1 d by (auto simp: snap_decode_def ctxOk_def split: if_splits prod.splits)
qed

lemma snap_init_encoder_memory:
  assumes "ctxOk base m s" "snap_init_encoder lib (m, s) w h q = (rc, m', s')"
  shows "ctxOk base m' s' \<and> (0 \<le> rc \<longrightarrow> enc s' \<noteq> None)"
proof (cases "enc s = None \<and> hasMJPEG lib")
  case True
  have d: "distinct (map fst (owned s))" and h: "holds base m (map_of (owned s))" using assms(1) by (simp_all add: ctxOk_def)
  obtain pe m1 where 1: "cAlloc lib CodecCtx m = (pe, m1)" by fastforce
  show ?thesis
  proof (cases pe)
    case None
    then show ?thesis using assms True 1 holds_alloc_none [OF h] d by (auto simp: snap_init_encoder_def ctxOk_def)
  next
    case (Some e)
    note h1 = holds_alloc [OF h 1 [unfolded Some]]
    obtain r m2 where 2: "onObjs [(e, CodecCtx)] (openEncoder lib w h (q * qp2lambda lib)) m1 = (r, m2)" by fastforce
    have h2: "holds base m2 ((map_of (owned s))(e \<mapsto> CodecCtx))" using holds_use [OF h1(1) _ 2] by simp
    have o: "owned (s\<lparr>enc := Some e\<rparr>) = (e, CodecCtx) # owned s" using True by (simp add: owned_def)
    have "ctxOk base m2 (s\<lparr>enc := Some e\<rparr>)" using h2 h1(2) d by (simp add: ctxOk_def o map_of_eq_None_iff)
    moreover have "ctxOk base (cFree CodecCtx e m2) s"
      using holds_free [OF h2, of e CodecCtx] h1(2) d by (simp add: ctxOk_def fun_upd_idem)
    ultimately show ?thesis using assms(2) True 1 2 Some by (auto simp: snap_init_encoder_def split: if_splits)
  qed
qed (use assms in \<open>auto simp: snap_init_encoder_def split: if_splits\<close>)

lemma snap_encode_memory:
  assumes "ctxOk base m s" "enc s \<noteq> None" "snapEncodeJpeg (cLib lib) (m, s) = (r, m', s')"
  shows "s' = s \<and> ctxOk base m' s"
proof -
  have d: "distinct (map fst (owned s))" and h: "holds base m (map_of (owned s))" using assms(1) by (simp_all add: ctxOk_def)
  obtain e where e: "enc s = Some e" using assms(2) by blast
  obtain rc m1 where 1: "onObjs [(e, CodecCtx), (yuv s, AvFrame)] (sendFrame lib) m = (rc, m1)" by fastforce
  have h1: "holds base m1 (map_of (owned s))" using holds_use [OF h _ 1] owned_values [OF d] e by simp
  obtain rc2 data m2 where 2: "onObjs [(e, CodecCtx), (out_pkt s, AvPacket)] (receivePacket lib) m1 = ((rc2, data), m2)" by (metis prod.exhaust)
  have h2: "holds base m2 (map_of (owned s))" using holds_use [OF h1 _ 2] owned_values [OF d] e by simp
  obtain pb m3 where 3: "cAlloc lib Buffer m2 = (pb, m3)" by fastforce
  have h3: "holds base (cFreeOpt Buffer pb m3) (map_of (owned s))"
  proof (cases pb)
    case (Some b)
    note hb = holds_alloc [OF h2 3 [unfolded Some]]
    then show ?thesis using holds_free [OF hb(1), of b Buffer] by (simp add: Some cFreeOpt_def fun_upd_idem)
  qed (use holds_alloc_none [OF h2] 3 in \<open>simp add: cFreeOpt_def\<close>)
  show ?thesis
    using assms(3) e 1 2 3 h1 h2 h3 d
    by (cases pb) (auto simp: cLib_def snap_encode_jpeg_def ctxOk_def cFreeOpt_def split: if_splits)
qed

text \<open>\<^verbatim>\<open>Update\<close> on the C library: whatever fails, the context owns exactly its objects afterwards.\<close>

lemma Update_memory:
  assumes "snapCtx sn = Some (m, s)" "ctxOk base m s" "Update (cLib lib) bitstream sn = (r, sn')"
  shows "\<exists>m' s'. snapCtx sn' = Some (m', s') \<and> ctxOk base m' s'"
proof (cases "bitstream = []")
  case False
  obtain rc w h m1 s1 where 1: "snap_decode lib (m, s) bitstream = ((rc, w, h), m1, s1)" by (metis prod_cases3)
  note k1 = snap_decode_memory [OF assms(2) 1]
  obtain rc2 m2 s2 where 2: "snap_init_encoder lib (m1, s) w h 3 = (rc2, m2, s2)" by (metis prod_cases3)
  note k2 = snap_init_encoder_memory [OF k1 [THEN conjunct2] 2]
  obtain rc3 out m3 s3 where 3: "snapEncodeJpeg (cLib lib) (m2, s2) = ((rc3, out), m3, s3)" by (metis prod.exhaust)
  have k3: "s3 = s2 \<and> ctxOk base m3 s2" if "0 \<le> rc2" using snap_encode_memory [OF _ _ 3] k2 that by blast
  have l: "snapDecode (cLib lib) = snap_decode lib" "snapInitEncoder (cLib lib) = snap_init_encoder lib" by (simp_all add: cLib_def)
  show ?thesis
    using assms(1,3) False k1 k2 k3 1 2 3 by (auto simp: Update_def l not_less split: if_splits)
qed (use assms in \<open>auto simp: Update_def\<close>)

section \<open>Nothing leaks\<close>


text \<open>The encoder is made for the size of the first picture and kept: a later change of size does not reach it.\<close>

lemma encoder_size_kept: "enc s = Some e \<Longrightarrow> snap_init_encoder lib (m, s) w h q = (0, m, s)"
  by (simp add: snap_init_encoder_def)

text \<open>A library that decodes everything to pictures of 4 by 3 and encodes them to the bytes 7, 8.\<close>

definition demoAv :: "unit avcodec" where
  "demoAv = \<lparr>allocOk = \<lambda>_ _. True, hasH264 = True, hasMJPEG = True, qp2lambda = 118, openDec = \<lambda>x. (0, x), openEncoder = \<lambda>_ _ _ x. (0, x),
     sendPacket = \<lambda>_ x. (0, x), receiveFrame = \<lambda>x. ((0, 4, 3), x), sendFrame = \<lambda>x. (0, x), receivePacket = \<lambda>x. ((0, [7, 8]), x)\<rparr>"

definition demoMem :: "unit cMem" where
  "demoMem = \<lparr>liveObjs = Map.empty, nextPtr = 0, cMisuse = False, av = ()\<rparr>"

definition demoSnap :: "unit cMem \<times> snap_ctx" where
  "demoSnap = (case snap_new demoAv demoMem of (Some s, m) \<Rightarrow> (m, s) | (None, m) \<Rightarrow> (m, \<lparr>self = 0, dec = 0, enc = None, yuv = 0, in_pkt = 0, out_pkt = 0\<rparr>))"

definition demoSnapshotter :: "(unit cMem \<times> snap_ctx) Snapshotter" where
  "demoSnapshotter = \<lparr>snapCtx = Some demoSnap, jpeg = [], snapWidth = 0, snapHeight = 0\<rparr>"


end
