(* ===== verification/Diagnostics.thy ===== *)
theory Diagnostics
  imports Rtsp_Props Audio_Path
begin

text \<open>
  The two stand-alone commands for manual testing: \<^verbatim>\<open>cmd/test-rtsp\<close>, an RTSP server with an artificial stream, and
  \<^verbatim>\<open>cmd/debug-pair\<close>, which pairs with one device and prints its accessory database.
\<close>

section \<open>The artificial stream\<close>

definition testSPS :: bytes where
  "testSPS = [0x67, 0x42, 0xc0, 0x0a, 0xd9, 0x07, 0x3c, 0x04, 0x40]"

definition testPPS :: bytes where
  "testPPS = [0x68, 0xce, 0x38, 0x80]"

definition buildSTAPA :: "bytes \<Rightarrow> bytes \<Rightarrow> bytes" where
  "buildSTAPA sps pps =
     [24] @ [of_nat (length sps div 256), of_nat (length sps)] @ sps @ [of_nat (length pps div 256), of_nat (length pps)] @ pps"

definition testPacket :: "bool \<Rightarrow> u16 \<Rightarrow> u32 \<Rightarrow> bytes \<Rightarrow> packet" where
  "testPacket m seq ts pl = \<lparr>marker = m, payloadType = 96, seqNum = seq, timestamp = ts, ssrc = 0, payload = pl\<rparr>"

definition testIDR :: bytes where
  "testIDR = 0x65 # map of_nat [1..<100]"

definition testPFrame :: "nat \<Rightarrow> bytes" where
  "testPFrame i = 0x41 # map (\<lambda>j. of_nat (j + i)) [1..<500]"

text \<open>The loop over the remaining pictures: index, how many are left, next sequence number and last timestamp.\<close>

fun testPFrames :: "nat \<Rightarrow> nat \<Rightarrow> u16 \<Rightarrow> u32 \<Rightarrow> packet list" where
  "testPFrames i 0 seq ts = []"
| "testPFrames i (Suc n) seq ts =
     (let ts' = ts + 4500 in testPacket True seq ts' (testPFrame i) # testPFrames (i + 1) n (seq + 1) ts')"

text \<open>What one \<^verbatim>\<open>PLAY\<close> writes to the stream.\<close>

definition testOnPlay :: "packet list" where
  "testOnPlay = testPacket False 0 0 (buildSTAPA testSPS testPPS) # testPacket True 1 0 testIDR # testPFrames 0 200 2 0"

text \<open>
  The server around it: the format it announces, its start, and the answers to \<^verbatim>\<open>DESCRIBE\<close> and \<^verbatim>\<open>SETUP\<close>. The stream
  is set before it is initialized and after the server listens.
\<close>

record testHandler =
  thServer :: bool
  thStream :: bool
  thFormat :: H264Format

definition testFormat :: H264Format where
  "testFormat = \<lparr>PayloadTyp = 96, PacketizationMode = 1, formatSPS = Some testSPS, formatPPS = Some testPPS\<rparr>"

definition testMain :: "unit result \<Rightarrow> unit result \<Rightarrow> testHandler \<times> go_error option" where
  "testMain listen init =
     (let h = \<lparr>thServer = True, thStream = False, thFormat = testFormat\<rparr> in
      case listen of
        Inl e \<Rightarrow> (h, Some e)
      | Inr _ \<Rightarrow> (case init of Inl e \<Rightarrow> (h\<lparr>thStream := True\<rparr>, Some e) | Inr _ \<Rightarrow> (h\<lparr>thStream := True\<rparr>, None)))"

definition testDescribe :: "testHandler \<Rightarrow> nat \<times> H264Format option" where
  "testDescribe h = (200, if thStream h then Some (thFormat h) else None)"

lemma of_nat_byte_high: "(of_nat (n div 256) :: byte) = ucast (drop_bit 8 (of_nat n :: u16))"
proof (rule word_unat_eq_iff [THEN iffD2])
  have "n div 256 mod 256 = n mod 65536 div 256" by (simp add: mod_mult2_eq [of n 256 256, simplified])
  moreover have "n mod 65536 div 256 mod 256 = n mod 65536 div 256" by (simp add: mod_mult2_eq [of n 256 256, simplified])
  ultimately show "unat (of_nat (n div 256) :: byte) = unat (ucast (drop_bit 8 (of_nat n :: u16)) :: byte)"
    by (simp add: unat_of_nat unsigned_ucast_eq drop_bit_eq_div take_bit_eq_mod unat_div_distrib)
qed

lemma buildSTAPA_stapA: "buildSTAPA sps pps = stapA 24 [sps, pps]"
proof -
  have "[of_nat (n div 256), of_nat n] = PutUint16BE (of_nat n)" for n :: nat
  proof -
    have "PutUint16BE (of_nat n) = [ucast (drop_bit 8 (of_nat n :: u16)), ucast (of_nat n :: u16)]"
      by (simp add: PutUint16BE_def le_bytes_def upt_rec)
    moreover have "ucast (of_nat n :: u16) = (of_nat n :: byte)"
      by (rule word_unat_eq_iff [THEN iffD2]) (simp add: unat_of_nat unsigned_ucast_eq take_bit_eq_mod mod_mod_cancel)
    ultimately show ?thesis by (simp add: of_nat_byte_high)
  qed
  then show ?thesis by (simp add: buildSTAPA_def stapA_def stapUnit_def)
qed

text \<open>The proxy's own parser finds the parameter sets in the aggregation packet.\<close>

lemma buildSTAPA_parsed:
  assumes "sps \<noteq> []" "naluType (hd sps) = 7" "length sps < 65536" "pps \<noteq> []" "naluType (hd pps) = 8" "length pps < 65536"
  shows "parseSTAPA (buildSTAPA sps pps) = (Some sps, Some pps)"
  using assms by (simp add: buildSTAPA_stapA parseSTAPA_stapA stapOk_def)

lemma test_params_found: "parseSTAPA (buildSTAPA testSPS testPPS) = (Some testSPS, Some testPPS)"
  by (rule buildSTAPA_parsed) (simp_all add: testSPS_def testPPS_def naluType_def)

text \<open>What a running server announces is what its stream carries: the payload type, and the parameter sets of its first packet.\<close>

lemma test_announces_stream:
  assumes "testMain listen init = (h, None)"
  shows "\<exists>f. testDescribe h = (200, Some f) \<and> (\<forall>p\<in>set testOnPlay. payloadType p = PayloadTyp f)
    \<and> parseSTAPA (payload (hd testOnPlay)) = (formatSPS f, formatPPS f)"
proof -
  have "payloadType p = 96" if "p \<in> set (testPFrames i n seq ts)" for p i n seq ts
    using that by (induction n arbitrary: i seq ts) (auto simp: testPacket_def Let_def)
  moreover have "h = \<lparr>thServer = True, thStream = True, thFormat = testFormat\<rparr>"
    using assms by (auto simp: testMain_def Let_def split: sum.splits)
  ultimately show ?thesis by (auto simp: testDescribe_def testFormat_def testOnPlay_def test_params_found testPacket_def)
qed

text \<open>
  The stream is 202 packets with consecutive numbers; the first two are one access unit at time 0, every later packet is an access unit
  of its own, 50 ms (4500 ticks) after the one before.
\<close>

lemma testPFrames_stream:
  "consecutive seq (testPFrames i n seq ts) \<and> length (testPFrames i n seq ts) = n \<and> list_all marker (testPFrames i n seq ts)
   \<and> map timestamp (testPFrames i n seq ts) = map (\<lambda>k. ts + 4500 * of_nat (Suc k)) [0..<n]"
proof (induction n arbitrary: i seq ts)
  case (Suc n)
  have "map (\<lambda>k. ts + 4500 * of_nat (Suc k)) [0..<Suc n] = (ts + 4500) # map (\<lambda>k. ts + 4500 + 4500 * of_nat (Suc k)) [0..<n]"
    by (simp add: map_upt_Suc algebra_simps del: upt_Suc)
  then show ?case using Suc.IH [of "seq + 1" "i + 1" "ts + 4500"] by (simp add: testPacket_def Let_def del: upt_Suc)
qed simp

lemma test_stream_well_formed:
  "length testOnPlay = 202 \<and> consecutive 0 testOnPlay
   \<and> map timestamp testOnPlay = 0 # 0 # map (\<lambda>k. 4500 * of_nat (Suc k)) [0..<200]
   \<and> map marker testOnPlay = False # replicate 201 True"
proof -
  note p = testPFrames_stream [of 2 0 200 0]
  have "map marker (testPFrames 0 200 2 0) = replicate 200 True"
    using p by (intro replicate_eqI) (auto simp: list_all_iff)
  moreover have "replicate 201 True = True # replicate 200 True" by (simp add: eval_nat_numeral)
  ultimately show ?thesis using p by (simp add: testOnPlay_def testPacket_def del: upt_Suc)
qed

text \<open>
  Such a stream would not play through the proxy. Its key picture is a single packet, and the proxy caches only key pictures that come in
  fragments: as long as no fragments come, the signal that joining clients wait for is not given.
\<close>

lemma unfragmented_not_cached:
  assumes "\<And>b rest. payload pkt = b # rest \<Longrightarrow> naluType b \<noteq> 28"
  shows "idrCache (fst (cacheIDRPacket pkt s)) = idrCache s \<and> closedChans (fst (cacheIDRPacket pkt s)) = closedChans s
    \<and> idrReady (fst (cacheIDRPacket pkt s)) = idrReady s"
  using assms by (cases "payload pkt") (auto simp: cacheIDRPacket_def)

lemma maybeExtract_cache: "idrCache (maybeExtract pkt s) = idrCache s" "closedChans (maybeExtract pkt s) = closedChans s"
  "idrReady (maybeExtract pkt s) = idrReady s"
  by (simp_all add: maybeExtract_def extractSPSPPS_def Let_def split: list.splits prod.splits)

lemma normalize_cache:
  assumes "normalizeVideoRTP now pkt s = (s', pkt')"
  shows "idrCache s' = idrCache s" "closedChans s' = closedChans s" "idrReady s' = idrReady s" "payload pkt' = payload pkt"
  using assms by (auto simp: normalizeVideoRTP_def Let_def)

lemma single_packet_keys_never_ready:
  fixes s :: "'t RTSPServer"
  assumes "\<forall>p\<in>set ps. \<forall>b rest. payload p = b # rest \<longrightarrow> naluType b \<noteq> 28"
  shows "idrCache (fst (runAll (\<lambda>p. WriteVideoPacket (now p) p) ps s)) = idrCache s
    \<and> closedChans (fst (runAll (\<lambda>p. WriteVideoPacket (now p) p) ps s)) = closedChans s
    \<and> idrReady (fst (runAll (\<lambda>p. WriteVideoPacket (now p) p) ps s)) = idrReady s"
  using assms
proof (induction ps arbitrary: s)
  case (Cons p ps)
  obtain s1 out where w: "WriteVideoPacket (now p) p s = (s1, out)" by fastforce
  have "idrCache s1 = idrCache s \<and> closedChans s1 = closedChans s \<and> idrReady s1 = idrReady s"
  proof (cases "streamOpen s")
    case True
    obtain s2 p2 where n: "normalizeVideoRTP (now p) (p\<lparr>payloadType := videoPT\<rparr>) (maybeExtract (p\<lparr>payloadType := videoPT\<rparr>) s) = (s2, p2)" by fastforce
    obtain s3 o3 where c: "cacheIDRPacket p2 s2 = (s3, o3)" by fastforce
    have "idrCache s3 = idrCache s2 \<and> closedChans s3 = closedChans s2 \<and> idrReady s3 = idrReady s2"
      using unfragmented_not_cached [of p2 s2] normalize_cache(4) [OF n] Cons.prems by (simp add: c)
    then show ?thesis using w True n c normalize_cache [OF n] by (auto simp: WriteVideoPacket_def maybeExtract_cache Let_def)
  qed (use w in \<open>simp add: WriteVideoPacket_def\<close>)
  then show ?case using Cons.IH [of s1] Cons.prems by (simp add: w case_prod_beta)
qed simp

lemma testPFrames_payloads: "p \<in> set (testPFrames i n seq ts) \<Longrightarrow> \<exists>rest. payload p = 0x41 # rest"
  by (induction n arbitrary: i seq ts) (auto simp: testPacket_def testPFrame_def Let_def)

lemma test_stream_not_cached: "idrCache (fst (runAll (\<lambda>p. WriteVideoPacket (now p) p) testOnPlay s)) = idrCache s"
proof -
  have "\<forall>p\<in>set testOnPlay. \<forall>b rest. payload p = b # rest \<longrightarrow> naluType b \<noteq> 28"
    by (auto simp: testOnPlay_def testPacket_def testIDR_def buildSTAPA_def naluType_def dest: testPFrames_payloads)
  then show ?thesis using single_packet_keys_never_ready by blast
qed

section \<open>Pairing with one device\<close>

text \<open>
  What the command gets from outside, beside the environment of the controller: the devices announced before the time-out, the
  interface a device was seen on, and the capacity of a byte slice (at least its length), which decides whether
  printing its first eight bytes panics.
\<close>

record debugOutside =
  dbgController :: "unit result"
  announced :: "device list"
  ifaceName :: "device \<Rightarrow> string"
  capOf :: "bytes \<Rightarrow> nat"

datatype debugOutcome = UsageError | Fatal string | Panicked | Printed "Accessory list"

datatype debugAction = StartDiscovery | CloseDevice string | CloseClient | StopDiscovery

definition matches :: "string \<Rightarrow> device \<Rightarrow> bool" where
  "matches deviceName d \<longleftrightarrow> cleanName (devName d) = deviceName \<or> devName d = deviceName"

text \<open>The address: the first IPv4 address, otherwise the first address with its zone.\<close>

definition debugAddr :: "('v, 'r) hapEnv \<Rightarrow> string \<Rightarrow> device \<Rightarrow> string" where
  "debugAddr env iface d =
     (case find (\<lambda>a. To4 a \<noteq> None) (dnssdIPs d) of
        Some a \<Rightarrow> IP_String (formatIPv6 env) a @ '':'' @ show_nat (dnssdPort d)
      | None \<Rightarrow> ''['' @ IP_String (formatIPv6 env) (hd (dnssdIPs d)) @ ''%'' @ iface @ '']:'' @ show_nat (dnssdPort d))"

definition debugLookup :: "('v, 'r) hapEnv \<Rightarrow> pairLib \<Rightarrow> debugOutside \<Rightarrow> string \<Rightarrow> device result" where
  "debugLookup env lib out deviceName =
     (if \<not> list_ex (matches deviceName) (announced out) then Inl ''device not discovered in time''
      else case getDevice env deviceName of
        Some d \<Rightarrow> Inr d
      | None \<Rightarrow>
          (case find (matches deviceName) (allDevices lib) of
             Some d \<Rightarrow> Inr d
           | None \<Rightarrow> Inl ''device not found after discovery''))"

definition debugVerify :: "('v, 'r) hapEnv \<Rightarrow> debugOutside \<Rightarrow> device \<Rightarrow> debugOutcome \<times> debugAction list" where
  "debugVerify env out d =
     (case bindR (wrapR ''read keypair: '' (keypairFile env)) (\<lambda>data. wrapR ''parse keypair: '' (parseKeypair env data)) of
        Inl e \<Rightarrow> (Fatal e, [])
      | Inr (pub, priv) \<Rightarrow>
          if capOf out pub < 8 \<or> capOf out (accessoryKey d) < 8 then (Panicked, [])
          else if dnssdIPs d = [] then (Fatal ''no IPs for device'', [])
          else (case pairVerify env (debugAddr env (ifaceName out d) d)
                       \<lparr>controllerID = ''homekit-rtsp-proxy'', controllerLTSK = priv, accessoryLTPK = accessoryKey d\<rparr> 1 of
                  Inl e \<Rightarrow> (Fatal (''custom pair-verify FAILED: '' @ e), [])
                | Inr v \<Rightarrow>
                    (case GetAccessories (json env) (trans env) v of
                       (Inl e, _) \<Rightarrow> (Fatal (''GetAccessories FAILED: '' @ e), [])
                     | (Inr accs, _) \<Rightarrow> (Printed accs, [CloseClient, StopDiscovery]))))"

definition debugPair :: "('v, 'r) hapEnv \<Rightarrow> pairLib \<Rightarrow> debugOutside \<Rightarrow> string list \<Rightarrow> debugOutcome \<times> debugAction list" where
  "debugPair env lib out args =
     (case args of
        deviceName # setupCode # _ \<Rightarrow>
          (case dbgController out of
             Inl e \<Rightarrow> (Fatal e, [])
           | Inr _ \<Rightarrow>
               (case debugLookup env lib out deviceName of
                  Inl e \<Rightarrow> (Fatal e, [StartDiscovery])
                | Inr d \<Rightarrow>
                    if isPaired d then (case debugVerify env out d of (r, as) \<Rightarrow> (r, StartDiscovery # as))
                    else (case pairSetup lib d setupCode of
                            Inl e \<Rightarrow> (Fatal (''pair-setup: '' @ e), [StartDiscovery])
                          | Inr d' \<Rightarrow> (case debugVerify env out d' of (r, as) \<Rightarrow> (r, [StartDiscovery, CloseDevice (devName d)] @ as)))))
      | _ \<Rightarrow> (UsageError, []))"

text \<open>
  A database the command prints comes from the device that was asked for, over a connection verified with the controller's
  own identity, the one the proxy uses; connection and discovery are ended. And with an IPv4 address the command
  dials what the proxy would dial.
\<close>

lemma debug_prints_verified:
  assumes "debugPair env lib out args = (Printed accs, as)"
  shows "\<exists>n code rest d0 d pub priv v. args = n # code # rest \<and> debugLookup env lib out n = Inr d0
    \<and> (if isPaired d0 then d = d0 else pairSetup lib d0 code = Inr d)
    \<and> readControllerKeys env = Inr (''homekit-rtsp-proxy'', priv, pub)
    \<and> pairVerify env (debugAddr env (ifaceName out d) d)
         \<lparr>controllerID = ''homekit-rtsp-proxy'', controllerLTSK = priv, accessoryLTPK = accessoryKey d\<rparr> 1 = Inr v
    \<and> fst (GetAccessories (json env) (trans env) v) = Inr accs
    \<and> count_list as StartDiscovery = 1 \<and> count_list as StopDiscovery = 1 \<and> count_list as CloseClient = 1"
proof -
  have verify: "\<exists>pub priv v. readControllerKeys env = Inr (''homekit-rtsp-proxy'', priv, pub)
      \<and> pairVerify env (debugAddr env (ifaceName out d) d)
           \<lparr>controllerID = ''homekit-rtsp-proxy'', controllerLTSK = priv, accessoryLTPK = accessoryKey d\<rparr> 1 = Inr v
      \<and> fst (GetAccessories (json env) (trans env) v) = Inr accs \<and> bs = [CloseClient, StopDiscovery]"
    if "debugVerify env out d = (Printed accs, bs)" for d bs
    using that by (auto simp: debugVerify_def readControllerKeys_def split: sum.splits prod.splits if_splits)
  obtain n code rest d0 where a: "args = n # code # rest" "debugLookup env lib out n = Inr d0"
    using assms by (auto simp: debugPair_def split: list.splits sum.splits)
  obtain d bs where d: "if isPaired d0 then d = d0 else pairSetup lib d0 code = Inr d" "debugVerify env out d = (Printed accs, bs)"
    and as: "as = StartDiscovery # (if isPaired d0 then [] else [CloseDevice (devName d0)]) @ bs"
    using assms a by (auto simp: debugPair_def split: if_splits sum.splits prod.splits)
  have bs: "bs = [CloseClient, StopDiscovery]" using verify [OF d(2)] by blast
  have "count_list as StartDiscovery = 1 \<and> count_list as StopDiscovery = 1 \<and> count_list as CloseClient = 1" by (simp add: as bs)
  then show ?thesis using verify [OF d(2)] a d(1) by blast
qed

lemma IP_String_To4: "To4 a = Some a4 \<Longrightarrow> IP_String f a4 = IP_String f a"
proof -
  assume a: "To4 a = Some a4"
  then have l: "length a = 4 \<or> length a = 16" "length a4 = 4" by (auto simp: To4_def split: if_splits)
  then have "To4 a4 = Some a4" "a4 \<noteq> []" "a \<noteq> []" by (auto simp: To4_def)
  with a l show ?thesis by (auto simp: IP_String_def)
qed

lemma debugAddr_agrees:
  assumes "firstIPv4 (dnssdIPs d) = Some a"
  shows "debugAddr env iface d = addrString env (a, dnssdPort d)"
proof -
  have "\<exists>b. find (\<lambda>a. To4 a \<noteq> None) as = Some b \<and> To4 b = Some a" if "firstIPv4 as = Some a" for as
    using that by (induction as) (auto split: option.splits)
  from this [OF assms] obtain b where "find (\<lambda>a. To4 a \<noteq> None) (dnssdIPs d) = Some b" "To4 b = Some a" by blast
  then show ?thesis by (simp add: debugAddr_def addrString_def IP_String_To4)
qed

end
