(* ===== verification/Packet_Pool.thy ===== *)
theory Packet_Pool
  imports Srtp_Proxy
begin

text \<open>
  The packet pool of \<^verbatim>\<open>internal/stream/proxy.go\<close>. All read loops of all cameras share one pool of packet objects; a loop decrypts into an
  object it gets there, keeps it in its frame buffer, passes it to callbacks by reference and puts it back. The other theories treat packets as
  values; this one models the objects and shows that this is right: what a callback sees is what was decrypted, whatever the other loops do.

  A cell is a packet object together with the buffer behind its payload. \<open>held\<close> are the frame buffers of the loops, \<open>cached\<close> the copies that the RTSP
  servers keep; both record, beside the reference, the packet that was put there.
\<close>

record poolSys =
  cell :: "nat \<Rightarrow> packet"
  free :: "nat list"
  nextCell :: nat
  held :: "nat \<Rightarrow> (nat \<times> packet) list"
  cached :: "(nat \<times> packet) list"

definition zeroPacket :: packet where
  "zeroPacket = \<lparr>marker = False, payloadType = 0, seqNum = 0, timestamp = 0, ssrc = 0, payload = []\<rparr>"

section \<open>The operations\<close>

text \<open>\<^verbatim>\<open>sync.Pool.Get\<close> returns any object that was put back, or a new one.\<close>

definition canGet :: "nat \<Rightarrow> poolSys \<Rightarrow> bool" where
  "canGet a s \<longleftrightarrow> a \<in> set (free s) \<or> a = nextCell s"

definition poolGet :: "nat \<Rightarrow> poolSys \<Rightarrow> poolSys" where
  "poolGet a s = (if a \<in> set (free s) then s\<lparr>free := remove1 a (free s)\<rparr> else s\<lparr>nextCell := nextCell s + 1\<rparr>)"

definition decryptInto :: "nat \<Rightarrow> packet \<Rightarrow> poolSys \<Rightarrow> poolSys" where
  "decryptInto a pkt s = s\<lparr>cell := (cell s)(a := pkt)\<rparr>"

definition releaseCell :: "nat \<Rightarrow> poolSys \<Rightarrow> poolSys" where
  "releaseCell a s = s\<lparr>cell := (cell s)(a := zeroPacket), free := a # free s\<rparr>"

definition clone :: "nat \<Rightarrow> poolSys \<Rightarrow> poolSys" where
  "clone a s = s\<lparr>cell := (cell s)(nextCell s := clonePacket (cell s a)), nextCell := nextCell s + 1,
     cached := cached s @ [(nextCell s, cell s a)]\<rparr>"

text \<open>
  The callbacks of a frame: each is given a reference, sees the packet behind it, may change it in place (\<open>cb\<close>: the server rewrites the header)
  and may keep a copy of it (\<open>keep\<close>).
\<close>

fun deliver :: "(packet \<Rightarrow> packet) \<Rightarrow> (packet \<Rightarrow> bool) \<Rightarrow> nat list \<Rightarrow> poolSys \<Rightarrow> packet list \<times> poolSys" where
  "deliver cb keep [] s = ([], s)"
| "deliver cb keep (a # as) s =
     (let pkt = cell s a; s1 = s\<lparr>cell := (cell s)(a := cb pkt)\<rparr>; s2 = (if keep pkt then clone a s1 else s1);
          (out, s3) = deliver cb keep as s2
      in (pkt # out, s3))"

definition releaseFrame :: "nat \<Rightarrow> poolSys \<Rightarrow> poolSys" where
  "releaseFrame i s = (fold releaseCell (map fst (held s i)) s)\<lparr>held := (held s)(i := [])\<rparr>"

text \<open>
  A loop receives a packet; or decryption or parsing fails, after anything was written; the packet just received goes into the frame
  buffer; and a frame is delivered and released, or dropped. A video loop has two places for packets, the current one
  and its frame buffer; an audio loop has one and delivers at once.
\<close>

inductive poolStep :: "poolSys \<Rightarrow> poolSys \<Rightarrow> bool" where
  Receive: "canGet a s \<Longrightarrow> s1 = decryptInto a pkt (poolGet a s) \<Longrightarrow> poolStep s (s1\<lparr>held := (held s1)(i := held s1 i @ [(a, pkt)])\<rparr>)"
| Unusable: "canGet a s \<Longrightarrow> poolStep s (releaseCell a (decryptInto a junk (poolGet a s)))"
| Append: "held s c = [x] \<Longrightarrow> c \<noteq> i \<Longrightarrow> poolStep s (s\<lparr>held := (held s)(c := [], i := held s i @ [x])\<rparr>)"
| Deliver: "deliver cb keep (map fst (held s i)) s = (out, s1) \<Longrightarrow> poolStep s (releaseFrame i s1)"
| Drop: "poolStep s (releaseFrame i s)"

definition poolInit :: "poolSys \<Rightarrow> bool" where
  "poolInit s \<longleftrightarrow> free s = [] \<and> nextCell s = 0 \<and> held s = (\<lambda>_. []) \<and> cached s = []"

section \<open>Ownership\<close>

text \<open>Every cell in use belongs to exactly one frame buffer, to the pool or to a cache, and holds what its owner put there.\<close>

definition refs :: "poolSys \<Rightarrow> nat \<Rightarrow> nat set" where
  "refs s i = fst ` set (held s i)"

definition keptRefs :: "poolSys \<Rightarrow> nat set" where
  "keptRefs s = fst ` set (cached s)"

definition structInv :: "poolSys \<Rightarrow> bool" where
  "structInv s \<longleftrightarrow> distinct (free s) \<and> (\<forall>a\<in>set (free s). a < nextCell s) \<and> (\<forall>a\<in>keptRefs s. a < nextCell s) \<and> set (free s) \<inter> keptRefs s = {}
     \<and> (\<forall>i. distinct (map fst (held s i)) \<and> (\<forall>a\<in>refs s i. a < nextCell s) \<and> refs s i \<inter> set (free s) = {} \<and> refs s i \<inter> keptRefs s = {})
     \<and> (\<forall>i j. i \<noteq> j \<longrightarrow> refs s i \<inter> refs s j = {})"

definition heldOk :: "poolSys \<Rightarrow> nat \<Rightarrow> bool" where
  "heldOk s i \<longleftrightarrow> (\<forall>x\<in>set (held s i). cell s (fst x) = snd x)"

definition cachedOk :: "poolSys \<Rightarrow> bool" where
  "cachedOk s \<longleftrightarrow> (\<forall>x\<in>set (cached s). cell s (fst x) = snd x)"

lemma heldOk_cong: "held t j = held s j \<Longrightarrow> (\<And>a. a \<in> refs s j \<Longrightarrow> cell t a = cell s a) \<Longrightarrow> heldOk t j = heldOk s j"
  by (simp add: heldOk_def refs_def)

lemma cachedOk_cong: "cached t = cached s \<Longrightarrow> (\<And>a. a \<in> keptRefs s \<Longrightarrow> cell t a = cell s a) \<Longrightarrow> cachedOk t = cachedOk s"
  by (simp add: cachedOk_def keptRefs_def)

definition poolInv :: "poolSys \<Rightarrow> bool" where
  "poolInv s \<longleftrightarrow> structInv s \<and> (\<forall>i. heldOk s i) \<and> cachedOk s"

text \<open>While loop \<open>i\<close> delivers its frame, the packets of the frame may be changed, and no others.\<close>

definition othersOk :: "nat \<Rightarrow> poolSys \<Rightarrow> bool" where
  "othersOk i s \<longleftrightarrow> structInv s \<and> (\<forall>j. j \<noteq> i \<longrightarrow> heldOk s j) \<and> cachedOk s"

lemma structD:
  assumes "structInv s"
  shows "i \<noteq> j \<Longrightarrow> a \<in> refs s i \<Longrightarrow> a \<notin> refs s j" "a \<in> refs s i \<Longrightarrow> a \<notin> keptRefs s" "a \<in> refs s i \<Longrightarrow> a \<notin> set (free s)"
    "a \<in> set (free s) \<Longrightarrow> a \<notin> keptRefs s" "a \<in> refs s i \<Longrightarrow> a < nextCell s" "a \<in> set (free s) \<Longrightarrow> a < nextCell s" "a \<in> keptRefs s \<Longrightarrow> a < nextCell s"
  using assms unfolding structInv_def by (meson disjoint_iff)+

lemma cell_change:
  assumes "othersOk i s" "a \<in> refs s i"
  shows "othersOk i (s\<lparr>cell := (cell s)(a := p)\<rparr>)"
proof -
  let ?t = "s\<lparr>cell := (cell s)(a := p)\<rparr>"
  have s: "structInv s" using assms(1) by (simp add: othersOk_def)
  have "structInv ?t" using s by (simp add: structInv_def refs_def keptRefs_def)
  moreover have "heldOk ?t j = heldOk s j" if "j \<noteq> i" for j
    by (rule heldOk_cong) (use structD(1) [OF s _ assms(2)] that in auto)
  moreover have "cachedOk ?t = cachedOk s" by (rule cachedOk_cong) (use structD(2) [OF s assms(2)] in auto)
  ultimately show ?thesis using assms(1) by (simp add: othersOk_def)
qed

lemma clone_ok:
  assumes "othersOk i s"
  shows "othersOk i (clone a s)"
proof -
  let ?n = "nextCell s" and ?t = "clone a s"
  have s: "structInv s" using assms by (simp add: othersOk_def)
  have n: "?n \<notin> keptRefs s" "?n \<notin> set (free s)" "?n \<notin> refs s j" for j using structD(5-7) [OF s] by blast+
  have r: "refs ?t j = refs s j" "keptRefs ?t = insert ?n (keptRefs s)" for j by (auto simp: clone_def refs_def keptRefs_def)
  have "structInv ?t"
    using s n unfolding structInv_def r by (auto simp: clone_def less_Suc_eq)
  moreover have "heldOk ?t j = heldOk s j" for j by (rule heldOk_cong) (use n(3) [of j] in \<open>auto simp: clone_def\<close>)
  moreover have "cachedOk ?t"
  proof -
    have "\<forall>x\<in>set (cached s). fst x \<noteq> ?n" using n(1) unfolding keptRefs_def by (metis image_eqI)
    then show ?thesis using assms by (simp add: othersOk_def cachedOk_def clone_def clonePacket_def)
  qed
  ultimately show ?thesis using assms by (simp add: othersOk_def)
qed

lemma deliver_ok:
  assumes "deliver cb keep as s = (out, s')" "othersOk i s" "set as \<subseteq> refs s i" "distinct as"
  shows "othersOk i s' \<and> held s' = held s \<and> out = map (cell s) as"
  using assms
proof (induction cb keep as s arbitrary: out s' rule: deliver.induct)
  case (2 cb keep a as s)
  let ?s1 = "s\<lparr>cell := (cell s)(a := cb (cell s a))\<rparr>"
  let ?s2 = "if keep (cell s a) then clone a ?s1 else ?s1"
  obtain out1 s3 where d: "deliver cb keep as ?s2 = (out1, s3)" by fastforce
  have o: "out = cell s a # out1" "s' = s3" using "2.prems"(1) d by (simp_all add: Let_def split: prod.splits)
  have k: "othersOk i ?s2" using cell_change [OF "2.prems"(2), of a] clone_ok "2.prems"(3) by simp
  have h: "held ?s2 = held s" by (simp add: clone_def)
  have same: "cell ?s2 b = cell s b" if "b \<in> set as" for b
  proof -
    have "b \<in> refs s i" using that "2.prems"(3) by auto
    then have "b < nextCell s" using "2.prems"(2) by (simp add: othersOk_def structInv_def)
    then show ?thesis using that "2.prems"(4) by (auto simp: clone_def)
  qed
  have "set as \<subseteq> refs ?s2 i" using "2.prems"(3) h by (simp add: refs_def)
  with "2.IH" [OF refl refl refl d k] "2.prems"(4) have "othersOk i s3 \<and> held s3 = held ?s2 \<and> out1 = map (cell ?s2) as" by simp
  then show ?case using o h same by simp
qed auto

lemma fold_release:
  "fold releaseCell as s = s\<lparr>cell := \<lambda>a. if a \<in> set as then zeroPacket else cell s a, free := rev as @ free s\<rparr>"
proof (induction as arbitrary: s)
  case (Cons b as)
  have e: "(\<lambda>a. if a \<in> set as then zeroPacket else cell (releaseCell b s) a) = (\<lambda>a. if a \<in> set (b # as) then zeroPacket else cell s a)"
    by (auto simp: releaseCell_def)
  show ?case unfolding fold.simps comp_def Cons.IH e by (simp add: releaseCell_def)
qed simp

lemma releaseFrame_inv:
  assumes "othersOk i s"
  shows "poolInv (releaseFrame i s)"
proof -
  let ?t = "releaseFrame i s"
  have s: "structInv s" using assms by (simp add: othersOk_def)
  have r: "refs ?t j = (if j = i then {} else refs s j)" for j by (auto simp: releaseFrame_def fold_release refs_def)
  have f: "set (free ?t) = refs s i \<union> set (free s)" by (simp add: releaseFrame_def fold_release refs_def)
  have n: "nextCell ?t = nextCell s" "keptRefs ?t = keptRefs s" by (simp_all add: releaseFrame_def fold_release keptRefs_def)
  have c: "cell ?t a = (if a \<in> refs s i then zeroPacket else cell s a)" for a by (simp add: releaseFrame_def fold_release refs_def)
  have h: "held ?t j = (if j = i then [] else held s j)" "cached ?t = cached s" for j by (simp_all add: releaseFrame_def fold_release)
  have "distinct (map fst (held s i))" "distinct (free s)" "refs s i \<inter> set (free s) = {}" using s unfolding structInv_def by blast+
  then have d: "distinct (free ?t)" by (simp add: releaseFrame_def fold_release refs_def)
  have dj: "distinct (map fst (held ?t j))" for j using s by (simp add: h structInv_def)
  have "structInv ?t"
    unfolding structInv_def n f r using d dj structD [OF s] by auto
  moreover have "heldOk ?t j" for j
  proof (cases "j = i")
    case False
    then have "heldOk ?t j = heldOk s j" by (intro heldOk_cong) (auto simp: h c dest: structD(1) [OF s])
    then show ?thesis using assms False by (simp add: othersOk_def)
  qed (simp add: heldOk_def h)
  moreover have "cachedOk ?t = cachedOk s" by (rule cachedOk_cong) (auto simp: h c dest: structD(2) [OF s])
  ultimately show ?thesis using assms by (simp add: poolInv_def othersOk_def)
qed

lemma poolInv_others: "poolInv s \<Longrightarrow> othersOk i s"
  by (simp add: poolInv_def othersOk_def)

lemma poolGet_struct:
  assumes "structInv s" "canGet a s"
  shows "structInv (poolGet a s)" "a < nextCell (poolGet a s)" "a \<notin> set (free (poolGet a s))" "a \<notin> refs s i" "a \<notin> keptRefs s"
    "held (poolGet a s) = held s" "cell (poolGet a s) = cell s" "cached (poolGet a s) = cached s"
proof -
  have d: "distinct (free s)" using assms(1) by (simp add: structInv_def)
  show "a < nextCell (poolGet a s)" using assms(2) structD(6) [OF assms(1), of a] by (auto simp: canGet_def poolGet_def)
  show "a \<notin> set (free (poolGet a s))" using d by (simp add: poolGet_def)
  show "a \<notin> refs s i" using assms(2) structD(3,5) [OF assms(1), of a i] by (auto simp: canGet_def)
  show "a \<notin> keptRefs s" using assms(2) structD(4,7) [OF assms(1), of a] by (auto simp: canGet_def)
  show "held (poolGet a s) = held s" "cell (poolGet a s) = cell s" "cached (poolGet a s) = cached s" by (simp_all add: poolGet_def)
  have r: "refs (poolGet a s) j = refs s j" "keptRefs (poolGet a s) = keptRefs s" for j by (simp_all add: poolGet_def refs_def keptRefs_def)
  have n: "nextCell s \<le> nextCell (poolGet a s)" "set (free (poolGet a s)) \<subseteq> set (free s)" "distinct (free (poolGet a s))"
    using d set_remove1_subset [of a "free s"] by (simp_all add: poolGet_def)
  have dj: "distinct (map fst (held (poolGet a s) j))" for j using assms(1) by (simp add: structInv_def poolGet_def)
  show "structInv (poolGet a s)"
    unfolding structInv_def r using n dj structD(1-4) [OF assms(1)] structD(5-7) [OF assms(1), THEN less_le_trans, OF _ n(1)] by auto
qed

lemma receive_inv:
  assumes "poolInv s" "canGet a s" "s1 = decryptInto a pkt (poolGet a s)"
  shows "poolInv (s1\<lparr>held := (held s1)(i := held s1 i @ [(a, pkt)])\<rparr>)"
proof -
  let ?t = "s1\<lparr>held := (held s1)(i := held s1 i @ [(a, pkt)])\<rparr>"
  have s: "structInv s" using assms(1) by (simp add: poolInv_def)
  note g = poolGet_struct [OF s assms(2)]
  have r: "refs ?t j = (if j = i then insert a (refs s j) else refs s j)" "keptRefs ?t = keptRefs s" for j
    by (auto simp: assms(3) decryptInto_def refs_def keptRefs_def g)
  have h: "held ?t j = (if j = i then held s j @ [(a, pkt)] else held s j)" for j by (simp add: assms(3) decryptInto_def g)
  have n: "nextCell ?t = nextCell (poolGet a s)" "free ?t = free (poolGet a s)" by (simp_all add: assms(3) decryptInto_def)
  have gr: "refs (poolGet a s) j = refs s j" "keptRefs (poolGet a s) = keptRefs s" for j by (simp_all add: refs_def keptRefs_def g)
  have dj: "distinct (map fst (held ?t j))" for j using s g(4) [of j] unfolding h by (cases "j = i") (simp_all add: structInv_def refs_def)
  have "structInv ?t"
    unfolding structInv_def n r using dj g(1-5) structD [OF g(1), unfolded gr] by (auto simp: structInv_def)
  moreover have "heldOk ?t j" for j
  proof -
    have "\<forall>x\<in>set (held s j). fst x \<noteq> a" using g(4) [of j] unfolding refs_def by (metis image_eqI)
    then show ?thesis using assms(1) by (auto simp: poolInv_def heldOk_def h assms(3) decryptInto_def g)
  qed
  moreover have "cachedOk ?t = cachedOk s" by (rule cachedOk_cong) (use g(5) in \<open>auto simp: assms(3) decryptInto_def g\<close>)
  ultimately show ?thesis using assms(1) by (simp add: poolInv_def)
qed

lemma append_inv:
  assumes "poolInv s" "held s c = [x]" "c \<noteq> i"
  shows "poolInv (s\<lparr>held := (held s)(c := [], i := held s i @ [x])\<rparr>)"
proof -
  let ?t = "s\<lparr>held := (held s)(c := [], i := held s i @ [x])\<rparr>"
  have s: "structInv s" using assms(1) by (simp add: poolInv_def)
  have x: "fst x \<in> refs s c" "refs s c = {fst x}" using assms(2) by (simp_all add: refs_def)
  have r: "refs ?t j = (if j = i then insert (fst x) (refs s i) else if j = c then {} else refs s j)" "keptRefs ?t = keptRefs s" for j
    using assms(3) by (auto simp: refs_def keptRefs_def)
  have n: "fst x \<notin> refs s j" if "j \<noteq> c" for j using structD(1) [OF s _ x(1)] that by metis
  have "distinct (map fst (held ?t j))" for j
    using s n [of i] assms(3) by (auto simp: structInv_def refs_def)
  moreover have "(\<forall>a\<in>refs ?t j. a < nextCell s) \<and> refs ?t j \<inter> set (free s) = {} \<and> refs ?t j \<inter> keptRefs s = {}" for j
    unfolding r(1) using structD(2,3,5) [OF s] x(1) by (cases "j = i"; cases "j = c") auto
  moreover have "refs ?t j \<inter> refs ?t k = {}" if "j \<noteq> k" for j k
  proof -
    have o: "refs s j \<inter> refs s k = {}" "k \<noteq> c \<Longrightarrow> fst x \<notin> refs s k" "j \<noteq> c \<Longrightarrow> fst x \<notin> refs s j"
      using structD(1) [OF s that] n by blast+
    show ?thesis unfolding r(1) using o that by auto
  qed
  moreover have "distinct (free s)" "\<forall>a\<in>set (free s). a < nextCell s" "\<forall>a\<in>keptRefs s. a < nextCell s" "set (free s) \<inter> keptRefs s = {}"
    using s by (simp_all add: structInv_def)
  ultimately have "structInv ?t" unfolding structInv_def r(2) by simp
  moreover have "heldOk ?t j" for j
  proof -
    have "cell s (fst x) = snd x" "heldOk s j" using assms(1,2) by (auto simp: poolInv_def heldOk_def dest: spec [of _ c])
    then show ?thesis using assms(3) by (auto simp: heldOk_def)
  qed
  moreover have "cachedOk ?t" using assms(1) by (simp add: poolInv_def cachedOk_def)
  ultimately show ?thesis by (simp add: poolInv_def)
qed

lemma unusable_inv:
  assumes "poolInv s" "canGet a s"
  shows "poolInv (releaseCell a (decryptInto a junk (poolGet a s)))"
proof -
  let ?t = "releaseCell a (decryptInto a junk (poolGet a s))"
  have s: "structInv s" using assms(1) by (simp add: poolInv_def)
  note g = poolGet_struct [OF s assms(2)]
  have gr: "refs (poolGet a s) j = refs s j" "keptRefs (poolGet a s) = keptRefs s" for j by (simp_all add: refs_def keptRefs_def g)
  have r: "refs ?t j = refs s j" "keptRefs ?t = keptRefs s" for j by (simp_all add: releaseCell_def decryptInto_def refs_def keptRefs_def g)
  have f: "free ?t = a # free (poolGet a s)" "nextCell ?t = nextCell (poolGet a s)" "held ?t = held s" "cached ?t = cached s"
    by (simp_all add: releaseCell_def decryptInto_def g)
  have c: "cell ?t = (cell s)(a := zeroPacket)" by (simp add: releaseCell_def decryptInto_def g)
  have "distinct (free (poolGet a s))" "distinct (map fst (held s j))" for j using g(1) s by (simp_all add: structInv_def)
  then have "structInv ?t"
    unfolding structInv_def f r using g(2,3,5) g(4) structD [OF g(1), unfolded gr] by auto
  moreover have "heldOk ?t j = heldOk s j" for j by (rule heldOk_cong) (use g(4) [of j] in \<open>auto simp: f c\<close>)
  moreover have "cachedOk ?t = cachedOk s" by (rule cachedOk_cong) (use g(5) in \<open>auto simp: f c\<close>)
  ultimately show ?thesis using assms(1) by (simp add: poolInv_def)
qed

lemma deliver_inv:
  assumes "poolInv s" "deliver cb keep (map fst (held s i)) s = (out, s1)"
  shows "poolInv (releaseFrame i s1)" "out = map snd (held s i)"
proof -
  have d: "distinct (map fst (held s i))" and h: "heldOk s i" using assms(1) by (simp_all add: poolInv_def structInv_def)
  have k: "othersOk i s1" "out = map (cell s) (map fst (held s i))"
    using deliver_ok [OF assms(2) poolInv_others [OF assms(1), of i] _ d] by (simp_all add: refs_def)
  show "poolInv (releaseFrame i s1)" by (rule releaseFrame_inv [OF k(1)])
  show "out = map snd (held s i)" using k(2) h by (simp add: heldOk_def)
qed

interpretation packets: transition_system poolInit poolStep poolInv
proof
  show "poolInv s" if "poolInit s" for s
    using that by (simp add: poolInit_def poolInv_def structInv_def heldOk_def cachedOk_def refs_def keptRefs_def)
next
  fix s t assume "poolInv s" "poolStep s t"
  from this(2,1) show "poolInv t"
  proof (induction rule: poolStep.induct)
    case (Receive a s s1 pkt i)
    show ?case by (rule receive_inv [OF Receive.prems Receive.hyps])
  next
    case (Unusable a s junk)
    then show ?case by (intro unusable_inv)
  next
    case (Append s c x i)
    then show ?case by (intro append_inv)
  next
    case (Deliver cb keep s i out s1)
    then show ?case by (intro deliver_inv)
  next
    case (Drop s i)
    then show ?case by (intro releaseFrame_inv poolInv_others)
  qed
qed

section \<open>Packets are values\<close>


text \<open>
  The value-level loop is simulated by the steps above: when the objects in the frame buffer hold the packets of \<open>frameBuf\<close>, one iteration on a received
  packet leads to a state where they do again; other loops' frames are not touched.
\<close>

lemma clear_frame: "poolStep\<^sup>*\<^sup>* s (releaseFrame i s)" "held (releaseFrame i s) = (held s)(i := [])"
proof -
  show "poolStep\<^sup>*\<^sup>* s (releaseFrame i s)" using poolStep.Drop by (rule r_into_rtranclp)
  show "held (releaseFrame i s) = (held s)(i := [])" by (simp add: releaseFrame_def)
qed

lemma flush_buf: "frameBuf (fst (flushFrame p l)) = []"
  by (simp add: flushFrame_def)

lemma videoPacket_simulated:
  assumes "map snd (held s i) = frameBuf l" "held s c = []" "c \<noteq> i" "videoPacket now now2 pkt (p, l) = ((p', l'), acts)"
  shows "\<exists>s'. poolStep\<^sup>*\<^sup>* s s' \<and> map snd (held s' i) = frameBuf l' \<and> (\<forall>j. j \<noteq> i \<longrightarrow> held s' j = held s j)"
proof -
  obtain p1 l1 where 1: "trackSequence pkt (p\<lparr>lastVideoNanos := now\<rparr>, l\<lparr>videoCount := videoCount l + 1\<rparr>) = (p1, l1)" by fastforce
  obtain l2 a2 where 2: "frameBoundary pkt p1 l1 = (l2, a2)" by fastforce
  obtain l3 a3 where 3: "emitStats now2 p1 (bufferPacket pkt l2) = (l3, a3)" by fastforce
  have l4: "frameEnd pkt p1 l3 = (l', drop (Suc (length a2 + length a3)) acts)" using assms(4) by (auto simp: videoPacket_def 1 2 3 split: prod.splits)
  have b1: "frameBuf l1 = frameBuf l" using 1 by (auto simp: trackSequence_def Let_def split: if_splits)
  have b2: "frameBuf l2 = frameBuf l1 \<or> frameBuf l2 = []"
    using 2 flush_buf [of p1 l1] by (auto simp: frameBoundary_def Let_def split: if_splits prod.splits)
  have b3: "frameBuf l3 = frameBuf l2 @ [pkt] \<or> frameBuf l3 = [pkt]"
    using 3 by (auto simp: emitStats_def bufferPacket_def Let_def split: if_splits)
  have b4: "frameBuf l' = frameBuf l3 \<or> frameBuf l' = []"
    using l4 flush_buf [of p1 l3] by (auto simp: frameEnd_def Let_def split: if_splits prod.splits)
  let ?a = "nextCell s"
  define s1 where "s1 = (let t = decryptInto ?a pkt (poolGet ?a s) in t\<lparr>held := (held t)(c := held t c @ [(?a, pkt)])\<rparr>)"
  have r1: "poolStep s s1" unfolding s1_def Let_def by (rule poolStep.Receive) (simp_all add: canGet_def)
  have h1: "held s1 = (held s)(c := [(?a, pkt)])" using assms(2) by (simp add: s1_def Let_def decryptInto_def poolGet_def)
  define s2 where "s2 = (if frameBuf l3 = frameBuf l @ [pkt] then s1 else releaseFrame i s1)"
  have r2: "poolStep\<^sup>*\<^sup>* s1 s2" using clear_frame by (simp add: s2_def)
  have h2: "held s2 c = [(?a, pkt)]" "map snd (held s2 i) @ [pkt] = frameBuf l3" "\<forall>j. j \<noteq> i \<longrightarrow> j \<noteq> c \<longrightarrow> held s2 j = held s j"
    using b1 b2 b3 assms(1,3) by (auto simp: s2_def h1 clear_frame)
  define s3 where "s3 = s2\<lparr>held := (held s2)(c := [], i := held s2 i @ [(?a, pkt)])\<rparr>"
  have r3: "poolStep s2 s3" unfolding s3_def by (rule poolStep.Append [OF h2(1) assms(3)])
  define s4 where "s4 = (if frameBuf l' = frameBuf l3 then s3 else releaseFrame i s3)"
  have r4: "poolStep\<^sup>*\<^sup>* s3 s4" using clear_frame by (simp add: s4_def)
  have h3: "map snd (held s3 i) = frameBuf l3" "\<forall>j. j \<noteq> i \<longrightarrow> held s3 j = held s j" using h2 assms(2,3) by (auto simp: s3_def)
  then have "map snd (held s4 i) = frameBuf l'" "\<forall>j. j \<noteq> i \<longrightarrow> held s4 j = held s j" using b4 by (auto simp: s4_def clear_frame)
  moreover have "poolStep\<^sup>*\<^sup>* s s4" using r1 r2 r3 r4 by (meson converse_rtranclp_into_rtranclp rtranclp_trans)
  ultimately show ?thesis by blast
qed

text \<open>
  Two loops share the pool: loop 0 receives two packets of a frame into new objects, loop 1 receives and delivers one, and loop 0 receives
  a third into the object that loop 1 has put back.
\<close>

definition somePacket :: "u16 \<Rightarrow> packet" where
  "somePacket n = zeroPacket\<lparr>seqNum := n, payload := [ucast n]\<rparr>"

definition emptyPool :: poolSys where
  "emptyPool = \<lparr>cell = \<lambda>_. zeroPacket, free = [], nextCell = 0, held = \<lambda>_. [], cached = []\<rparr>"

definition sharedPool :: poolSys where
  "sharedPool =
     (let recv = \<lambda>i a p s. (let s1 = decryptInto a p (poolGet a s) in s1\<lparr>held := (held s1)(i := held s1 i @ [(a, p)])\<rparr>);
          s3 = recv 1 2 (somePacket 7) (recv 0 1 (somePacket 2) (recv 0 0 (somePacket 1) emptyPool))
      in recv 0 2 (somePacket 3) (releaseFrame 1 (snd (deliver id (\<lambda>_. True) [2] s3))))"

lemma sharedPool_reachable: "reachable poolInit poolStep sharedPool"
proof -
  define recv :: "nat \<Rightarrow> nat \<Rightarrow> packet \<Rightarrow> poolSys \<Rightarrow> poolSys" where
    "recv = (\<lambda>i a p s. (let s1 = decryptInto a p (poolGet a s) in s1\<lparr>held := (held s1)(i := held s1 i @ [(a, p)])\<rparr>))"
  have step: "reachable poolInit poolStep s \<Longrightarrow> canGet a s \<Longrightarrow> reachable poolInit poolStep (recv i a p s)" for i a p s
    by (auto simp: recv_def Let_def intro: reachable_step poolStep.Receive)
  define s3 where "s3 = recv 1 2 (somePacket 7) (recv 0 1 (somePacket 2) (recv 0 0 (somePacket 1) emptyPool))"
  define s4 where "s4 = releaseFrame 1 (snd (deliver id (\<lambda>_. True) [2] s3))"
  note d = recv_def poolGet_def decryptInto_def emptyPool_def canGet_def Let_def
  have "reachable poolInit poolStep emptyPool" by (rule reachable_init) (simp add: poolInit_def emptyPool_def)
  then have "reachable poolInit poolStep s3" unfolding s3_def by (intro step) (simp_all add: d)
  moreover have h: "map fst (held s3 1) = [2]" by (simp add: s3_def d)
  then have "poolStep s3 s4" unfolding s4_def by (intro poolStep.Deliver [of id "\<lambda>_. True" _ _ "fst (deliver id (\<lambda>_. True) [2] s3)"]) simp
  ultimately have "reachable poolInit poolStep s4" by (rule reachable_step)
  moreover have "canGet 2 s4" by (simp add: s4_def s3_def d releaseFrame_def releaseCell_def clone_def)
  ultimately have "reachable poolInit poolStep (recv 0 2 (somePacket 3) s4)" by (rule step)
  then show ?thesis by (simp add: sharedPool_def s4_def s3_def recv_def Let_def)
qed


end
