(* ===== verification/Spec2Isabelle.thy ===== *)
theory Spec2Isabelle
  imports Main_Start Snap_Memory Diagnostics Packet_Pool
begin

text \<open>
  HomeKit cameras served over RTSP: a verification library of the proxy \<^verbatim>\<open>homekit-rtsp-proxy\<close>.

  \<^bold>\<open>The program.\<close> The proxy pairs with HomeKit cameras as a HAP controller and offers each camera as an RTSP stream. A client that plays
  the stream starts the camera on demand: the session (\<^verbatim>\<open>stream/session.go\<close>) runs the start callback of \<^verbatim>\<open>main.go\<close>, which asks the
  camera for a stream over the encrypted HAP connection (\<^verbatim>\<open>hap/controller.go\<close>, \<^verbatim>\<open>hap/hap_client.go\<close>, \<^verbatim>\<open>hap/encrypted_conn.go\<close>), and
  starts the SRTP proxy (\<^verbatim>\<open>stream/proxy.go\<close>). The proxy decrypts the camera's packets, assembles them into frames, and hands whole
  frames to the RTSP server (\<^verbatim>\<open>stream/rtsp_server.go\<close>), which numbers them into one continuous stream, caches the last key picture for
  joining clients and transcodes the audio. Beside this path, a health reporter publishes two sensors per camera over MQTT, and an
  ONVIF server offers metadata, snapshots and motion events.

  \<^bold>\<open>Theories.\<close> Each theory models the source files named with it; a definition has the name of the Go function, method or type it models,
  and a function that is split (at a lock, or into the parts of a long body) has the name of the part appended.

  \<^item> \<open>Prelude\<close>: words and bytes, Go errors as their texts, results with and without state, binary encodings, strings, and the locale
    \<open>transition_system\<close>, the interface every concurrent component is proved against (initial states, steps, an invariant).
  \<^item> \<open>Tlv8\<close> (\<^verbatim>\<open>hap/tlv8.go\<close>), \<open>Camera\<close> (\<^verbatim>\<open>hap/camera.go\<close>), \<open>Net_IP\<close> (addresses of package net), \<open>Base64\<close>: the messages exchanged with the
    camera. Decoding inverts encoding, exactly when same-typed neighbours are separate; every field of a message is found at
    its path.
  \<^item> \<open>Encrypted_Conn\<close> (\<^verbatim>\<open>hap/encrypted_conn.go\<close>): frames and nonces; the connection refines a byte pipe, stated as a locale and
    interpreted on the two ends. \<open>Pair_Verify\<close> (\<^verbatim>\<open>hap/pair_verify.go\<close>): the handshake and its errors; a verified connection
    means a signature by the paired key.
  \<^item> \<open>Hap_Client\<close> (\<^verbatim>\<open>hap/hap_client.go\<close>): requests, and the reader goroutine with its channels; answers go to requests in order.
    \<open>Hap_Controller\<close>, \<open>Controller_Props\<close> (\<^verbatim>\<open>hap/controller.go\<close>): characteristics, pairing, reconnection, stream start and stop, motion; what a
    successful start agreed with the camera. \<open>Controller_Life\<close>: start and stop of the controller, the permissions of the key store, and
    which connections are closed. \<open>Pairing_Store\<close> (\<^verbatim>\<open>hap/pairing_store.go\<close>).
  \<^item> \<open>Session\<close> (\<^verbatim>\<open>stream/session.go\<close>): each method's critical sections and their interleaving with callbacks, timers and waiting
    clients; at most one callback runs, no waiting client is forgotten, the stream runs on demand.
  \<^item> \<open>Rtp\<close>, \<open>Srtp_Proxy\<close>, \<open>Frame_Assembly\<close>, \<open>Proxy_Run\<close> (\<^verbatim>\<open>stream/proxy.go\<close>): the four loops, one function per iteration, whose effects
    on the outside are lists of actions; forwarded frames are whole, a clean link loses nothing, the counters count, the watchdog
    fires once, foreign datagrams are ignored. \<open>Packet_Pool\<close>: the packet objects the loops share and recycle; treating packets as values is right.
  \<^item> \<open>H264\<close>, \<open>Float64\<close>, \<open>Rtsp_Server\<close>, \<open>Rtsp_Props\<close> (\<^verbatim>\<open>stream/rtsp_server.go\<close>): numbering (the locale \<open>sequencer\<close>), the clock across restarts, the
    cached picture. \<open>Snapshots\<close>, \<open>Snap_Memory\<close> (\<^verbatim>\<open>stream/snapshotter.go\<close>): the snapshot is the last decodable picture; the C code in the preamble
    releases what it allocates. \<open>Transcoder\<close> (\<^verbatim>\<open>stream/audio_transcoder.go\<close>): codec handles, wrappers, ring, detection; handles are balanced.
    \<open>Audio_Path\<close>: server and transcoder together, the announced formats, the sample rates.
  \<^item> \<open>Health\<close>, \<open>Health_Props\<close>, \<open>Health_Run\<close> (\<^verbatim>\<open>health/health.go\<close>): both sensors refine their specifications over histories; the reporter as a process
    with its goroutine, connections, will and closing; what the broker retains is true. \<open>Quality_Signal\<close>: from the camera's packets to the
    frame-drop sensor.
  \<^item> \<open>Pullpoint\<close>, \<open>Onvif_Templates\<close>, \<open>Onvif_Server\<close>, \<open>Onvif_Props\<close> (\<^verbatim>\<open>onvif/\<close>): subscriptions under concurrent pushes and polls, the handlers and
    their responses; motions reach the subscriber.
  \<^item> \<open>App_Config\<close> (\<^verbatim>\<open>config/config.go\<close>): loading and defaults. \<open>Camera_Service\<close>, \<open>Service_Props\<close> (\<^verbatim>\<open>cmd/homekit-rtsp-proxy/main.go\<close>): the wiring
    of one camera; the session interleaved with its callbacks run on the services: sockets and loops follow the session's
    state, failures leave nothing behind, the proxy uses the agreed keys. \<open>Main_Start\<close>: the whole program from its flags to the point where it
    waits, its exit codes, and its shutdown.
  \<^item> \<open>Diagnostics\<close> (\<^verbatim>\<open>cmd/test-rtsp\<close>, \<^verbatim>\<open>cmd/debug-pair\<close>): the two commands for manual testing.
  \<^item> This theory composes the video path from the camera's datagrams to the clients.

  \<^bold>\<open>State and effects.\<close> A struct is a record, a method a function from the old to the new record with its result. Where goroutines
  share a struct, one step is one critical section, and the properties hold for every order of the steps. The callbacks of a
  session are one step each: the session's own property shows that no two of them overlap. Channels are their contents, timers and waiting
  goroutines fields of the system's state. Numbers that can wrap (sequence numbers, RTP timestamps, counters) are words of their width.

  \<^bold>\<open>Parameters.\<close> Code outside the repository is an argument: the SRTP and RTP library (\<open>pion\<close>), the cryptographic primitives, the
  JSON and YAML libraries, the mDNS and pairing library (\<open>hapEnv\<close>, \<open>pairLib\<close>, \<open>hkLib\<close>), libfdk-aac (\<open>codec\<close>) and libavcodec (\<open>avcodec\<close>), and what the
  operating system returns (clock readings, random bytes, sockets, files). Assumptions about them are hypotheses of the
  theorems that use them, and witnesses instantiate them.

  \<^bold>\<open>Bounds.\<close> There is no fuel: loops over received data recurse over the list of what was received, the pairing and recovery loops over the
  attempts they allow, and the remaining loops have termination proofs. Theorems about the video loop assume fewer than
  $2^{64}$ datagrams, so that its 64-bit counters do not wrap.

  \<^bold>\<open>Not modelled.\<close> Log output, and with it the C helpers that only print samples or stream information and the RTSP handlers that only log;
  time-outs and buffer sizes handed to the RTSP, HTTP and MQTT libraries; accessors that return a channel or an address.
\<close>

section \<open>The ONVIF server of a camera\<close>

text \<open>
  A client that asks for the stream address of a camera is sent the URL of that camera's RTSP server, and for the snapshot the
  address the snapshot is served at.
\<close>

lemma stream_uri_answer:
  assumes "length body \<le> maxSOAPBody" "extractAction body = ''GetStreamUri''"
  shows "handleMediaService (Inr body) (NewServer (onvifConfig conf cam)) = writeSOAP (Sprintf getStreamUriResponse [rtspURL conf cam])"
  using assms by (simp add: handleMediaService_def readBody_def NewServer_def onvifConfig_def Let_def)

lemma snapshot_served:
  assumes "svSnapshots s" "LatestSnapshotJPEG snap \<noteq> []"
  shows "serveHTTP u now (LatestSnapshotJPEG snap) ''/snapshot.jpg'' r s = (s, Some (Jpeg (LatestSnapshotJPEG snap)))"
  using assms by (simp add: serveHTTP_def handleSnapshot_def HasPrefix_def pullpointPath_def)

section \<open>From the camera's datagrams to the client\<close>

text \<open>
  The calls the video read loop makes on the RTSP server (wired in \<^verbatim>\<open>main.go\<close> by \<^verbatim>\<open>SetCallbacks\<close> and \<^verbatim>\<open>SetIDRCallback\<close>): one
  \<^verbatim>\<open>WriteVideoPacket\<close> per packet of a forwarded frame, one \<^verbatim>\<open>CacheOnlyVideoPacket\<close> per packet of a cached one. \<open>stamp\<close> gives the
  clock readings of the server.
\<close>

fun callbacks :: "(nat \<Rightarrow> nat \<Rightarrow> int) \<Rightarrow> nat \<Rightarrow> action list \<Rightarrow> rtspEvent list" where
  "callbacks stamp k [] = []"
| "callbacks stamp k (ForwardFrame f # as) = map (\<lambda>(j, p). WriteVideo (stamp k j) p) (enumerate 0 f) @ callbacks stamp (Suc k) as"
| "callbacks stamp k (CacheFrame f # as) = map CacheOnly f @ callbacks stamp (Suc k) as"
| "callbacks stamp k (_ # as) = callbacks stamp (Suc k) as"

fun fromVideoLoop :: "rtspEvent \<Rightarrow> bool" where
  "fromVideoLoop (WriteVideo now pkt) = True"
| "fromVideoLoop (CacheOnly pkt) = True"
| "fromVideoLoop _ = False"

lemma cameraPackets_append [simp]: "cameraPackets (xs @ ys) = cameraPackets xs @ cameraPackets ys"
  by (induction xs rule: cameraPackets.induct) auto

lemma cameraPackets_writes [simp]: "cameraPackets (map (\<lambda>(j, p). WriteVideo (t j) p) (enumerate n f)) = f"
  by (induction f arbitrary: n) auto

lemma cameraPackets_caches [simp]: "cameraPackets (map CacheOnly f) = []"
  by (induction f) auto

lemma cameraPackets_callbacks: "cameraPackets (callbacks stamp k acts) = concat (forwarded acts)"
  by (induction stamp k acts rule: callbacks.induct) auto

lemma cameraPackets_filter: "cameraPackets (filter fromVideoLoop es) = cameraPackets es"
  by (induction es rule: cameraPackets.induct) auto



end
